theory Spec2Isabelle
  imports Main "HOL-Library.AList"
begin

section \<open>Python values shared by both tools\<close>

text \<open>
  A Python \<open>dict\<close> is an association list, in the order of insertion: lookup is
  \<open>map_of\<close> (the first binding of the key), assignment \<open>d[k] = v\<close> is \<open>AList.update\<close>, which
  replaces the value in place when the key exists and appends the binding otherwise, as
  Python's insertion-ordered dictionaries do.  A value that may be \<open>None\<close> is an option.
\<close>

type_synonym ('k, 'v) dict = "('k \<times> 'v) list"

definition dict_in :: "'k \<Rightarrow> ('k, 'v) dict \<Rightarrow> bool" where
  "dict_in k d = (map_of d k \<noteq> None)"

definition truthy :: "string option \<Rightarrow> bool" where
  "truthy v = (case v of None \<Rightarrow> False | Some s \<Rightarrow> s \<noteq> [])"

datatype error = FileNotFoundError | ValueError | TypeError

section \<open>Resource matcher (avm_module_finder.py)\<close>

text \<open>
  A row of \<open>csv.DictReader\<close>: every field name is a key, and a field the line does not
  have is \<open>None\<close>.  \<open>row.get(k)\<close> is \<open>None\<close> for a missing key too.
\<close>

type_synonym csv_row = "(string, string option) dict"

definition row_get :: "csv_row \<Rightarrow> string \<Rightarrow> string option" where
  "row_get row k = (case map_of row k of None \<Rightarrow> None | Some v \<Rightarrow> v)"

definition row_get_default :: "csv_row \<Rightarrow> string \<Rightarrow> string \<Rightarrow> string option" where
  "row_get_default row k dflt = (case map_of row k of None \<Rightarrow> Some dflt | Some v \<Rightarrow> v)"

text \<open>
  The file as the reader sees it: \<open>fieldnames\<close> is \<open>None\<close> for a file without a header
  line; the path that does not exist is the file \<open>None\<close>.
\<close>

record csv_file =
  fieldnames :: "string list option"
  rows :: "csv_row list"

type_synonym deployment_index = "(string, string list) dict"

subsection \<open>load_deployment_csv\<close>

definition deployment_row :: "csv_row \<Rightarrow> deployment_index \<Rightarrow> deployment_index" where
  "deployment_row row deployment_data =
     (let namespace = row_get row ''ProviderNamespace'';
          resource_type = row_get row ''ResourceType''
      in if truthy namespace \<and> truthy resource_type then
           (case (namespace, resource_type) of
              (Some ns, Some rt) \<Rightarrow>
                (let d = (if \<not> dict_in ns deployment_data
                          then AList.update ns [] deployment_data else deployment_data)
                 in (case map_of d ns of
                       Some l \<Rightarrow> AList.update ns (l @ [rt]) d
                     | None \<Rightarrow> d))
            | _ \<Rightarrow> deployment_data)
         else deployment_data)"

definition load_deployment_csv :: "csv_file option \<Rightarrow> error + deployment_index" where
  "load_deployment_csv file =
     (case file of
        None \<Rightarrow> Inl FileNotFoundError
      | Some f \<Rightarrow>
          (case fieldnames f of
             None \<Rightarrow> Inl TypeError
           | Some names \<Rightarrow>
               if ''ProviderNamespace'' \<notin> set names \<or> ''ResourceType'' \<notin> set names
               then Inl ValueError
               else Inr (fold deployment_row (rows f) [])))"

subsection \<open>match_and_filter_modules\<close>

definition OUTPUT_COLUMNS :: "string list" where
  "OUTPUT_COLUMNS = [''ProviderNamespace'', ''ResourceType'', ''ModuleName'',
                     ''ModuleStatus'', ''RepoURL'', ''PublicRegistryReference'']"

definition RESOURCE_TYPE_MAPPINGS :: "(string \<times> string, string) dict" where
  "RESOURCE_TYPE_MAPPINGS = []"

text \<open>
  The state of the loop over the rows of the reference CSV.  Nothing in the body of the
  loop raises on a row of strings, so its handler and the count of parse errors are left
  out, as are the log and the count of rows.
\<close>

record match_state =
  matched_modules :: "csv_row list"
  skipped_modules :: "string list"

definition or_unknown :: "string option \<Rightarrow> string" where
  "or_unknown v = (case v of None \<Rightarrow> ''Unknown'' | Some s \<Rightarrow> if s = [] then ''Unknown'' else s)"

definition matched_row :: "csv_row \<Rightarrow> csv_row" where
  "matched_row row = map (\<lambda>column. (column, row_get_default row column [])) OUTPUT_COLUMNS"

definition match_row :: "deployment_index \<Rightarrow> csv_row \<Rightarrow> match_state \<Rightarrow> match_state" where
  "match_row deployment_data row st =
     (let namespace = row_get row ''ProviderNamespace'';
          resource_type = row_get row ''ResourceType'';
          module_status = row_get row ''ModuleStatus''
      in if \<not> (truthy namespace \<and> truthy resource_type \<and> truthy module_status) then
           st\<lparr>skipped_modules := skipped_modules st @
                 [or_unknown namespace @ ''/'' @ or_unknown resource_type]\<rparr>
         else
           (case (namespace, resource_type, module_status) of
              (Some ns, Some rt, Some status) \<Rightarrow>
                (let direct_match =
                       (case map_of deployment_data ns of
                          None \<Rightarrow> False | Some types \<Rightarrow> rt \<in> set types);
                     mapped_match =
                       list_ex (\<lambda>deployment_types.
                                  map_of RESOURCE_TYPE_MAPPINGS (ns, deployment_types) = Some rt)
                         (case map_of deployment_data ns of None \<Rightarrow> [] | Some types \<Rightarrow> types)
                 in if direct_match \<or> mapped_match then
                      (if status = ''Available''
                       then st\<lparr>matched_modules := matched_modules st @ [matched_row row]\<rparr>
                       else st\<lparr>skipped_modules := skipped_modules st @ [ns @ ''/'' @ rt]\<rparr>)
                    else st)
            | _ \<Rightarrow> st))"

definition match_and_filter_modules ::
  "csv_file \<Rightarrow> deployment_index \<Rightarrow> error + (csv_row list \<times> string list)" where
  "match_and_filter_modules avm_modules_file deployment_data =
     (case fieldnames avm_modules_file of
        None \<Rightarrow> Inl TypeError
      | Some names \<Rightarrow>
          (let missing_columns = filter (\<lambda>col. col \<notin> set names) OUTPUT_COLUMNS
           in if missing_columns \<noteq> [] then Inl ValueError
              else Inr (matched_modules
                          (fold (match_row deployment_data) (rows avm_modules_file)
                             \<lparr>matched_modules = [], skipped_modules = []\<rparr>),
                        OUTPUT_COLUMNS)))"

text \<open>The test \<open>if namespace and resource_type\<close> of the loader, as a predicate on rows.\<close>

definition valid_row :: "csv_row \<Rightarrow> bool" where
  "valid_row row =
     (truthy (row_get row ''ProviderNamespace'') \<and> truthy (row_get row ''ResourceType''))"

subsection \<open>Example inputs of the resource matcher\<close>

definition ex_index :: deployment_index where
  "ex_index = [(''Microsoft.Storage'', [''storageAccounts''])]"

definition ex_row :: "string \<Rightarrow> csv_row" where
  "ex_row status =
     [(''ProviderNamespace'', Some ''Microsoft.Storage''),
      (''ResourceType'', Some ''storageAccounts''),
      (''ModuleName'', Some ''avm-res-storage-storageaccount''),
      (''ModuleStatus'', Some status),
      (''RepoURL'', Some ''https://github.com/Azure/terraform-azurerm-avm-res-storage-storageaccount''),
      (''PublicRegistryReference'', Some ''Azure/avm-res-storage-storageaccount/azurerm'')]"

definition ex_reference :: csv_file where
  "ex_reference =
     \<lparr>fieldnames = Some OUTPUT_COLUMNS,
      rows = [ex_row ''Available'', ex_row ''NotAvailable'', ex_row ''available'']\<rparr>"

definition ex_deployment :: csv_file where
  "ex_deployment =
     \<lparr>fieldnames = Some [''ProviderNamespace'', ''ResourceType''],
      rows = [[(''ProviderNamespace'', Some ''Microsoft.Storage''),
               (''ResourceType'', Some ''storageAccounts'')],
              [(''ProviderNamespace'', Some ''Microsoft.Web''), (''ResourceType'', Some [])],
              [(''ProviderNamespace'', Some ''Microsoft.Sql''), (''ResourceType'', None)]]\<rparr>"

section \<open>README extractor (avm_module_parameter_parser.py)\<close>

subsection \<open>Python string operations\<close>

text \<open>
  A Python \<open>str\<close> is a list of characters; \<open>char\<close> covers the code points below 256.
  \<open>isspace\<close> is \<open>str.isspace\<close> on one such character, which is also what \<open>\s\<close> matches
  in a \<open>str\<close> pattern.
\<close>

definition newline :: char where
  "newline = CHR 0x0A"

definition isspace :: "char \<Rightarrow> bool" where
  "isspace c = (c \<in> set [CHR 0x09, CHR 0x0A, CHR 0x0B, CHR 0x0C, CHR 0x0D, CHR 0x1C, CHR 0x1D,
                          CHR 0x1E, CHR 0x1F, CHR 0x20, CHR 0x85, CHR 0xA0])"

definition strip :: "string \<Rightarrow> string" where
  "strip s = rev (dropWhile isspace (rev (dropWhile isspace s)))"

definition strip_chars :: "string \<Rightarrow> string \<Rightarrow> string" where
  "strip_chars s chars =
     rev (dropWhile (\<lambda>c. c \<in> set chars) (rev (dropWhile (\<lambda>c. c \<in> set chars) s)))"

fun startswith :: "string \<Rightarrow> string \<Rightarrow> bool" where
  "startswith s [] = True"
| "startswith [] (p # ps) = False"
| "startswith (c # cs) (p # ps) = (c = p \<and> startswith cs ps)"

definition endswith :: "string \<Rightarrow> string \<Rightarrow> bool" where
  "endswith s p = startswith (rev s) (rev p)"

text \<open>\<open>contains s p\<close> is Python's \<open>p in s\<close>.\<close>

fun contains :: "string \<Rightarrow> string \<Rightarrow> bool" where
  "contains [] p = (p = [])"
| "contains (c # cs) p = (startswith (c # cs) p \<or> contains cs p)"

text \<open>
  \<open>s.replace(old, new)\<close> and \<open>s.split(sep)\<close> for a non-empty \<open>old\<close> and \<open>sep\<close> (the program
  passes literals only): occurrences are found from the left and do not overlap.  The
  counter is the number of characters of the current occurrence still to be skipped.
\<close>

fun replace_from :: "string \<Rightarrow> string \<Rightarrow> nat \<Rightarrow> string \<Rightarrow> string" where
  "replace_from old new k [] = []"
| "replace_from old new (Suc k) (c # cs) = replace_from old new k cs"
| "replace_from old new 0 (c # cs) =
     (if startswith (c # cs) old then new @ replace_from old new (length old - 1) cs
      else c # replace_from old new 0 cs)"

definition replace :: "string \<Rightarrow> string \<Rightarrow> string \<Rightarrow> string" where
  "replace s old new = replace_from old new 0 s"

fun split_from :: "string \<Rightarrow> nat \<Rightarrow> string \<Rightarrow> string \<Rightarrow> string list" where
  "split_from sep k cur [] = [rev cur]"
| "split_from sep (Suc k) cur (c # cs) = split_from sep k cur cs"
| "split_from sep 0 cur (c # cs) =
     (if startswith (c # cs) sep then rev cur # split_from sep (length sep - 1) [] cs
      else split_from sep 0 (c # cur) cs)"

definition split :: "string \<Rightarrow> string \<Rightarrow> string list" where
  "split s sep = split_from sep 0 [] s"

subsection \<open>Regular expressions\<close>

text \<open>
  The patterns of the program use literals, \<open>.\<close>, character classes, \<open>\s\<close>, the anchors
  \<open>^\<close>, \<open>$\<close> and \<open>\Z\<close>, the lazy \<open>*?\<close> and the greedy \<open>+\<close> on one character, the greedy
  \<open>?\<close>, alternation and capturing groups.  \<open>rx_match\<close> is the backtracking matcher of
  Python's \<open>re\<close> at one start position: it returns every way the pattern can match there,
  in the order in which backtracking tries them, so the head of the list is the match
  \<open>re\<close> reports.  A state is the character before the position (for \<open>^\<close>), the text from
  the position on, and the groups captured so far.
\<close>

datatype flag = DOTALL | MULTILINE

datatype atom = AnyChar | OneOf "char list" | NoneOf "char list" | Whitespace

datatype rx =
    Lit string
  | Atom atom
  | LazyStar atom
  | GreedyPlus atom
  | Opt rx
  | Bol
  | Eol
  | EndZ
  | Seq rx rx
  | Alt rx rx
  | Group nat rx

definition cat :: "rx list \<Rightarrow> rx" where
  "cat rs = foldr Seq rs (Lit [])"

fun atom_ok :: "flag list \<Rightarrow> atom \<Rightarrow> char \<Rightarrow> bool" where
  "atom_ok fl AnyChar c = (DOTALL \<in> set fl \<or> c \<noteq> newline)"
| "atom_ok fl (OneOf cs) c = (c \<in> set cs)"
| "atom_ok fl (NoneOf cs) c = (c \<notin> set cs)"
| "atom_ok fl Whitespace c = isspace c"

type_synonym position = "char option \<times> string"
type_synonym mstate = "position \<times> (nat, string) dict"

fun lazy_run :: "(char \<Rightarrow> bool) \<Rightarrow> char option \<Rightarrow> string \<Rightarrow> position list" where
  "lazy_run ok p [] = [(p, [])]"
| "lazy_run ok p (c # cs) = (p, c # cs) # (if ok c then lazy_run ok (Some c) cs else [])"

fun rx_match :: "flag list \<Rightarrow> rx \<Rightarrow> mstate \<Rightarrow> mstate list" where
  "rx_match fl (Lit l) ((p, s), g) =
     (if startswith s l
      then [((if l = [] then p else Some (last l), drop (length l) s), g)] else [])"
| "rx_match fl (Atom a) ((p, s), g) =
     (case s of [] \<Rightarrow> []
      | c # cs \<Rightarrow> if atom_ok fl a c then [((Some c, cs), g)] else [])"
| "rx_match fl (LazyStar a) ((p, s), g) =
     map (\<lambda>pos. (pos, g)) (lazy_run (atom_ok fl a) p s)"
| "rx_match fl (GreedyPlus a) ((p, s), g) =
     map (\<lambda>pos. (pos, g)) (rev (tl (lazy_run (atom_ok fl a) p s)))"
| "rx_match fl (Opt r) st = rx_match fl r st @ [st]"
| "rx_match fl Bol ((p, s), g) =
     (if p = None \<or> (MULTILINE \<in> set fl \<and> p = Some newline) then [((p, s), g)] else [])"
| "rx_match fl Eol ((p, s), g) =
     (if s = [] \<or> s = [newline] \<or> (MULTILINE \<in> set fl \<and> startswith s [newline])
      then [((p, s), g)] else [])"
| "rx_match fl EndZ ((p, s), g) = (if s = [] then [((p, s), g)] else [])"
| "rx_match fl (Seq a b) st = concat (map (rx_match fl b) (rx_match fl a st))"
| "rx_match fl (Alt a b) st = rx_match fl a st @ rx_match fl b st"
| "rx_match fl (Group n r) ((p, s), g) =
     map (\<lambda>((p', s'), g'). ((p', s'), AList.update n (take (length s - length s') s) g'))
       (rx_match fl r ((p, s), g))"

text \<open>
  A match object: the text skipped between the start of the search and the match, the
  groups, the matched text, and the position after the match.  \<open>group m n\<close> is \<open>m.group(n)\<close>,
  \<open>None\<close> for a group that took no part in the match.
\<close>

record rmatch =
  skipped :: string
  groups :: "(nat, string) dict"
  whole :: string
  prev_char :: "char option"
  rest :: string

definition group :: "rmatch \<Rightarrow> nat \<Rightarrow> string option" where
  "group m n = (if n = 0 then Some (whole m) else map_of (groups m) n)"

fun search_from :: "flag list \<Rightarrow> rx \<Rightarrow> char option \<Rightarrow> string \<Rightarrow> rmatch option" where
  "search_from fl r p [] =
     (case rx_match fl r ((p, []), []) of
        ((p', s'), g) # _ \<Rightarrow> Some \<lparr>skipped = [], groups = g, whole = [], prev_char = p', rest = s'\<rparr>
      | [] \<Rightarrow> None)"
| "search_from fl r p (c # cs) =
     (case rx_match fl r ((p, c # cs), []) of
        ((p', s'), g) # _ \<Rightarrow>
          Some \<lparr>skipped = [], groups = g,
                whole = take (length (c # cs) - length s') (c # cs),
                prev_char = p', rest = s'\<rparr>
      | [] \<Rightarrow>
          (case search_from fl r (Some c) cs of
             None \<Rightarrow> None
           | Some m \<Rightarrow> Some (m\<lparr>skipped := c # skipped m\<rparr>)))"

text \<open>\<open>re.search(pattern, string, flags)\<close>.\<close>

definition re_search :: "rx \<Rightarrow> string \<Rightarrow> flag list \<Rightarrow> rmatch option" where
  "re_search pattern string fl = search_from fl pattern None string"

text \<open>
  \<open>re.finditer\<close>: the matches from the left, each search resuming where the match before
  it ended, together with the text after the last match.  Every pattern the program
  scans with begins with a literal character, so a match is never empty; the scan stops
  at a match that consumes nothing.
\<close>

function scan_from :: "flag list \<Rightarrow> rx \<Rightarrow> char option \<Rightarrow> string \<Rightarrow> rmatch list \<times> string" where
  "scan_from fl r p s =
     (case search_from fl r p s of
        None \<Rightarrow> ([], s)
      | Some m \<Rightarrow>
          if length (rest m) < length s
          then (case scan_from fl r (prev_char m) (rest m) of
                  (ms, tail) \<Rightarrow> (m # ms, tail))
          else ([m], rest m))"
  by pat_completeness auto
termination
  by (relation "measure (\<lambda>(fl, r, p, s). length s)") auto

definition re_finditer :: "rx \<Rightarrow> string \<Rightarrow> flag list \<Rightarrow> rmatch list" where
  "re_finditer pattern string fl = fst (scan_from fl pattern None string)"

text \<open>\<open>re.split\<close> for a pattern without groups: the texts between the matches.\<close>

definition re_split :: "rx \<Rightarrow> string \<Rightarrow> string list" where
  "re_split pattern string =
     (case scan_from [] pattern None string of (ms, tail) \<Rightarrow> map skipped ms @ [tail])"

subsection \<open>Parsed data\<close>

text \<open>
  The values the extractor builds and hands to \<open>json.dumps\<close>: strings, booleans and
  dictionaries with string keys.
\<close>

datatype pyval = PStr string | PBool bool | PDict "(string \<times> pyval) list"

type_synonym pydict = "(string, pyval) dict"

definition backslash :: char where
  "backslash = CHR 0x5C"

text \<open>
  \<open>group_of m n\<close> reads a group that lies on every path through its pattern, so that it
  took part in every match.
\<close>

definition group_of :: "rmatch \<Rightarrow> nat \<Rightarrow> string" where
  "group_of m n = (case group m n of None \<Rightarrow> [] | Some s \<Rightarrow> s)"

subsection \<open>ReadmeParser: sections and entries\<close>

text \<open>
  \<open>extract_section\<close> formats the section name into the pattern; every name the program
  passes is made of letters and spaces, which stand for themselves in a pattern.
\<close>

definition section_pattern :: "string \<Rightarrow> rx" where
  "section_pattern section_name =
     cat [Lit ''## '', Lit section_name, Group 1 (LazyStar AnyChar),
          Alt (cat [Bol, Lit ''##'', Atom Whitespace]) EndZ]"

definition extract_section :: "string \<Rightarrow> string \<Rightarrow> string" where
  "extract_section content section_name =
     (case re_search (section_pattern section_name) content [DOTALL, MULTILINE] of
        Some m \<Rightarrow> strip (group_of m 1)
      | None \<Rightarrow> [])"

definition hcl_pattern :: rx where
  "hcl_pattern = cat [Lit (''```hcl'' @ [newline]), Group 1 (LazyStar AnyChar), Lit ''```'']"

definition extract_hcl_block :: "string \<Rightarrow> string" where
  "extract_hcl_block text =
     (case re_search hcl_pattern text [DOTALL] of
        Some m \<Rightarrow> strip (group_of m 1)
      | None \<Rightarrow> [])"

definition input_name_pattern :: rx where
  "input_name_pattern =
     cat [Lit ''### <a name=\"input_'', Group 1 (LazyStar AnyChar), Lit ''\"></a> ['',
          Group 2 (LazyStar AnyChar), Lit '']'']"

definition output_name_pattern :: rx where
  "output_name_pattern =
     cat [Lit ''### <a name=\"output_'', Group 1 (LazyStar AnyChar), Lit ''\"></a> ['',
          Group 2 (LazyStar AnyChar), Lit '']'']"

definition input_description_pattern :: rx where
  "input_description_pattern =
     cat [Lit ''Description: '', Group 1 (LazyStar AnyChar), Alt (Lit ''Type:'') Eol]"

definition output_description_pattern :: rx where
  "output_description_pattern = cat [Lit ''Description: '', Group 1 (LazyStar AnyChar), Eol]"

definition type_pattern :: rx where
  "type_pattern = cat [Lit ''Type: `'', Group 1 (LazyStar AnyChar), Lit ''`'']"

definition default_pattern :: rx where
  "default_pattern = cat [Lit ''Default: `'', Group 1 (LazyStar AnyChar), Lit ''`'']"

text \<open>The empty dictionary is the result for an entry without the name heading.\<close>

definition parse_input_entry :: "string \<Rightarrow> pydict" where
  "parse_input_entry entry =
     (case re_search input_name_pattern entry [] of
        None \<Rightarrow> []
      | Some name_match \<Rightarrow>
          (let input_name = replace (group_of name_match 2) [backslash] [];
               description =
                 (case re_search input_description_pattern entry [DOTALL] of
                    Some desc_match \<Rightarrow> strip (group_of desc_match 1)
                  | None \<Rightarrow> []);
               type_value =
                 (case re_search type_pattern entry [] of
                    Some type_match \<Rightarrow> group_of type_match 1
                  | None \<Rightarrow> []);
               hcl_block = extract_hcl_block entry;
               type_value = (if hcl_block \<noteq> [] then strip hcl_block else type_value);
               default_value =
                 (case re_search default_pattern entry [] of
                    Some default_match \<Rightarrow> Some (group_of default_match 1)
                  | None \<Rightarrow> None);
               result = [(''name'', PStr input_name), (''description'', PStr description),
                         (''type'', PStr type_value)]
           in (case default_value of
                 Some d \<Rightarrow> AList.update ''default'' (PStr d) result
               | None \<Rightarrow> result)))"

definition parse_output_entry :: "string \<Rightarrow> pydict" where
  "parse_output_entry entry =
     (case re_search output_name_pattern entry [] of
        None \<Rightarrow> []
      | Some name_match \<Rightarrow>
          (let output_name = replace (group_of name_match 2) [backslash] [];
               description =
                 (case re_search output_description_pattern entry [DOTALL] of
                    Some desc_match \<Rightarrow> strip (group_of desc_match 1)
                  | None \<Rightarrow> [])
           in [(''name'', PStr output_name), (''description'', PStr description)]))"

text \<open>One round of the loop of \<open>parse_inputs_section\<close>, on one fragment of the split.\<close>

definition inputs_entry :: "bool \<Rightarrow> string \<Rightarrow> pydict \<Rightarrow> pydict" where
  "inputs_entry is_required entry result =
     (let entry = ''### <a name=\"input_'' @ entry;
          parsed_entry = parse_input_entry entry
      in if parsed_entry \<noteq> [] \<and> dict_in ''name'' parsed_entry then
           (case map_of parsed_entry ''name'' of
              Some (PStr input_name) \<Rightarrow>
                AList.update input_name
                  (PDict (AList.update ''required'' (PBool is_required) parsed_entry)) result
            | _ \<Rightarrow> result)
         else result)"

definition parse_inputs_section :: "string \<Rightarrow> bool \<Rightarrow> pydict" where
  "parse_inputs_section section_text is_required =
     (let entries = re_split (Lit ''### <a name=\"input_'') section_text
      in fold (inputs_entry is_required) (tl entries) [])"

definition outputs_entry :: "string \<Rightarrow> pydict \<Rightarrow> pydict" where
  "outputs_entry entry result =
     (let entry = ''### <a name=\"output_'' @ entry;
          parsed_entry = parse_output_entry entry
      in if parsed_entry \<noteq> [] \<and> dict_in ''name'' parsed_entry then
           (case map_of parsed_entry ''name'' of
              Some (PStr output_name) \<Rightarrow> AList.update output_name (PDict parsed_entry) result
            | _ \<Rightarrow> result)
         else result)"

definition parse_outputs_section :: "string \<Rightarrow> pydict" where
  "parse_outputs_section section_text =
     (let entries = re_split (Lit ''### <a name=\"output_'') section_text
      in fold outputs_entry (tl entries) [])"

text \<open>\<open>{**a, **b}\<close>: the bindings of \<open>b\<close> are assigned into \<open>a\<close> in their order.\<close>

definition dict_merge :: "('k, 'v) dict \<Rightarrow> ('k, 'v) dict \<Rightarrow> ('k, 'v) dict" where
  "dict_merge a b = fold (\<lambda>(k, v). AList.update k v) b a"

subsection \<open>ReadmeParser.parse_requirements_section\<close>

definition requirement_name_pattern :: rx where
  "requirement_name_pattern =
     cat [Lit ''<a name=\"requirement_'', Group 1 (GreedyPlus (NoneOf ''\"'')), Lit ''\"></a>'']"

definition requirement_version_pattern :: rx where
  "requirement_version_pattern =
     cat [Lit ''('', Group 1 (GreedyPlus (NoneOf '')'')), Lit '')'', Eol]"

text \<open>
  The requirement a line holds, as the loop finds it: its name and its version, or
  \<open>None\<close> for a line the loop passes over.
\<close>

definition requirement_of_line :: "string \<Rightarrow> (string \<times> string) option" where
  "requirement_of_line line =
     (if contains line ''<a name=\"requirement_'' \<and> contains line ''('' \<and> contains line '')''
      then (case re_search requirement_name_pattern line [] of
              None \<Rightarrow> None
            | Some name_match \<Rightarrow>
                (case re_search requirement_version_pattern (strip line) [] of
                   None \<Rightarrow> None
                 | Some version_match \<Rightarrow>
                     Some (group_of name_match 1, strip (group_of version_match 1))))
      else None)"

record requirements =
  terraform_version :: "string option"
  providers :: pydict

definition requirement_line :: "string \<Rightarrow> requirements \<Rightarrow> requirements" where
  "requirement_line line st =
     (case requirement_of_line line of
        None \<Rightarrow> st
      | Some (req_name, req_version) \<Rightarrow>
          if req_name = ''terraform'' then st\<lparr>terraform_version := Some req_version\<rparr>
          else
            (let entry = [(''source'', PStr (''hashicorp/'' @ req_name)),
                          (''version'', PStr req_version)];
                 entry = (if req_name = ''modtm''
                          then AList.update ''source'' (PStr ''azure/modtm'') entry else entry)
             in st\<lparr>providers := AList.update req_name (PDict entry) (providers st)\<rparr>))"

definition parse_requirements_section :: "string \<Rightarrow> pydict" where
  "parse_requirements_section section =
     (if section = [] then []
      else
        (let st = fold requirement_line (split section [newline])
                    \<lparr>terraform_version = None, providers = []\<rparr>
         in if truthy (terraform_version st) \<or> providers st \<noteq> [] then
              (let terraform_block = [];
                   terraform_block =
                     (case terraform_version st of
                        Some v \<Rightarrow> if v \<noteq> [] then AList.update ''required_version'' (PStr v) terraform_block
                                  else terraform_block
                      | None \<Rightarrow> terraform_block);
                   terraform_block =
                     (if providers st \<noteq> []
                      then AList.update ''required_providers'' (PDict (providers st)) terraform_block
                      else terraform_block)
               in [(''terraform'', PDict terraform_block)])
            else []))"

subsection \<open>Paths, files and the network\<close>

text \<open>\<open>os.path.join\<close>, \<open>os.path.basename\<close> and \<open>os.path.dirname\<close> of \<open>posixpath\<close>.\<close>

definition path_join :: "string \<Rightarrow> string \<Rightarrow> string" where
  "path_join a b =
     (if startswith b ''/'' then b
      else if a = [] \<or> endswith a ''/'' then a @ b
      else a @ ''/'' @ b)"

definition basename :: "string \<Rightarrow> string" where
  "basename p = rev (takeWhile (\<lambda>c. c \<noteq> CHR ''/'') (rev p))"

definition dirname :: "string \<Rightarrow> string" where
  "dirname p =
     (let head = rev (dropWhile (\<lambda>c. c \<noteq> CHR ''/'') (rev p))
      in if head \<noteq> [] \<and> \<not> list_all (\<lambda>c. c = CHR ''/'') head
         then rev (dropWhile (\<lambda>c. c = CHR ''/'') (rev head))
         else head)"

text \<open>
  What the program sees of the world.  The files are the text files by their paths; a
  relative path is taken from the working directory.  \<open>can_write\<close> says where a file can
  be created.  \<open>registry\<close> is the answer of the registry API at a URL: the \<open>source\<close> field
  of the JSON object of a successful answer (the empty string when the object has none),
  or a failure, which covers an error status, a failed request and an answer that is not
  such an object.  \<open>http\<close> is the answer of the raw-content host at a URL: a status code
  with the text, or a failed request.  \<open>requested\<close> records the URLs requested, in order.
\<close>

datatype api_reply = ApiSource string | ApiFailure

datatype http_reply = Reply nat string | RequestException

record world =
  cwd :: string
  script_dir :: string
  files :: "(string, string) dict"
  can_write :: "string \<Rightarrow> bool"
  registry :: "string \<Rightarrow> api_reply"
  http :: "string \<Rightarrow> http_reply"
  requested :: "string list"

definition file_path :: "world \<Rightarrow> string \<Rightarrow> string" where
  "file_path w p = (if startswith p ''/'' then p else path_join (cwd w) p)"

text \<open>
  A file opened for reading in text mode has its line ends translated: a carriage return
  followed by a line feed, and a carriage return alone, are read as one line feed.  A file
  opened for writing keeps the text as it is (on a POSIX system, whose paths these are).
\<close>

fun universal_newlines :: "string \<Rightarrow> string" where
  "universal_newlines [] = []"
| "universal_newlines [c] = (if c = CHR 0x0D then [newline] else [c])"
| "universal_newlines (c # d # cs) =
     (if c = CHR 0x0D then
        (if d = newline then newline # universal_newlines cs
         else newline # universal_newlines (d # cs))
      else c # universal_newlines (d # cs))"

definition read_text :: "world \<Rightarrow> string \<Rightarrow> string option" where
  "read_text w p = map_option universal_newlines (map_of (files w) (file_path w p))"

definition path_exists :: "world \<Rightarrow> string \<Rightarrow> bool" where
  "path_exists w p = (read_text w p \<noteq> None)"

definition write_text :: "world \<Rightarrow> string \<Rightarrow> string \<Rightarrow> world option" where
  "write_text w p text =
     (if can_write w (file_path w p)
      then Some (w\<lparr>files := AList.update (file_path w p) text (files w)\<rparr>)
      else None)"

subsection \<open>ReadmeParser: the object and parse\<close>

record readme_parser =
  readme_path :: string
  content :: string
  required_inputs :: pydict
  optional_inputs :: pydict
  outputs :: pydict
  submodules :: pydict
  parser_module_name :: string

definition ReadmeParser :: "string \<Rightarrow> readme_parser" where
  "ReadmeParser path =
     \<lparr>readme_path = path, content = [], required_inputs = [], optional_inputs = [],
      outputs = [], submodules = [],
      parser_module_name = replace (basename path) ''_README.md'' []\<rparr>"

text \<open>\<open>read_file\<close> leaves the content as it is when the file cannot be read.\<close>

definition read_file :: "world \<Rightarrow> readme_parser \<Rightarrow> readme_parser" where
  "read_file w parser =
     (case read_text w (readme_path parser) of
        Some text \<Rightarrow> parser\<lparr>content := text\<rparr>
      | None \<Rightarrow> parser)"

definition submodule_pattern :: rx where
  "submodule_pattern =
     Alt (cat [Lit ''`'', Group 1 (GreedyPlus (NoneOf ''`'')), Lit ''`''])
    (Alt (cat [Lit [CHR 0x27], Group 2 (GreedyPlus (NoneOf [CHR 0x27])), Lit [CHR 0x27]])
    (Alt (cat [Lit ''\"'', Group 3 (GreedyPlus (NoneOf ''\"'')), Lit ''\"''])
         (cat [Alt Bol (Lit [newline]), Lit ''-'', GreedyPlus Whitespace,
               Opt (Atom (OneOf [CHR ''`'', CHR 0x27, CHR ''\"''])),
               Group 4 (GreedyPlus (NoneOf [CHR '':'', CHR ''`'', CHR 0x27, CHR ''\"'', newline])),
               Opt (Atom (OneOf [CHR ''`'', CHR 0x27, CHR ''\"''])),
               Alt (Lit '':'') Eol])))"

text \<open>The first group of a match that is not \<open>None\<close>.\<close>

definition first_group :: "rmatch \<Rightarrow> string option" where
  "first_group m =
     (case List.map_filter (group m) [1, 2, 3, 4] of
        [] \<Rightarrow> None
      | g # _ \<Rightarrow> Some g)"

text \<open>One round of the loop of \<open>process_submodules\<close>, on one match.\<close>

definition process_submodule :: "world \<Rightarrow> string \<Rightarrow> rmatch \<Rightarrow> pydict \<Rightarrow> pydict" where
  "process_submodule w base_dir m subs =
     (case first_group m of
        None \<Rightarrow> subs
      | Some submodule_name \<Rightarrow>
          if submodule_name = [] then subs
          else
            (let potential_paths =
                   [path_join (path_join (path_join base_dir ''modules'') submodule_name) ''README.md'',
                    path_join (path_join base_dir submodule_name) ''README.md'',
                    path_join (path_join (path_join base_dir ''modules'') submodule_name) ''README.md'']
             in (case find (path_exists w) potential_paths of
                   None \<Rightarrow> subs
                 | Some submodule_readme_path \<Rightarrow>
                     (let submodule_parser = read_file w (ReadmeParser submodule_readme_path);
                          required = extract_section (content submodule_parser) ''Required Inputs'';
                          optional = extract_section (content submodule_parser) ''Optional Inputs'';
                          outs = extract_section (content submodule_parser) ''Outputs'';
                          req_inputs_data = parse_inputs_section required True;
                          opt_inputs_data = parse_inputs_section optional False;
                          outputs_data = parse_outputs_section outs;
                          all_inputs = dict_merge req_inputs_data opt_inputs_data
                      in AList.update submodule_name
                           (PDict [(''name'', PStr submodule_name), (''inputs'', PDict all_inputs),
                                   (''outputs'', PDict outputs_data), (''description'', PStr [])])
                           subs))))"

definition process_submodules :: "world \<Rightarrow> readme_parser \<Rightarrow> string \<Rightarrow> readme_parser" where
  "process_submodules w parser submodules_section =
     (let submodule_matches = re_finditer submodule_pattern submodules_section [MULTILINE];
          base_dir = dirname (readme_path parser)
      in parser\<lparr>submodules :=
           fold (process_submodule w base_dir) submodule_matches (submodules parser)\<rparr>)"

definition set_submodules :: "readme_parser \<Rightarrow> pydict \<Rightarrow> readme_parser" where
  "set_submodules parser submodules_data = parser\<lparr>submodules := submodules_data\<rparr>"

text \<open>\<open>parse\<close> returns the parser as it leaves it, and the result.\<close>

definition parse :: "world \<Rightarrow> readme_parser \<Rightarrow> readme_parser \<times> pydict" where
  "parse w parser =
     (let parser = (if content parser = [] then read_file w parser else parser);
          requirements_section = extract_section (content parser) ''Requirements'';
          required_inputs_section = extract_section (content parser) ''Required Inputs'';
          optional_inputs_section = extract_section (content parser) ''Optional Inputs'';
          outputs_section = extract_section (content parser) ''Outputs'';
          submodules_section = extract_section (content parser) ''Submodules'';
          parser = parser\<lparr>required_inputs := parse_inputs_section required_inputs_section True\<rparr>;
          parser = parser\<lparr>optional_inputs := parse_inputs_section optional_inputs_section False\<rparr>;
          parser = parser\<lparr>outputs := parse_outputs_section outputs_section\<rparr>;
          module_requirements = parse_requirements_section requirements_section;
          parser = (if submodules_section \<noteq> []
                    then process_submodules w parser submodules_section else parser);
          all_inputs = dict_merge (required_inputs parser) (optional_inputs parser);
          entity = [(''name'', PStr (parser_module_name parser)), (''description'', PStr []),
                    (''inputs'', PDict all_inputs), (''outputs'', PDict (outputs parser))];
          entity = (if module_requirements \<noteq> []
                    then AList.update ''module_requirements'' (PDict module_requirements) entity
                    else entity);
          entity = (if submodules parser \<noteq> []
                    then AList.update ''submodules'' (PDict (submodules parser)) entity
                    else entity)
      in (parser, [(parser_module_name parser, PDict entity)]))"

text \<open>The first part of \<open>parse\<close>: the content is read and the three sections are parsed.\<close>

definition parse_sections :: "world \<Rightarrow> readme_parser \<Rightarrow> readme_parser" where
  "parse_sections w parser =
     (let p = (if content parser = [] then read_file w parser else parser)
      in p\<lparr>required_inputs := parse_inputs_section (extract_section (content p) ''Required Inputs'') True,
           optional_inputs := parse_inputs_section (extract_section (content p) ''Optional Inputs'') False,
           outputs := parse_outputs_section (extract_section (content p) ''Outputs'')\<rparr>)"

text \<open>
  \<open>to_json\<close> parses again and serialises the result; the JSON text and the output file
  are not modelled, the data handed to \<open>json.dumps\<close> is.
\<close>

definition to_json :: "world \<Rightarrow> readme_parser \<Rightarrow> readme_parser \<times> pydict" where
  "to_json w parser = parse w parser"

text \<open>
  \<open>parse_readme_directly\<close> returns the dictionary with the two keys \<open>inputs\<close> and
  \<open>outputs\<close>, here the pair of their values.
\<close>

definition parse_readme_directly :: "world \<Rightarrow> string \<Rightarrow> pydict \<times> pydict" where
  "parse_readme_directly w path =
     (case read_text w path of
        None \<Rightarrow> ([], [])
      | Some readme_content \<Rightarrow>
          (let parser = (ReadmeParser path)\<lparr>content := readme_content\<rparr>;
               required_inputs_section = extract_section (content parser) ''Required Inputs'';
               optional_inputs_section = extract_section (content parser) ''Optional Inputs'';
               outputs_section = extract_section (content parser) ''Outputs'';
               required = parse_inputs_section required_inputs_section True;
               optional = parse_inputs_section optional_inputs_section False;
               outs = parse_outputs_section outputs_section
           in (dict_merge required optional, outs)))"

subsection \<open>TerraformRegistryFetcher\<close>

record fetcher =
  registry_module_name :: string
  namespace :: string
  name :: string
  provider :: string
  github_repo :: "string option"
  source_url :: "string option"
  repo_branch :: "string option"

definition registry_base_url :: string where
  "registry_base_url = ''https://registry.terraform.io''"

definition github_raw_base_url :: string where
  "github_raw_base_url = ''https://raw.githubusercontent.com''"

text \<open>The constructor raises \<open>ValueError\<close> for a name that is not three parts.\<close>

definition TerraformRegistryFetcher :: "string \<Rightarrow> error + fetcher" where
  "TerraformRegistryFetcher m =
     (case split m ''/'' of
        [a, b, c] \<Rightarrow>
          Inr \<lparr>registry_module_name = m, namespace = a, name = b, provider = c,
               github_repo = None, source_url = None, repo_branch = None\<rparr>
      | _ \<Rightarrow> Inl ValueError)"

definition get_registry_api_url :: "fetcher \<Rightarrow> string" where
  "get_registry_api_url f =
     registry_base_url @ ''/v1/modules/'' @ namespace f @ ''/'' @ name f @ ''/'' @ provider f"

definition fetch_module_source :: "fetcher \<Rightarrow> world \<Rightarrow> world \<times> string option" where
  "fetch_module_source f w =
     (let api_url = get_registry_api_url f;
          w' = w\<lparr>requested := requested w @ [api_url]\<rparr>
      in (case registry w api_url of
            ApiSource src \<Rightarrow> if src = [] then (w', None) else (w', Some src)
          | ApiFailure \<Rightarrow> (w', None)))"

definition owner_repo :: rx where
  "owner_repo = cat [GreedyPlus (NoneOf ''/''), Lit ''/'', GreedyPlus (NoneOf ''/'')]"

definition github_patterns :: "rx list" where
  "github_patterns =
     [cat [Lit ''github.com'', Atom (OneOf '':/''), Group 1 owner_repo, Opt (Lit ''.git''), Eol],
      cat [Lit ''github.com/'', Group 1 owner_repo]]"

fun extract_with :: "rx list \<Rightarrow> fetcher \<Rightarrow> string \<Rightarrow> fetcher \<times> string option" where
  "extract_with [] f src = (f, None)"
| "extract_with (pattern # patterns) f src =
     (case re_search pattern src [] of
        Some m \<Rightarrow>
          (let repo = replace (group_of m 1) ''.git'' []
           in (f\<lparr>github_repo := Some repo, source_url := Some src\<rparr>, Some repo))
      | None \<Rightarrow> extract_with patterns f src)"

definition extract_github_repo :: "fetcher \<Rightarrow> string \<Rightarrow> fetcher \<times> string option" where
  "extract_github_repo f src = extract_with github_patterns f src"

text \<open>
  The loop of \<open>fetch_readme_content\<close> over the candidate paths: the first one answered
  with status 200 gives the text and the branch, which is also stored in the fetcher.
\<close>

fun fetch_paths ::
  "fetcher \<Rightarrow> world \<Rightarrow> string list \<Rightarrow> fetcher \<times> world \<times> (string \<times> string) option" where
  "fetch_paths f w [] = (f, w, None)"
| "fetch_paths f w (path # paths) =
     (let url = github_raw_base_url @ ''/'' @ path;
          w' = w\<lparr>requested := requested w @ [url]\<rparr>
      in (case http w url of
            Reply status_code body \<Rightarrow>
              if status_code = 200 then
                (let branch = (if contains url ''main'' then ''main'' else ''master'')
                 in (f\<lparr>repo_branch := Some branch\<rparr>, w', Some (body, branch)))
              else fetch_paths f w' paths
          | RequestException \<Rightarrow> fetch_paths f w' paths))"

definition fetch_readme_content ::
  "fetcher \<Rightarrow> world \<Rightarrow> string \<Rightarrow> string \<Rightarrow> fetcher \<times> world \<times> (string \<times> string) option" where
  "fetch_readme_content f w repo path =
     (let readme_paths =
            (if path \<noteq> [] then
               (let readme_path = (if endswith path ''README.md'' then path
                                   else path_join path ''README.md'')
                in [repo @ ''/main/'' @ readme_path, repo @ ''/master/'' @ readme_path])
             else [repo @ ''/main/README.md'', repo @ ''/master/README.md''])
      in fetch_paths f w readme_paths)"

definition fetch_and_save_readme :: "fetcher \<Rightarrow> world \<Rightarrow> fetcher \<times> world \<times> string option" where
  "fetch_and_save_readme f w =
     (case fetch_module_source f w of
        (w, None) \<Rightarrow> (f, w, None)
      | (w, Some src) \<Rightarrow>
          (case extract_github_repo f src of
             (f, None) \<Rightarrow> (f, w, None)
           | (f, Some repo) \<Rightarrow>
               if repo = [] then (f, w, None)
               else
                 (case fetch_readme_content f w repo [] of
                    (f, w, None) \<Rightarrow> (f, w, None)
                  | (f, w, Some (readme_content, branch)) \<Rightarrow>
                      (let module_filename = replace (name f) ''-'' ''_'';
                           readme_filename = ''working/'' @ module_filename @ ''_README.md''
                       in (case write_text w readme_filename readme_content of
                             Some w' \<Rightarrow> (f, w', Some readme_filename)
                           | None \<Rightarrow> (f, w, None))))))"

definition fetch_submodule_readme ::
  "fetcher \<Rightarrow> world \<Rightarrow> string \<Rightarrow> string \<Rightarrow> fetcher \<times> world \<times> string option" where
  "fetch_submodule_readme f w submodule_path submodule_name =
     (case github_repo f of
        None \<Rightarrow> (f, w, None)
      | Some repo \<Rightarrow>
          if repo = [] then (f, w, None)
          else
            (let submodule_path = strip_chars submodule_path ''/'';
                 submodule_path = (if startswith submodule_path ''./''
                                   then drop 2 submodule_path else submodule_path)
             in (case fetch_readme_content f w repo submodule_path of
                   (f, w, None) \<Rightarrow> (f, w, None)
                 | (f, w, Some (readme_content, branch)) \<Rightarrow>
                     (let module_base = replace (name f) ''-'' ''_'';
                          submodule_safe_name = replace (replace submodule_name ''-'' ''_'') ''/'' ''_'';
                          readme_filename =
                            ''working/'' @ module_base @ ''_'' @ submodule_safe_name @ ''_README.md''
                      in (case write_text w readme_filename readme_content of
                            Some w' \<Rightarrow> (f, w', Some readme_filename)
                          | None \<Rightarrow> (f, w, None))))))"

subsection \<open>main\<close>

definition module_pattern :: rx where
  "module_pattern =
     cat [Lit ''### <a name=\"module_'', Group 1 (LazyStar AnyChar), Lit ''\"></a> ['',
          Group 2 (LazyStar AnyChar), Lit '']'', LazyStar AnyChar, Lit ''Source: '',
          Group 3 (LazyStar AnyChar), Alt (Lit [newline, newline]) EndZ]"

record submodule_info =
  info_id :: string
  info_name :: string
  info_path :: string
  info_description :: string

definition submodule_info_of :: "rmatch \<Rightarrow> submodule_info" where
  "submodule_info_of m =
     (let module_id = strip (group_of m 1);
          nm = strip (group_of m 2);
          source_path = strip (group_of m 3);
          source_path = (if startswith source_path ''./'' then drop 2 source_path else source_path)
      in \<lparr>info_id = module_id, info_name = nm, info_path = source_path, info_description = []\<rparr>)"

definition discover_submodules :: "string \<Rightarrow> submodule_info list" where
  "discover_submodules modules_section =
     map submodule_info_of (re_finditer module_pattern modules_section [DOTALL])"

text \<open>
  One round of the loop of \<open>main\<close> over the submodules found: a submodule whose README
  cannot be fetched and saved is passed over.
\<close>

definition process_info ::
  "submodule_info \<Rightarrow> fetcher \<times> world \<times> pydict \<Rightarrow> fetcher \<times> world \<times> pydict" where
  "process_info info st =
     (case st of (f, w, submodules_data) \<Rightarrow>
        (case fetch_submodule_readme f w (info_path info) (info_name info) of
           (f, w, None) \<Rightarrow> (f, w, submodules_data)
         | (f, w, Some submodule_readme_path) \<Rightarrow>
             (let submodule_readme_path = path_join (script_dir w) submodule_readme_path;
                  parsed_data = parse_readme_directly w submodule_readme_path
              in (f, w,
                  AList.update (info_name info)
                    (PDict [(''name'', PStr (info_name info)), (''path'', PStr (info_path info)),
                            (''description'', PStr (info_description info)),
                            (''inputs'', PDict (fst parsed_data)),
                            (''outputs'', PDict (snd parsed_data))])
                    submodules_data))))"

text \<open>
  The outcome of \<open>main\<close>: the data written as JSON, or no data when \<open>main\<close> returns
  before parsing or its handler catches an exception.
\<close>

datatype outcome = Completed pydict | Aborted

text \<open>
  The part of \<open>main\<close> that collects the submodules, which happens in registry mode
  only: the entries of the Modules section are found and each README is fetched, saved
  and parsed.
\<close>

definition collect_submodules :: "world \<Rightarrow> fetcher option \<Rightarrow> readme_parser \<Rightarrow> world \<times> pydict" where
  "collect_submodules w registry_fetcher parser =
     (case registry_fetcher of
        None \<Rightarrow> (w, [])
      | Some f \<Rightarrow>
          if truthy (github_repo f) then
            (let modules_section = extract_section (content parser) ''Modules''
             in if modules_section \<noteq> [] then
                  (case fold process_info (discover_submodules modules_section) (f, w, []) of
                     (f, w, submodules_data) \<Rightarrow> (w, submodules_data))
                else (w, []))
          else (w, []))"

text \<open>
  \<open>main\<close> from the README path on.  The creation of the folders, the name of the output
  file, the statistics and the log are left out: they do not change the data.
\<close>

definition parse_and_save :: "world \<Rightarrow> fetcher option \<Rightarrow> string \<Rightarrow> world \<times> outcome" where
  "parse_and_save w registry_fetcher path =
     (let parser = read_file w (ReadmeParser path);
          st = collect_submodules w registry_fetcher parser;
          w = fst st;
          submodules_data = snd st;
          parser = (if submodules_data \<noteq> [] then set_submodules parser submodules_data else parser);
          parser = fst (parse w parser);
          json_data = snd (to_json w parser)
      in (w, Completed json_data))"

definition main :: "world \<Rightarrow> string list \<Rightarrow> world \<times> outcome" where
  "main w argv =
     (case argv of
        prog # m # args \<Rightarrow>
          (case TerraformRegistryFetcher m of
             Inl e \<Rightarrow> (w, Aborted)
           | Inr registry_fetcher \<Rightarrow>
               (case fetch_and_save_readme registry_fetcher w of
                  (f, w, None) \<Rightarrow> (w, Aborted)
                | (f, w, Some path) \<Rightarrow> parse_and_save w (Some f) (path_join (script_dir w) path)))
      | _ \<Rightarrow>
          (let working_readme = path_join (path_join (script_dir w) ''working'') ''README.md'';
               root_readme = path_join (script_dir w) ''README.md''
           in if path_exists w working_readme then parse_and_save w None working_readme
              else if path_exists w root_readme then parse_and_save w None root_readme
              else (w, Aborted)))"

text \<open>
  The program as a process: the exit status with the outcome of \<open>main\<close>.  The status is 1
  when the \<open>requests\<close> package is missing, 0 after the help text, and 0 whenever \<open>main\<close>
  returns: \<open>main\<close> catches every exception and never calls \<open>sys.exit\<close>.
\<close>

definition run_parser :: "bool \<Rightarrow> world \<Rightarrow> string list \<Rightarrow> world \<times> outcome option \<times> nat" where
  "run_parser requests_installed w argv =
     (if \<not> requests_installed then (w, None, 1)
      else if length argv > 1 \<and> argv ! 1 \<in> set [''-h'', ''--help'', ''help''] then (w, None, 0)
      else (case main w argv of (w', out) \<Rightarrow> (w', Some out, 0)))"

subsection \<open>Notions used in the properties\<close>

text \<open>
  The number of submodules of a result, as the statistics of \<open>main\<close> count it: the size
  of the "submodules" mapping, 0 when the key is absent.
\<close>

definition submodules_count :: "pydict \<Rightarrow> nat" where
  "submodules_count parsed_data =
     (case parsed_data of
        (module, PDict module_data) # _ \<Rightarrow>
          (case map_of module_data ''submodules'' of
             Some (PDict subs) \<Rightarrow> length subs
           | _ \<Rightarrow> 0)
      | _ \<Rightarrow> 0)"

text \<open>The objects of a mapping all have the empty string as "description".\<close>

definition described :: "pydict \<Rightarrow> bool" where
  "described subs =
     list_all (\<lambda>(k, v). case v of PDict e \<Rightarrow> map_of e ''description'' = Some (PStr [])
                                   | _ \<Rightarrow> False) subs"

text \<open>
  The URL of a README on a branch, and the path of the README for the path given to
  \<open>fetch_readme_content\<close>, as that function builds them.
\<close>

definition readme_of :: "string \<Rightarrow> string" where
  "readme_of path =
     (if path = [] then ''README.md''
      else if endswith path ''README.md'' then path
      else path_join path ''README.md'')"

definition raw_url :: "string \<Rightarrow> string \<Rightarrow> string \<Rightarrow> string" where
  "raw_url repo branch path =
     github_raw_base_url @ ''/'' @ repo @ ''/'' @ branch @ ''/'' @ readme_of path"

text \<open>The text the raw-content host serves with status 200 at a URL, if it does.\<close>

definition page :: "world \<Rightarrow> string \<Rightarrow> string option" where
  "page w url =
     (case http w url of
        Reply status_code body \<Rightarrow> if status_code = 200 then Some body else None
      | RequestException \<Rightarrow> None)"

text \<open>
  The second half of \<open>fetch_submodule_readme\<close>, which saves the text fetched, and the path
  it fetches for the path of a submodule.
\<close>

definition save_submodule ::
  "string \<Rightarrow> fetcher \<times> world \<times> (string \<times> string) option \<Rightarrow> fetcher \<times> world \<times> string option" where
  "save_submodule n res =
     (case res of
        (f, w, None) \<Rightarrow> (f, w, None)
      | (f, w, Some (readme_content, branch)) \<Rightarrow>
          (case write_text w (''working/'' @ replace (name f) ''-'' ''_'' @ ''_'' @
                               replace (replace n ''-'' ''_'') ''/'' ''_'' @ ''_README.md'')
                  readme_content of
             Some w' \<Rightarrow> (f, w', Some (''working/'' @ replace (name f) ''-'' ''_'' @ ''_'' @
                               replace (replace n ''-'' ''_'') ''/'' ''_'' @ ''_README.md''))
           | None \<Rightarrow> (f, w, None)))"

definition submodule_path_of :: "string \<Rightarrow> string" where
  "submodule_path_of p =
     (if startswith (strip_chars p ''/'') ''./'' then drop 2 (strip_chars p ''/'')
      else strip_chars p ''/'')"

text \<open>
  The fetch of the README of a submodule succeeds: it is found on a branch and saved.
\<close>

definition submodule_fetch_ok :: "fetcher \<Rightarrow> world \<Rightarrow> submodule_info \<Rightarrow> bool" where
  "submodule_fetch_ok f w info =
     (snd (snd (fetch_submodule_readme f w (info_path info) (info_name info))) \<noteq> None)"

text \<open>
  The keys of the submodules mapping after the round for one submodule: a name whose
  fetch succeeds is added unless it is a key already.
\<close>

definition add_name :: "fetcher \<Rightarrow> world \<Rightarrow> submodule_info \<Rightarrow> string list \<Rightarrow> string list" where
  "add_name f w info ks =
     (if submodule_fetch_ok f w info \<and> info_name info \<notin> set ks then ks @ [info_name info]
      else ks)"

text \<open>
  \<open>never_starts P u s\<close>: in the text \<open>u @ s\<close>, no suffix that begins inside \<open>u\<close> has the
  property \<open>P\<close>.  \<open>prev_after p u\<close> is the character before the position after \<open>u\<close>, when
  \<open>p\<close> is the character before \<open>u\<close>.
\<close>

fun never_starts :: "(string \<Rightarrow> bool) \<Rightarrow> string \<Rightarrow> string \<Rightarrow> bool" where
  "never_starts P [] s = True"
| "never_starts P (c # u) s = (\<not> P (c # u @ s) \<and> never_starts P u s)"

definition prev_after :: "char option \<Rightarrow> string \<Rightarrow> char option" where
  "prev_after p u = (if u = [] then p else Some (last u))"

subsection \<open>Example inputs of the README extractor\<close>

definition ex_inline_doc :: string where
  "ex_inline_doc =
     ''See the ## Outputs table.'' @ [newline] @ ''two'' @ [newline] @
     ''## Other'' @ [newline] @ ''x''"

definition ex_location_entry :: string where
  "ex_location_entry =
     ''### <a name=\"input_location\"></a> [location](#input'' @ [backslash] @ ''_location)'' @
     [newline, newline] @ ''Description: The region.'' @ [newline, newline] @
     ''Type: `string`'' @ [newline]"

definition ex_inputs_section :: string where
  "ex_inputs_section =
     ''The following input variables are required:'' @ [newline, newline] @
     ex_location_entry @ [newline] @ ''### <a name=\"input_broken'' @ [newline]"

text \<open>
  The same entry followed by an hcl block, and the entry with a second line of description.
\<close>

definition ex_hcl_entry :: string where
  "ex_hcl_entry =
     ex_location_entry @ [newline] @ ''```hcl'' @ [newline] @ ''object({})'' @ [newline] @
     ''```'' @ [newline]"

definition ex_two_line_entry :: string where
  "ex_two_line_entry =
     ''### <a name=\"input_location\"></a> [location](#input'' @ [backslash] @ ''_location)'' @
     [newline, newline] @ ''Description: The region.'' @ [newline] @ ''Of the resource.'' @
     [newline, newline] @ ''Type: `string`'' @ [newline]"

text \<open>A world without network, and a README naming the input \<open>a\<close> as required and as optional.\<close>

definition ex_offline :: world where
  "ex_offline =
     \<lparr>cwd = ''/app'', script_dir = ''/app'', files = [],
      can_write = (\<lambda>p. True), registry = (\<lambda>url. ApiFailure),
      http = (\<lambda>url. RequestException), requested = []\<rparr>"

definition ex_collision_parser :: readme_parser where
  "ex_collision_parser =
     (ReadmeParser ''/app/working/x_README.md'')
       \<lparr>content :=
          ''## Required Inputs'' @ [newline] @
          ''### <a name=\"input_a\"></a> [a]'' @ [newline] @
          ''Description: one'' @ [newline] @
          ''## Optional Inputs'' @ [newline] @
          ''### <a name=\"input_a\"></a> [a]'' @ [newline] @
          ''Description: two'' @ [newline]\<rparr>"

text \<open>A Requirements section whose only line gives terraform a version of one space.\<close>

definition ex_blank_version :: string where
  "ex_blank_version = ''- <a name=\"requirement_terraform\"></a> [terraform](#requirement_terraform) ( )''"

definition ex_requirements :: string where
  "ex_requirements =
     ''- <a name=\"requirement_terraform\"></a> [terraform] (>= 1.9, < 2.0)'' @ [newline] @
     ''- <a name=\"requirement_modtm\"></a> [modtm] (~> 0.3)'' @ [newline] @
     ''- <a name=\"requirement_azurerm\"></a> [azurerm] (~> 4.0)''"

text \<open>
  A registry world: the module \<open>o/r/p\<close> has its source at the GitHub repository \<open>o/r\<close>,
  and the raw-content host answers 200 with the given texts at the given URLs and 404
  elsewhere.
\<close>

definition ex_world :: "(string \<times> string) list \<Rightarrow> world" where
  "ex_world pages =
     \<lparr>cwd = ''/app'', script_dir = ''/app'', files = [],
      can_write = (\<lambda>p. True),
      registry = (\<lambda>url. if url = ''https://registry.terraform.io/v1/modules/o/r/p''
                          then ApiSource ''https://github.com/o/r'' else ApiFailure),
      http = (\<lambda>url. case map_of pages url of Some body \<Rightarrow> Reply 200 body
                                              | None \<Rightarrow> Reply 404 []),
      requested = []\<rparr>"

definition ex_modules_readme :: "string list \<Rightarrow> string" where
  "ex_modules_readme names =
     ''## Modules'' @
     concat (map (\<lambda>n. [newline] @ ''### <a name=\"module_'' @ n @ ''\"></a> ['' @ n @ '']'' @
                        [newline] @ ''Source: ./'' @ n @ [newline]) names)"

text \<open>The submodules \<open>a\<close> and \<open>b\<close>, of which only \<open>a\<close> has a README.\<close>

definition ex_two_submodules :: world where
  "ex_two_submodules =
     ex_world [(''https://raw.githubusercontent.com/o/r/main/README.md'', ex_modules_readme [''a'', ''b'']),
               (''https://raw.githubusercontent.com/o/r/main/a/README.md'', [])]"

text \<open>A world with a local README only.\<close>

definition ex_local :: world where
  "ex_local = ex_offline\<lparr>files := [(''/app/working/README.md'', ''# x'')]\<rparr>"

text \<open>
  The repository has its README on the branch master only, and the README of its
  submodule \<open>a\<close> on both branches.
\<close>

definition ex_master_only :: world where
  "ex_master_only =
     ex_world [(''https://raw.githubusercontent.com/o/r/master/README.md'', ex_modules_readme [''a'']),
               (''https://raw.githubusercontent.com/o/r/main/a/README.md'', ''on main''),
               (''https://raw.githubusercontent.com/o/r/master/a/README.md'', ''on master'')]"

definition ex_fetcher :: fetcher where
  "ex_fetcher =
     \<lparr>registry_module_name = ''o/r/p'', namespace = ''o'', name = ''r'', provider = ''p'',
      github_repo = None, source_url = None, repo_branch = None\<rparr>"

text \<open>
  The Modules section names the submodule \<open>a\<close> twice and the submodule \<open>b\<close> once; only
  \<open>a\<close> has a README.
\<close>

definition ex_duplicate :: world where
  "ex_duplicate =
     ex_world [(''https://raw.githubusercontent.com/o/r/main/README.md'',
                ex_modules_readme [''a'', ''a'', ''b'']),
               (''https://raw.githubusercontent.com/o/r/main/a/README.md'', [])]"

text \<open>
  The README names the submodules \<open>a\<close> and \<open>b\<close> in its Modules section, of which only
  \<open>a\<close> has a README, and \<open>x\<close> in a Submodules section; a README of \<open>x\<close> lies in the
  working folder.
\<close>

definition ex_local_submodule :: world where
  "ex_local_submodule =
     (ex_world [(''https://raw.githubusercontent.com/o/r/main/README.md'',
                 ex_modules_readme [''a'', ''b''] @ ''## Submodules'' @ [newline] @ ''- x''),
                (''https://raw.githubusercontent.com/o/r/main/a/README.md'', [])])
       \<lparr>files := [(''/app/working/modules/x/README.md'', [])]\<rparr>"

section \<open>Properties of the resource matcher\<close>

lemma deployment_row_invalid:
  "\<not> (truthy (row_get row ''ProviderNamespace'') \<and> truthy (row_get row ''ResourceType''))
   \<Longrightarrow> deployment_row row d = d"
  by (auto simp: deployment_row_def Let_def)

lemma deployment_row_valid:
  assumes "row_get row ''ProviderNamespace'' = Some ns" "ns \<noteq> []"
    "row_get row ''ResourceType'' = Some rt" "rt \<noteq> []"
  shows "map_of (deployment_row row d) k =
           (if k = ns then Some ((case map_of d ns of None \<Rightarrow> [] | Some l \<Rightarrow> l) @ [rt])
            else map_of d k)"
  using assms
  by (auto simp: deployment_row_def Let_def truthy_def dict_in_def update_conv'
           split: option.splits)

lemma fold_deployment_row_filter:
  "fold deployment_row rws d = fold deployment_row (filter valid_row rws) d"
  by (induction rws arbitrary: d) (auto simp: valid_row_def deployment_row_invalid)

lemma fold_deployment_row_keeps:
  "map_of d k = Some l \<Longrightarrow> \<exists>l'. map_of (fold deployment_row rws d) k = Some (l @ l')"
proof (induction rws arbitrary: d l)
  case Nil then show ?case by simp
next
  case (Cons row rws)
  show ?case
  proof (cases "valid_row row")
    case False
    then show ?thesis using Cons by (simp add: valid_row_def deployment_row_invalid)
  next
    case True
    then obtain ns rt where v: "row_get row ''ProviderNamespace'' = Some ns" "ns \<noteq> []"
      "row_get row ''ResourceType'' = Some rt" "rt \<noteq> []"
      by (auto simp: valid_row_def truthy_def split: option.splits)
    have "\<exists>l1. map_of (deployment_row row d) k = Some (l @ l1)"
      using Cons.prems by (auto simp: deployment_row_valid[OF v])
    then obtain l1 where "map_of (deployment_row row d) k = Some (l @ l1)" by blast
    from Cons.IH[OF this] show ?thesis by auto
  qed
qed

lemma fold_deployment_row_complete:
  assumes "row \<in> set rws" "row_get row ''ProviderNamespace'' = Some ns" "ns \<noteq> []"
    "row_get row ''ResourceType'' = Some rt" "rt \<noteq> []"
  shows "\<exists>l. map_of (fold deployment_row rws d) ns = Some l \<and> rt \<in> set l"
  using assms(1)
proof (induction rws arbitrary: d)
  case Nil then show ?case by simp
next
  case (Cons r rws)
  show ?case
  proof (cases "r = row")
    case True
    have "map_of (deployment_row row d) ns = Some ((case map_of d ns of None \<Rightarrow> [] | Some l \<Rightarrow> l) @ [rt])"
      by (simp add: deployment_row_valid[OF assms(2-5)])
    from fold_deployment_row_keeps[OF this, of rws] True show ?thesis by auto
  next
    case False
    then show ?thesis using Cons by auto
  qed
qed

lemma fold_deployment_row_sound:
  assumes "map_of (fold deployment_row rws d) ns = Some l" "rt \<in> set l"
  shows "(\<exists>l0. map_of d ns = Some l0 \<and> rt \<in> set l0) \<or>
         (\<exists>row\<in>set rws. row_get row ''ProviderNamespace'' = Some ns \<and> ns \<noteq> [] \<and>
             row_get row ''ResourceType'' = Some rt \<and> rt \<noteq> [])"
  using assms
proof (induction rws arbitrary: d)
  case Nil then show ?case by simp
next
  case (Cons r rws)
  from Cons.IH[of "deployment_row r d"] Cons.prems
  consider (a) l0 where "map_of (deployment_row r d) ns = Some l0" "rt \<in> set l0"
    | (b) "\<exists>row\<in>set rws. row_get row ''ProviderNamespace'' = Some ns \<and> ns \<noteq> [] \<and>
             row_get row ''ResourceType'' = Some rt \<and> rt \<noteq> []"
    by auto
  then show ?case
  proof cases
    case b then show ?thesis by auto
  next
    case a
    show ?thesis
    proof (cases "valid_row r")
      case False
      then show ?thesis using a by (simp add: valid_row_def deployment_row_invalid)
    next
      case True
      then obtain ns' rt' where v: "row_get r ''ProviderNamespace'' = Some ns'" "ns' \<noteq> []"
        "row_get r ''ResourceType'' = Some rt'" "rt' \<noteq> []"
        by (auto simp: valid_row_def truthy_def split: option.splits)
      show ?thesis using a v
        by (auto simp: deployment_row_valid[OF v] split: if_splits option.splits)
    qed
  qed
qed

text \<open>
  Claim C8.  When the loader returns an index: every row whose ProviderNamespace and
  ResourceType are both non-empty has its namespace as a key of the index, with its
  resource type in the list stored there; every resource type found in the index comes
  from such a row; and the index is the one built from those rows alone, so a row with an
  empty or missing field contributes nothing.
\<close>

theorem load_deployment_csv_index:
  assumes "load_deployment_csv (Some f) = Inr idx"
  shows "(\<forall>row\<in>set (rows f). \<forall>ns rt.
            row_get row ''ProviderNamespace'' = Some ns \<and> ns \<noteq> [] \<and>
            row_get row ''ResourceType'' = Some rt \<and> rt \<noteq> []
            \<longrightarrow> (\<exists>l. map_of idx ns = Some l \<and> rt \<in> set l))
       \<and> (\<forall>ns l rt. map_of idx ns = Some l \<and> rt \<in> set l
            \<longrightarrow> (\<exists>row\<in>set (rows f).
                   row_get row ''ProviderNamespace'' = Some ns \<and> ns \<noteq> [] \<and>
                   row_get row ''ResourceType'' = Some rt \<and> rt \<noteq> []))
       \<and> idx = fold deployment_row
                 (filter (\<lambda>row. truthy (row_get row ''ProviderNamespace'') \<and>
                                 truthy (row_get row ''ResourceType'')) (rows f)) []"
proof -
  from assms have idx: "idx = fold deployment_row (rows f) []"
    by (auto simp: load_deployment_csv_def split: option.splits if_splits)
  have 1: "\<forall>row\<in>set (rows f). \<forall>ns rt.
            row_get row ''ProviderNamespace'' = Some ns \<and> ns \<noteq> [] \<and>
            row_get row ''ResourceType'' = Some rt \<and> rt \<noteq> []
            \<longrightarrow> (\<exists>l. map_of idx ns = Some l \<and> rt \<in> set l)"
    unfolding idx using fold_deployment_row_complete by blast
  have 2: "\<forall>ns l rt. map_of idx ns = Some l \<and> rt \<in> set l
            \<longrightarrow> (\<exists>row\<in>set (rows f).
                   row_get row ''ProviderNamespace'' = Some ns \<and> ns \<noteq> [] \<and>
                   row_get row ''ResourceType'' = Some rt \<and> rt \<noteq> [])"
    unfolding idx using fold_deployment_row_sound[of "rows f" "[]"] by fastforce
  have 3: "idx = fold deployment_row
                 (filter (\<lambda>row. truthy (row_get row ''ProviderNamespace'') \<and>
                                 truthy (row_get row ''ResourceType'')) (rows f)) []"
    unfolding idx using fold_deployment_row_filter[of "rows f" "[]"]
    by (simp add: valid_row_def[abs_def])
  from 1 2 3 show ?thesis by blast
qed

theorem load_deployment_csv_index_witness:
  "load_deployment_csv (Some ex_deployment) = Inr [(''Microsoft.Storage'', [''storageAccounts''])]
   \<and> map_of [(''Microsoft.Storage'', [''storageAccounts''])] ''Microsoft.Web'' = None
   \<and> [(''Microsoft.Storage'', [''storageAccounts''])] =
       fold deployment_row
         (filter (\<lambda>row. truthy (row_get row ''ProviderNamespace'') \<and>
                         truthy (row_get row ''ResourceType'')) (rows ex_deployment)) []"
proof -
  have run: "load_deployment_csv (Some ex_deployment) = Inr [(''Microsoft.Storage'', [''storageAccounts''])]"
    by (simp add: load_deployment_csv_def ex_deployment_def deployment_row_def row_get_def
          truthy_def dict_in_def)
  have web: "map_of [(''Microsoft.Storage'', [''storageAccounts''])] ''Microsoft.Web'' = None"
    by simp
  from load_deployment_csv_index [OF run]
  have "[(''Microsoft.Storage'', [''storageAccounts''])] =
        fold deployment_row
          (filter (\<lambda>row. truthy (row_get row ''ProviderNamespace'') \<and>
                          truthy (row_get row ''ResourceType'')) (rows ex_deployment)) []"
    by blast
  with run web show ?thesis by blast
qed

lemma mapped_match_never:
  "list_ex (\<lambda>deployment_types. map_of RESOURCE_TYPE_MAPPINGS (ns, deployment_types) = Some rt) types = False"
  by (simp add: RESOURCE_TYPE_MAPPINGS_def list_ex_iff)

lemma matched_modules_match_row:
  "matched_modules (match_row idx row st) =
     matched_modules st @
       (if (\<exists>ns rt. row_get row ''ProviderNamespace'' = Some ns \<and> ns \<noteq> [] \<and>
                    row_get row ''ResourceType'' = Some rt \<and> rt \<noteq> [] \<and>
                    (\<exists>l. map_of idx ns = Some l \<and> rt \<in> set l) \<and>
                    row_get row ''ModuleStatus'' = Some ''Available'')
        then [matched_row row] else [])"
  by (auto simp: match_row_def Let_def truthy_def mapped_match_never
           split: option.splits)

lemma matched_modules_fold:
  "matched_modules (fold (match_row idx) rws st) =
     matched_modules st @
       map matched_row
         (filter (\<lambda>row. \<exists>ns rt. row_get row ''ProviderNamespace'' = Some ns \<and> ns \<noteq> [] \<and>
                    row_get row ''ResourceType'' = Some rt \<and> rt \<noteq> [] \<and>
                    (\<exists>l. map_of idx ns = Some l \<and> rt \<in> set l) \<and>
                    row_get row ''ModuleStatus'' = Some ''Available'') rws)"
proof (induction rws arbitrary: st)
  case Nil then show ?case by simp
next
  case (Cons r rws)
  show ?case
    unfolding fold_Cons comp_def Cons.IH matched_modules_match_row by simp
qed

lemma matched_row_status:
  "map_of (matched_row row) ''ModuleStatus'' = Some (row_get_default row ''ModuleStatus'' [])"
  by (simp add: matched_row_def OUTPUT_COLUMNS_def)

lemma row_get_default_Some:
  "row_get row k = Some v \<Longrightarrow> row_get_default row k d = Some v"
  by (auto simp: row_get_def row_get_default_def split: option.splits)

text \<open>
  Claim C1.  When the matcher returns, the Matched Modules list is, in the order of the
  reference CSV, the six-column copy of exactly those rows whose ProviderNamespace and
  ResourceType are non-empty, whose (namespace, resource type) pair is in the deployment
  index, and whose ModuleStatus is the string "Available"; so every Matched Module has
  status "Available".
\<close>

theorem match_and_filter_modules_available:
  assumes "match_and_filter_modules f idx = Inr (matched, columns)"
  shows "matched = map matched_row
           (filter (\<lambda>row. \<exists>ns rt. row_get row ''ProviderNamespace'' = Some ns \<and> ns \<noteq> [] \<and>
                      row_get row ''ResourceType'' = Some rt \<and> rt \<noteq> [] \<and>
                      (\<exists>l. map_of idx ns = Some l \<and> rt \<in> set l) \<and>
                      row_get row ''ModuleStatus'' = Some ''Available'') (rows f))
       \<and> (\<forall>m\<in>set matched. map_of m ''ModuleStatus'' = Some (Some ''Available''))"
proof -
  from assms have m: "matched = matched_modules (fold (match_row idx) (rows f)
                             \<lparr>matched_modules = [], skipped_modules = []\<rparr>)"
    by (auto simp: match_and_filter_modules_def Let_def split: option.splits if_splits)
  have 1: "matched = map matched_row
           (filter (\<lambda>row. \<exists>ns rt. row_get row ''ProviderNamespace'' = Some ns \<and> ns \<noteq> [] \<and>
                      row_get row ''ResourceType'' = Some rt \<and> rt \<noteq> [] \<and>
                      (\<exists>l. map_of idx ns = Some l \<and> rt \<in> set l) \<and>
                      row_get row ''ModuleStatus'' = Some ''Available'') (rows f))"
    unfolding m matched_modules_fold by simp
  have 2: "\<forall>m\<in>set matched. map_of m ''ModuleStatus'' = Some (Some ''Available'')"
    unfolding 1 by (auto simp: matched_row_status row_get_default_Some)
  from 1 2 show ?thesis by blast
qed

theorem match_and_filter_modules_available_witness:
  "match_and_filter_modules ex_reference ex_index = Inr ([ex_row ''Available''], OUTPUT_COLUMNS)
   \<and> map_of (ex_row ''Available'') ''ModuleStatus'' = Some (Some ''Available'')"
proof -
  have run: "match_and_filter_modules ex_reference ex_index =
               Inr ([ex_row ''Available''], OUTPUT_COLUMNS)"
    by (simp add: match_and_filter_modules_def ex_reference_def ex_index_def ex_row_def
          OUTPUT_COLUMNS_def match_row_def row_get_def truthy_def RESOURCE_TYPE_MAPPINGS_def
          matched_row_def row_get_default_def)
  from match_and_filter_modules_available [OF run]
  have "\<forall>m\<in>set [ex_row ''Available'']. map_of m ''ModuleStatus'' = Some (Some ''Available'')"
    by blast
  then have "map_of (ex_row ''Available'') ''ModuleStatus'' = Some (Some ''Available'')"
    by simp
  with run show ?thesis by blast
qed

section \<open>Properties of section and entry parsing\<close>

text \<open>
  Claim C10.  A heading marker need not start a line: in the example document the text
  "## Outputs" stands in the middle of the first line and no line starts with it, yet
  \<open>extract_section\<close> takes it as the start of the section and returns the text after
  it up to the next line that begins with "## ".
\<close>

theorem extract_section_inside_line:
  "ex_inline_doc = ''See the ## Outputs table.'' @ [newline] @ ''two'' @ [newline] @
                   ''## Other'' @ [newline] @ ''x''
   \<and> \<not> list_ex (\<lambda>line. startswith line ''## Outputs'') (split ex_inline_doc [newline])
   \<and> extract_section ex_inline_doc ''Outputs'' = ''table.'' @ [newline] @ ''two''"
proof -
  have 1: "\<not> list_ex (\<lambda>line. startswith line ''## Outputs'') (split ex_inline_doc [newline])"
    by code_simp
  have 2: "extract_section ex_inline_doc ''Outputs'' = ''table.'' @ [newline] @ ''two''"
    by code_simp
  from 1 2 show ?thesis by (simp add: ex_inline_doc_def)
qed

theorem extract_section_inside_line_witness:
  "extract_section ex_inline_doc ''Outputs'' \<noteq> []"
  using extract_section_inside_line by simp

lemma inputs_entry_no_name:
  "re_search input_name_pattern (''### <a name=\"input_'' @ fragment) [] = None
   \<Longrightarrow> inputs_entry is_required fragment result = result"
  by (simp add: inputs_entry_def parse_input_entry_def)

lemma fold_inputs_entry_filter:
  "fold (inputs_entry b) frags result =
   fold (inputs_entry b)
     (filter (\<lambda>fragment. re_search input_name_pattern (''### <a name=\"input_'' @ fragment) []
                           \<noteq> None) frags) result"
  by (induction frags arbitrary: result) (auto simp: inputs_entry_no_name)

subsection \<open>The first match of a pattern with a lazy group\<close>

text \<open>
  A pattern that is a literal, a lazy group and a continuation matches first where the
  literal first stands, and its group is the shortest run after which the continuation
  matches.
\<close>

lemma startswith_append: "startswith (p @ s) p"
  by (induction p) simp_all

lemma never_starts_append:
  "never_starts P (u @ v) s = (never_starts P u (v @ s) \<and> never_starts P v s)"
  by (induction u) auto

lemma startswith_cut: "startswith (a @ c # s) l \<Longrightarrow> c \<notin> set l \<Longrightarrow> startswith a l"
proof (induction a arbitrary: l)
  case Nil then show ?case by (cases l) auto
next
  case (Cons x a) then show ?case by (cases l) auto
qed

lemma never_starts_gap:
  assumes "\<not> contains u l" "c \<notin> set l"
  shows "never_starts (\<lambda>z. startswith z l) u (c # s)"
  using assms(1)
proof (induction u)
  case Nil then show ?case by simp
next
  case (Cons x u)
  have "\<not> startswith (x # u @ c # s) l"
  proof
    assume "startswith (x # u @ c # s) l"
    then have "startswith ((x # u) @ c # s) l" by simp
    then have "startswith (x # u) l" using assms(2) by (rule startswith_cut)
    then show False using Cons.prems by simp
  qed
  moreover have "\<not> contains u l" using Cons.prems by simp
  ultimately show ?case using Cons.IH by simp
qed

lemma never_starts_space:
  assumes "list_all isspace ws" "s \<noteq> []"
    and "\<And>c z. isspace c \<Longrightarrow> z \<noteq> [] \<Longrightarrow> \<not> P (c # z)"
  shows "never_starts P ws s"
  using assms(1) by (induction ws) (auto simp: assms(2,3))

lemma search_from_skip:
  assumes "never_starts (\<lambda>z. startswith z l) u s"
  shows "search_from fl (Seq (Lit l) r) p (u @ s) =
           map_option (\<lambda>m. m\<lparr>skipped := u @ skipped m\<rparr>)
             (search_from fl (Seq (Lit l) r) (prev_after p u) s)"
  using assms
proof (induction u arbitrary: p)
  case Nil
  show ?case by (simp add: prev_after_def option.map_ident)
next
  case (Cons c u)
  have n: "rx_match fl (Seq (Lit l) r) ((p, c # u @ s), []) = []"
    using Cons.prems by simp
  have step: "search_from fl (Seq (Lit l) r) p ((c # u) @ s) =
                (case search_from fl (Seq (Lit l) r) (Some c) (u @ s) of
                   None \<Rightarrow> None
                 | Some m \<Rightarrow> Some (m\<lparr>skipped := c # skipped m\<rparr>))"
    unfolding append_Cons search_from.simps(2) n by simp
  have pa: "prev_after (Some c) u = prev_after p (c # u)" by (simp add: prev_after_def)
  from Cons.prems have "never_starts (\<lambda>z. startswith z l) u s" by simp
  from Cons.IH[OF this, of "Some c"] show ?case
    unfolding step pa
    by (cases "search_from fl (Seq (Lit l) r) (prev_after p (c # u)) s") simp_all
qed

lemma lazy_run_hd: "\<exists>t. lazy_run ok p s = (p, s) # t"
  by (cases s) auto

lemma lazy_group_candidates:
  assumes "list_all ok x"
    and "never_starts (\<lambda>z. \<exists>q g'. rx_match fl K ((q, z), g') \<noteq> []) x s"
  shows "\<exists>rest. concat (map (\<lambda>pos. rx_match fl K
                   (pos, AList.update n (take (length (pre @ x @ s) - length (snd pos)) (pre @ x @ s)) g))
                 (lazy_run ok p (x @ s))) =
           rx_match fl K ((prev_after p x, s), AList.update n (pre @ x) g) @ rest"
  using assms
proof (induction x arbitrary: pre p)
  case Nil
  from lazy_run_hd obtain t where t: "lazy_run ok p s = (p, s) # t" by blast
  show ?case by (simp add: t prev_after_def)
next
  case (Cons c x)
  have okc: "ok c" and okx: "list_all ok x" using Cons.prems(1) by simp_all
  have f: "rx_match fl K ((q, c # x @ s), g') = []" for q g'
    using Cons.prems(2) by simp
  have ns: "never_starts (\<lambda>z. \<exists>q g'. rx_match fl K ((q, z), g') \<noteq> []) x s"
    using Cons.prems(2) by simp
  have pa: "prev_after (Some c) x = prev_after p (c # x)" by (simp add: prev_after_def)
  from Cons.IH[OF okx ns, of "pre @ [c]" "Some c"] obtain rest where
    "concat (map (\<lambda>pos. rx_match fl K
                   (pos, AList.update n (take (length ((pre @ [c]) @ x @ s) - length (snd pos))
                                          ((pre @ [c]) @ x @ s)) g))
                 (lazy_run ok (Some c) (x @ s))) =
           rx_match fl K ((prev_after (Some c) x, s), AList.update n ((pre @ [c]) @ x) g) @ rest"
    by blast
  then show ?case by (simp add: okc f pa)
qed

lemma rx_match_lazy_group:
  assumes "list_all (atom_ok fl a) x"
    and "never_starts (\<lambda>z. \<exists>q g'. rx_match fl K ((q, z), g') \<noteq> []) x s"
  shows "\<exists>rest. rx_match fl (Seq (Group n (LazyStar a)) K) ((p, x @ s), g) =
           rx_match fl K ((prev_after p x, s), AList.update n x g) @ rest"
proof -
  from lazy_group_candidates[OF assms, of n "[]" g p] obtain rest where
    "concat (map (\<lambda>pos. rx_match fl K
                   (pos, AList.update n (take (length (x @ s) - length (snd pos)) (x @ s)) g))
                 (lazy_run (atom_ok fl a) p (x @ s))) =
           rx_match fl K ((prev_after p x, s), AList.update n x g) @ rest"
    by auto
  moreover have "rx_match fl (Seq (Group n (LazyStar a)) K) ((p, x @ s), g) =
     concat (map (\<lambda>pos. rx_match fl K
                   (pos, AList.update n (take (length (x @ s) - length (snd pos)) (x @ s)) g))
                 (lazy_run (atom_ok fl a) p (x @ s)))"
    by (simp add: comp_def case_prod_beta)
  ultimately show ?thesis by auto
qed

lemma search_from_hit:
  assumes "rx_match fl r ((p, z), []) = m # t"
  shows "\<exists>mm. search_from fl r p z = Some mm \<and> groups mm = snd m"
  using assms by (cases z; cases m; cases "fst m") auto

lemma re_search_lazy_group:
  assumes "never_starts (\<lambda>z. startswith z l) u (l @ x @ s)"
    and "list_all (atom_ok fl a) x"
    and "never_starts (\<lambda>z. \<exists>q g'. rx_match fl K ((q, z), g') \<noteq> []) x s"
    and "rx_match fl K ((prev_after (prev_after (prev_after None u) l) x, s), [(n, x)]) = m # ms"
  shows "\<exists>mm. re_search (Seq (Lit l) (Seq (Group n (LazyStar a)) K)) (u @ l @ x @ s) fl = Some mm
              \<and> groups mm = snd m"
proof -
  let ?R = "Seq (Lit l) (Seq (Group n (LazyStar a)) K)"
  let ?p = "prev_after None u"
  from rx_match_lazy_group[OF assms(2,3), of n "prev_after ?p l" "[]"] obtain rest where
    g: "rx_match fl (Seq (Group n (LazyStar a)) K) ((prev_after ?p l, x @ s), []) =
          rx_match fl K ((prev_after (prev_after ?p l) x, s), [(n, x)]) @ rest"
    by auto
  have lit: "rx_match fl (Lit l) ((?p, l @ x @ s), []) = [((prev_after ?p l, x @ s), [])]"
    by (simp add: startswith_append prev_after_def)
  have "rx_match fl ?R ((?p, l @ x @ s), []) =
          rx_match fl (Seq (Group n (LazyStar a)) K) ((prev_after ?p l, x @ s), [])"
    unfolding rx_match.simps(9)[of fl "Lit l"] lit by simp
  then have "rx_match fl ?R ((?p, l @ x @ s), []) = (m # ms) @ rest"
    unfolding g assms(4) .
  then have "rx_match fl ?R ((?p, l @ x @ s), []) = m # (ms @ rest)" by simp
  from search_from_hit[OF this] obtain mm where
    mm: "search_from fl ?R ?p (l @ x @ s) = Some mm" "groups mm = snd m" by blast
  show ?thesis
    unfolding re_search_def search_from_skip[OF assms(1)]
    using mm by simp
qed


lemma search_from_absent:
  "\<not> contains s l \<Longrightarrow> search_from fl (Seq (Lit l) r) p s = None"
proof (induction s arbitrary: p)
  case Nil then show ?case by (cases l) auto
next
  case (Cons c s)
  from Cons.prems have a: "\<not> startswith (c # s) l" and b: "\<not> contains s l" by simp_all
  from Cons.IH[OF b] a show ?case by simp
qed

lemma strip_padded:
  assumes "list_all isspace ws" "y \<noteq> []" "\<not> isspace (hd y)" "\<not> isspace (last y)"
  shows "strip (y @ ws) = y"
proof -
  from assms(2,3) have 1: "dropWhile isspace (y @ ws) = y @ ws" by (cases y) auto
  have "\<forall>c\<in>set (rev ws). isspace c" using assms(1) by (simp add: list_all_iff)
  then have 2: "dropWhile isspace (rev ws @ rev y) = dropWhile isspace (rev y)"
    by (rule dropWhile_append2[OF bspec])
  from assms(2,4) have 3: "dropWhile isspace (rev y) = rev y"
    by (cases y rule: rev_cases) auto
  show ?thesis unfolding strip_def 1 by (simp add: 2 3)
qed

subsection \<open>The entry of the input "location"\<close>

lemma location_name:
  "\<exists>mm. re_search input_name_pattern (''### <a name=\"input_location\"></a> [location]'' @ r) [] = Some mm
     \<and> map_of (groups mm) 2 = Some ''location''"
proof -
  have "\<exists>m t. rx_match [] input_name_pattern
           ((None, ''### <a name=\"input_location\"></a> [location]'' @ r), []) = m # t
         \<and> map_of (snd m) 2 = Some ''location''"
    by (simp add: input_name_pattern_def cat_def newline_def)
  then obtain m t where m: "rx_match [] input_name_pattern
           ((None, ''### <a name=\"input_location\"></a> [location]'' @ r), []) = m # t"
     "map_of (snd m) 2 = Some ''location''" by blast
  from search_from_hit[OF m(1)] m(2) show ?thesis by (auto simp: re_search_def)
qed


lemma space_not_letter:
  "isspace c \<Longrightarrow> c \<noteq> CHR ''T'' \<and> c \<noteq> CHR ''D''"
  by (auto simp: isspace_def)

lemma location_description:
  assumes "\<not> contains gap ''Description: ''" "list_all isspace ws"
  shows "\<exists>mm. re_search input_description_pattern
           (''### <a name=\"input_location\"></a> [location]'' @ gap @ [newline] @
            ''Description: The region.'' @ [newline] @ ws @ ''Type: `string`'' @ tail) [DOTALL]
           = Some mm
         \<and> map_of (groups mm) 1 = Some (''The region.'' @ newline # ws)"
proof -
  let ?H = "''### <a name=\"input_location\"></a> [location]''"
  let ?l = "''Description: ''"
  let ?x = "''The region.'' @ newline # ws"
  let ?s = "''Type: `string`'' @ tail"
  let ?K = "Seq (Alt (Lit ''Type:'') Eol) (Lit [])"
  let ?u = "(?H @ gap) @ [newline]"
  have nl: "newline \<notin> set ?l" by (simp add: newline_def)
  have a1: "never_starts (\<lambda>z. startswith z ?l) ?u (?l @ ?x @ ?s)"
  proof -
    have "never_starts (\<lambda>z. startswith z ?l) gap (newline # ?l @ ?x @ ?s)"
      using assms(1) nl by (rule never_starts_gap)
    then show ?thesis
      unfolding never_starts_append by (simp add: newline_def)
  qed
  have a2: "list_all (atom_ok [DOTALL] AnyChar) ?x" by (simp add: list_all_iff)
  have sp: "never_starts (\<lambda>z. \<exists>q g'. rx_match [DOTALL] ?K ((q, z), g') \<noteq> []) ws ?s"
    using assms(2)
  proof (rule never_starts_space)
    show "?s \<noteq> []" by simp
  next
    fix c z assume "isspace c" "z \<noteq> ([]::string)"
    then show "\<not> (\<exists>q g'. rx_match [DOTALL] ?K ((q, c # z), g') \<noteq> [])"
      using space_not_letter[of c] by simp
  qed
  have a3: "never_starts (\<lambda>z. \<exists>q g'. rx_match [DOTALL] ?K ((q, z), g') \<noteq> []) ?x ?s"
  proof -
    have "never_starts (\<lambda>z. \<exists>q g'. rx_match [DOTALL] ?K ((q, z), g') \<noteq> [])
            (''The region.'' @ [newline]) (ws @ ?s)"
      by (simp add: newline_def)
    with sp have "never_starts (\<lambda>z. \<exists>q g'. rx_match [DOTALL] ?K ((q, z), g') \<noteq> [])
            ((''The region.'' @ [newline]) @ ws) ?s"
      unfolding never_starts_append by simp
    then show ?thesis by simp
  qed
  have "\<exists>m ms. rx_match [DOTALL] ?K
          ((prev_after (prev_after (prev_after None ?u) ?l) ?x, ?s), [(1, ?x)]) = m # ms
        \<and> snd m = [(1, ?x)]"
    by simp
  then obtain m ms where a4: "rx_match [DOTALL] ?K
          ((prev_after (prev_after (prev_after None ?u) ?l) ?x, ?s), [(1, ?x)]) = m # ms"
    and m: "snd m = [(1, ?x)]" by blast
  from re_search_lazy_group[OF a1 a2 a3 a4] m
  have "\<exists>mm. re_search (Seq (Lit ?l) (Seq (Group 1 (LazyStar AnyChar)) ?K)) (?u @ ?l @ ?x @ ?s) [DOTALL]
           = Some mm \<and> map_of (groups mm) 1 = Some ?x"
    by auto
  then show ?thesis by (simp add: input_description_pattern_def cat_def)
qed

lemma location_type:
  assumes "\<not> contains gap ''Type: `''" "list_all isspace ws"
  shows "\<exists>mm. re_search type_pattern
           (''### <a name=\"input_location\"></a> [location]'' @ gap @ [newline] @
            ''Description: The region.'' @ [newline] @ ws @ ''Type: `string`'' @ tail) []
           = Some mm
         \<and> map_of (groups mm) 1 = Some ''string''"
proof -
  let ?H = "''### <a name=\"input_location\"></a> [location]''"
  let ?l = "''Type: `''"
  let ?x = "''string''"
  let ?s = "''`'' @ tail"
  let ?K = "Seq (Lit ''`'') (Lit [])"
  let ?u = "((?H @ gap) @ [newline] @ ''Description: The region.'' @ [newline]) @ ws"
  have nl: "newline \<notin> set ?l" by (simp add: newline_def)
  have sp: "never_starts (\<lambda>z. startswith z ?l) ws (?l @ ?x @ ?s)"
    using assms(2)
  proof (rule never_starts_space)
    show "?l @ ?x @ ?s \<noteq> []" by simp
  next
    fix c z assume "isspace c" "z \<noteq> ([]::string)"
    then show "\<not> startswith (c # z) ?l"
      using space_not_letter[of c] by simp
  qed
  have a1: "never_starts (\<lambda>z. startswith z ?l) ?u (?l @ ?x @ ?s)"
  proof -
    have "never_starts (\<lambda>z. startswith z ?l) gap
            (newline # ''Description: The region.'' @ [newline] @ ws @ ?l @ ?x @ ?s)"
      using assms(1) nl by (rule never_starts_gap)
    with sp show ?thesis
      unfolding never_starts_append by (simp add: newline_def)
  qed
  have a2: "list_all (atom_ok [] AnyChar) ?x" by (simp add: newline_def)
  have a3: "never_starts (\<lambda>z. \<exists>q g'. rx_match [] ?K ((q, z), g') \<noteq> []) ?x ?s"
    by simp
  have "\<exists>m ms. rx_match [] ?K
          ((prev_after (prev_after (prev_after None ?u) ?l) ?x, ?s), [(1, ?x)]) = m # ms
        \<and> snd m = [(1, ?x)]"
    by simp
  then obtain m ms where a4: "rx_match [] ?K
          ((prev_after (prev_after (prev_after None ?u) ?l) ?x, ?s), [(1, ?x)]) = m # ms"
    and m: "snd m = [(1, ?x)]" by blast
  from re_search_lazy_group[OF a1 a2 a3 a4] m
  have "\<exists>mm. re_search (Seq (Lit ?l) (Seq (Group 1 (LazyStar AnyChar)) ?K)) (?u @ ?l @ ?x @ ?s) []
           = Some mm \<and> map_of (groups mm) 1 = Some ?x"
    by auto
  then show ?thesis by (simp add: type_pattern_def cat_def)
qed


lemma location_entry_parsed:
  assumes "entry = ''### <a name=\"input_location\"></a> [location]'' @ gap @ [newline] @
                   ''Description: The region.'' @ [newline] @ ws @ ''Type: `string`'' @ tail"
    and "\<not> contains gap ''Description: ''" "\<not> contains gap ''Type: `''"
    and "list_all isspace ws"
    and "extract_hcl_block entry = []"
    and "re_search default_pattern entry [] = None"
  shows "parse_input_entry entry =
           [(''name'', PStr ''location''), (''description'', PStr ''The region.''),
            (''type'', PStr ''string'')]"
proof -
  from location_name[of "gap @ [newline] @ ''Description: The region.'' @ [newline] @ ws @
                         ''Type: `string`'' @ tail"]
  obtain nm where nm: "re_search input_name_pattern entry [] = Some nm"
    "map_of (groups nm) 2 = Some ''location''"
    unfolding assms(1) by auto
  from location_description[OF assms(2,4), of tail]
  obtain dm where dm: "re_search input_description_pattern entry [DOTALL] = Some dm"
    "map_of (groups dm) 1 = Some (''The region.'' @ newline # ws)"
    unfolding assms(1) by auto
  from location_type[OF assms(3,4), of tail]
  obtain tm where tm: "re_search type_pattern entry [] = Some tm"
    "map_of (groups tm) 1 = Some ''string''"
    unfolding assms(1) by auto
  have ws: "list_all isspace (newline # ws)" using assms(4) by (simp add: isspace_def newline_def)
  have "strip (''The region.'' @ newline # ws) = ''The region.''"
    using ws by (rule strip_padded) (simp_all add: isspace_def)
  moreover have "replace ''location'' [backslash] [] = ''location''"
    by (simp add: replace_def backslash_def)
  moreover have "group_of nm 2 = ''location''"
    using nm(2) by (simp add: group_of_def group_def)
  moreover have "group_of dm 1 = ''The region.'' @ newline # ws"
    using dm(2) by (simp add: group_of_def group_def)
  moreover have "group_of tm 1 = ''string''"
    using tm(2) by (simp add: group_of_def group_def)
  ultimately show ?thesis
    by (simp add: parse_input_entry_def nm(1) dm(1) tm(1) assms(5,6))
qed


text \<open>
  Claim C2, as amended.  Take an input entry that begins with the heading
  \<open>### <a name="input_location"></a> [location]\<close> and goes on with any text that contains
  neither "Description: " nor "Type: `", then the line "Description: The region.", then
  white space only, then the text Type: `string`, then any text; and let it have no hcl
  block with content and no match of the Default pattern.  It parses to the record with
  exactly the keys name "location", description "The region." and type "string", so
  without a "default" key, and the section parser stores this record under "location"
  with the flag passed to it as "required".  An entry in which the name pattern is not
  found parses to the empty result, and the mapping of a section is built from the
  fragments with the name pattern alone, so such a fragment is left out of it.
\<close>

theorem parse_input_entry_location:
  "(\<forall>gap ws tail fragment.
      fragment = ''location\"></a> [location]'' @ gap @ [newline] @
                 ''Description: The region.'' @ [newline] @ ws @ ''Type: `string`'' @ tail
      \<and> \<not> contains gap ''Description: '' \<and> \<not> contains gap ''Type: `''
      \<and> list_all isspace ws
      \<and> extract_hcl_block (''### <a name=\"input_'' @ fragment) = []
      \<and> re_search default_pattern (''### <a name=\"input_'' @ fragment) [] = None
      \<longrightarrow> parse_input_entry (''### <a name=\"input_'' @ fragment) =
            [(''name'', PStr ''location''), (''description'', PStr ''The region.''),
             (''type'', PStr ''string'')]
          \<and> map_of (parse_input_entry (''### <a name=\"input_'' @ fragment)) ''default'' = None
          \<and> (\<forall>is_required result.
                inputs_entry is_required fragment result =
                  AList.update ''location''
                    (PDict [(''name'', PStr ''location''), (''description'', PStr ''The region.''),
                            (''type'', PStr ''string''), (''required'', PBool is_required)])
                    result))
   \<and> (\<forall>entry. re_search input_name_pattern entry [] = None \<longrightarrow> parse_input_entry entry = [])
   \<and> (\<forall>section_text is_required.
        parse_inputs_section section_text is_required =
          fold (inputs_entry is_required)
            (filter (\<lambda>fragment.
                       re_search input_name_pattern (''### <a name=\"input_'' @ fragment) []
                       \<noteq> None)
               (tl (re_split (Lit ''### <a name=\"input_'') section_text))) [])"
proof -
  have 1: "parse_input_entry (''### <a name=\"input_'' @ fragment) =
            [(''name'', PStr ''location''), (''description'', PStr ''The region.''),
             (''type'', PStr ''string'')]
          \<and> map_of (parse_input_entry (''### <a name=\"input_'' @ fragment)) ''default'' = None
          \<and> (\<forall>is_required result.
                inputs_entry is_required fragment result =
                  AList.update ''location''
                    (PDict [(''name'', PStr ''location''), (''description'', PStr ''The region.''),
                            (''type'', PStr ''string''), (''required'', PBool is_required)])
                    result)"
    if f: "fragment = ''location\"></a> [location]'' @ gap @ [newline] @
                 ''Description: The region.'' @ [newline] @ ws @ ''Type: `string`'' @ tail"
      and g: "\<not> contains gap ''Description: ''" "\<not> contains gap ''Type: `''"
      and w: "list_all isspace ws"
      and h: "extract_hcl_block (''### <a name=\"input_'' @ fragment) = []"
      and d: "re_search default_pattern (''### <a name=\"input_'' @ fragment) [] = None"
    for gap ws tail fragment
  proof -
    have e: "''### <a name=\"input_'' @ fragment =
               ''### <a name=\"input_location\"></a> [location]'' @ gap @ [newline] @
               ''Description: The region.'' @ [newline] @ ws @ ''Type: `string`'' @ tail"
      unfolding f by simp
    have p: "parse_input_entry (''### <a name=\"input_'' @ fragment) =
            [(''name'', PStr ''location''), (''description'', PStr ''The region.''),
             (''type'', PStr ''string'')]"
      using e g w h d by (rule location_entry_parsed)
    have q: "map_of (parse_input_entry (''### <a name=\"input_'' @ fragment)) ''default'' = None"
      unfolding p by simp
    have r: "inputs_entry is_required fragment result =
                  AList.update ''location''
                    (PDict [(''name'', PStr ''location''), (''description'', PStr ''The region.''),
                            (''type'', PStr ''string''), (''required'', PBool is_required)])
                    result" for is_required result
      unfolding inputs_entry_def Let_def p by (simp add: dict_in_def)
    from p q r show ?thesis by (intro conjI allI)
  qed
  have 4: "re_search input_name_pattern entry [] = None \<longrightarrow> parse_input_entry entry = []"
    for entry
    by (simp add: parse_input_entry_def)
  have 5: "parse_inputs_section section_text is_required =
          fold (inputs_entry is_required)
            (filter (\<lambda>fragment.
                       re_search input_name_pattern (''### <a name=\"input_'' @ fragment) []
                       \<noteq> None)
               (tl (re_split (Lit ''### <a name=\"input_'') section_text))) []"
    for section_text is_required
    unfolding parse_inputs_section_def Let_def
    by (rule fold_inputs_entry_filter)
  show ?thesis
  proof (intro conjI allI impI)
    fix gap ws tail fragment
    assume a: "fragment = ''location\"></a> [location]'' @ gap @ [newline] @
                 ''Description: The region.'' @ [newline] @ ws @ ''Type: `string`'' @ tail
      \<and> \<not> contains gap ''Description: '' \<and> \<not> contains gap ''Type: `''
      \<and> list_all isspace ws
      \<and> extract_hcl_block (''### <a name=\"input_'' @ fragment) = []
      \<and> re_search default_pattern (''### <a name=\"input_'' @ fragment) [] = None"
    from a have t: "parse_input_entry (''### <a name=\"input_'' @ fragment) =
            [(''name'', PStr ''location''), (''description'', PStr ''The region.''),
             (''type'', PStr ''string'')]
          \<and> map_of (parse_input_entry (''### <a name=\"input_'' @ fragment)) ''default'' = None
          \<and> (\<forall>is_required result.
                inputs_entry is_required fragment result =
                  AList.update ''location''
                    (PDict [(''name'', PStr ''location''), (''description'', PStr ''The region.''),
                            (''type'', PStr ''string''), (''required'', PBool is_required)])
                    result)"
      by (elim conjE, intro 1[of fragment gap ws tail]) assumption+
    from t show "parse_input_entry (''### <a name=\"input_'' @ fragment) =
            [(''name'', PStr ''location''), (''description'', PStr ''The region.''),
             (''type'', PStr ''string'')]" by (rule conjunct1)
    from t show "map_of (parse_input_entry (''### <a name=\"input_'' @ fragment)) ''default'' = None"
      by (rule conjunct2[THEN conjunct1])
    fix is_required result
    from t show "inputs_entry is_required fragment result =
                  AList.update ''location''
                    (PDict [(''name'', PStr ''location''), (''description'', PStr ''The region.''),
                            (''type'', PStr ''string''), (''required'', PBool is_required)])
                    result" by simp
  next
    fix entry assume "re_search input_name_pattern entry [] = None"
    with 4 show "parse_input_entry entry = []" by simp
  next
    fix section_text is_required
    show "parse_inputs_section section_text is_required =
          fold (inputs_entry is_required)
            (filter (\<lambda>fragment.
                       re_search input_name_pattern (''### <a name=\"input_'' @ fragment) []
                       \<noteq> None)
               (tl (re_split (Lit ''### <a name=\"input_'') section_text))) []"
      by (rule 5)
  qed
qed


theorem parse_input_entry_location_witness:
  "parse_input_entry ex_location_entry =
     [(''name'', PStr ''location''), (''description'', PStr ''The region.''),
      (''type'', PStr ''string'')]
   \<and> map_of (parse_input_entry ex_location_entry) ''default'' = None
   \<and> parse_inputs_section ex_inputs_section True =
       [(''location'', PDict [(''name'', PStr ''location''), (''description'', PStr ''The region.''),
                              (''type'', PStr ''string''), (''required'', PBool True)])]
   \<and> re_search input_name_pattern ''### <a name=\"input_broken'' [] = None
   \<and> parse_input_entry ''### <a name=\"input_broken'' = []"
proof -
  define gap where "gap = ''(#input'' @ [backslash] @ ''_location)'' @ [newline]"
  define fragment where
    "fragment tail = ''location\"></a> [location]'' @ gap @ [newline] @
                ''Description: The region.'' @ [newline] @ [newline] @ ''Type: `string`'' @ tail"
    for tail
  have g1: "\<not> contains gap ''Description: ''" unfolding gap_def by code_simp
  have g2: "\<not> contains gap ''Type: `''" unfolding gap_def by code_simp
  have w: "list_all isspace [newline]" by code_simp
  note a = parse_input_entry_location[THEN conjunct1, rule_format]
  have b: "parse_input_entry (''### <a name=\"input_'' @ fragment tail) =
            [(''name'', PStr ''location''), (''description'', PStr ''The region.''),
             (''type'', PStr ''string'')]
          \<and> map_of (parse_input_entry (''### <a name=\"input_'' @ fragment tail)) ''default'' = None
          \<and> (\<forall>is_required result.
                inputs_entry is_required (fragment tail) result =
                  AList.update ''location''
                    (PDict [(''name'', PStr ''location''), (''description'', PStr ''The region.''),
                            (''type'', PStr ''string''), (''required'', PBool is_required)])
                    result)"
    if h: "extract_hcl_block (''### <a name=\"input_'' @ fragment tail) = []"
      and d: "re_search default_pattern (''### <a name=\"input_'' @ fragment tail) [] = None"
    for tail
    by (rule a[of "fragment tail" gap "[newline]" tail]) (intro conjI fragment_def g1 g2 w h d)
  have e: "''### <a name=\"input_'' @ fragment [newline] = ex_location_entry"
    by (simp add: fragment_def gap_def ex_location_entry_def)
  have e2: "''### <a name=\"input_'' @ fragment [newline, newline] = ex_location_entry @ [newline]"
    by (simp add: fragment_def gap_def ex_location_entry_def)
  have h: "extract_hcl_block (''### <a name=\"input_'' @ fragment [newline]) = []"
    unfolding e by code_simp
  have d: "re_search default_pattern (''### <a name=\"input_'' @ fragment [newline]) [] = None"
    unfolding e by code_simp
  have h2: "extract_hcl_block (''### <a name=\"input_'' @ fragment [newline, newline]) = []"
    unfolding e2 by code_simp
  have d2: "re_search default_pattern (''### <a name=\"input_'' @ fragment [newline, newline]) []
            = None"
    unfolding e2 by code_simp
  from b[OF h d] have 1: "parse_input_entry ex_location_entry =
     [(''name'', PStr ''location''), (''description'', PStr ''The region.''),
      (''type'', PStr ''string'')]" unfolding e by (rule conjunct1)
  from b[OF h d] have 2: "map_of (parse_input_entry ex_location_entry) ''default'' = None"
    unfolding e by (rule conjunct2[THEN conjunct1])
  from b[OF h2 d2] have r: "inputs_entry True (fragment [newline, newline]) [] =
                  [(''location'',
                    PDict [(''name'', PStr ''location''), (''description'', PStr ''The region.''),
                           (''type'', PStr ''string''), (''required'', PBool True)])]"
    by simp
  have s: "tl (re_split (Lit ''### <a name=\"input_'') ex_inputs_section) =
             [''location\"></a> [location](#input'' @ [backslash] @ ''_location)'' @
              [newline, newline] @ ''Description: The region.'' @ [newline, newline] @
              ''Type: `string`'' @ [newline, newline],
              ''broken'' @ [newline]]"
    by code_simp
  have s': "tl (re_split (Lit ''### <a name=\"input_'') ex_inputs_section) =
             [fragment [newline, newline], ''broken'' @ [newline]]"
    unfolding s by (simp add: fragment_def gap_def)
  have f1: "re_search input_name_pattern (''### <a name=\"input_'' @ fragment [newline, newline]) []
            \<noteq> None"
    unfolding e2 by code_simp
  have f2: "re_search input_name_pattern (''### <a name=\"input_'' @ ''broken'' @ [newline]) []
            = None"
    by code_simp
  have 3: "parse_inputs_section ex_inputs_section True =
       [(''location'', PDict [(''name'', PStr ''location''), (''description'', PStr ''The region.''),
                              (''type'', PStr ''string''), (''required'', PBool True)])]"
    unfolding parse_input_entry_location[THEN conjunct2, THEN conjunct2, rule_format] s'
    using f1 f2 r by simp
  have 4: "re_search input_name_pattern ''### <a name=\"input_broken'' [] = None"
    by code_simp
  from parse_input_entry_location[THEN conjunct2, THEN conjunct1, rule_format, OF 4]
  have 5: "parse_input_entry ''### <a name=\"input_broken'' = []" .
  show ?thesis by (intro conjI 1 2 3 4 5)
qed

text \<open>
  The entry need not parse so when it only contains the three parts and no Default
  block: with an hcl block after the Type line the type is the content of the block.
\<close>

theorem parse_input_entry_hcl_counterexample:
  "contains ex_hcl_entry ''<a name=\"input_location\"></a> [location]''
   \<and> ''Description: The region.'' \<in> set (split ex_hcl_entry [newline])
   \<and> ''Type: `string`'' \<in> set (split ex_hcl_entry [newline])
   \<and> \<not> contains ex_hcl_entry ''Default''
   \<and> parse_input_entry ex_hcl_entry =
       [(''name'', PStr ''location''), (''description'', PStr ''The region.''),
        (''type'', PStr ''object({})'')]"
proof -
  have 1: "contains ex_hcl_entry ''<a name=\"input_location\"></a> [location]''" by code_simp
  have 2: "''Description: The region.'' \<in> set (split ex_hcl_entry [newline])" by code_simp
  have 3: "''Type: `string`'' \<in> set (split ex_hcl_entry [newline])" by code_simp
  have 4: "\<not> contains ex_hcl_entry ''Default''" by code_simp
  have 5: "parse_input_entry ex_hcl_entry =
       [(''name'', PStr ''location''), (''description'', PStr ''The region.''),
        (''type'', PStr ''object({})'')]" by code_simp
  show ?thesis by (intro conjI 1 2 3 4 5)
qed

text \<open>With a second line of description, the description has both lines.\<close>

theorem parse_input_entry_description_counterexample:
  "contains ex_two_line_entry ''<a name=\"input_location\"></a> [location]''
   \<and> ''Description: The region.'' \<in> set (split ex_two_line_entry [newline])
   \<and> ''Type: `string`'' \<in> set (split ex_two_line_entry [newline])
   \<and> \<not> contains ex_two_line_entry ''Default''
   \<and> parse_input_entry ex_two_line_entry =
       [(''name'', PStr ''location''),
        (''description'', PStr (''The region.'' @ [newline] @ ''Of the resource.'')),
        (''type'', PStr ''string'')]"
proof -
  have 1: "contains ex_two_line_entry ''<a name=\"input_location\"></a> [location]''" by code_simp
  have 2: "''Description: The region.'' \<in> set (split ex_two_line_entry [newline])" by code_simp
  have 3: "''Type: `string`'' \<in> set (split ex_two_line_entry [newline])" by code_simp
  have 4: "\<not> contains ex_two_line_entry ''Default''" by code_simp
  have 5: "parse_input_entry ex_two_line_entry =
       [(''name'', PStr ''location''),
        (''description'', PStr (''The region.'' @ [newline] @ ''Of the resource.'')),
        (''type'', PStr ''string'')]" by code_simp
  show ?thesis by (intro conjI 1 2 3 4 5)
qed

section \<open>The shape of the result of parse\<close>

lemma read_file_fields [simp]:
  "readme_path (read_file w p) = readme_path p"
  "parser_module_name (read_file w p) = parser_module_name p"
  "submodules (read_file w p) = submodules p"
  by (simp_all add: read_file_def split: option.splits)

lemma process_submodules_fields [simp]:
  "content (process_submodules w p s) = content p"
  "readme_path (process_submodules w p s) = readme_path p"
  "parser_module_name (process_submodules w p s) = parser_module_name p"
  "required_inputs (process_submodules w p s) = required_inputs p"
  "optional_inputs (process_submodules w p s) = optional_inputs p"
  "outputs (process_submodules w p s) = outputs p"
  "submodules (process_submodules w p s) =
     fold (process_submodule w (dirname (readme_path p)))
       (re_finditer submodule_pattern s [MULTILINE]) (submodules p)"
  by (simp_all add: process_submodules_def Let_def)

lemma parse_eq:
  "parse w parser =
     (let p = parse_sections w parser;
          sec = extract_section (content p) ''Submodules'';
          mr = parse_requirements_section (extract_section (content p) ''Requirements'');
          p' = (if sec \<noteq> [] then process_submodules w p sec else p);
          e1 = [(''name'', PStr (parser_module_name p')), (''description'', PStr []),
                (''inputs'', PDict (dict_merge (required_inputs p') (optional_inputs p'))),
                (''outputs'', PDict (outputs p'))];
          e2 = (if mr \<noteq> [] then AList.update ''module_requirements'' (PDict mr) e1 else e1);
          e3 = (if submodules p' \<noteq> [] then AList.update ''submodules'' (PDict (submodules p')) e2 else e2)
      in (p', [(parser_module_name p', PDict e3)]))"
  unfolding parse_def parse_sections_def Let_def
  by (simp split del: if_split cong: if_cong)


lemma parse_sections_fields [simp]:
  "content (parse_sections w p) = content (if content p = [] then read_file w p else p)"
  "readme_path (parse_sections w p) = readme_path p"
  "parser_module_name (parse_sections w p) = parser_module_name p"
  "submodules (parse_sections w p) = submodules p"
  "required_inputs (parse_sections w p) =
     parse_inputs_section
       (extract_section (content (if content p = [] then read_file w p else p)) ''Required Inputs'') True"
  "optional_inputs (parse_sections w p) =
     parse_inputs_section
       (extract_section (content (if content p = [] then read_file w p else p)) ''Optional Inputs'') False"
  "outputs (parse_sections w p) =
     parse_outputs_section
       (extract_section (content (if content p = [] then read_file w p else p)) ''Outputs'')"
  by (simp_all add: parse_sections_def Let_def)

lemma parse_unfold:
  assumes "parse w parser = (parser', result)"
  shows "content parser' = content (if content parser = [] then read_file w parser else parser)
   \<and> readme_path parser' = readme_path parser
   \<and> parser_module_name parser' = parser_module_name parser
   \<and> required_inputs parser' =
       parse_inputs_section (extract_section (content parser') ''Required Inputs'') True
   \<and> optional_inputs parser' =
       parse_inputs_section (extract_section (content parser') ''Optional Inputs'') False
   \<and> outputs parser' = parse_outputs_section (extract_section (content parser') ''Outputs'')
   \<and> submodules parser' =
       (if extract_section (content parser') ''Submodules'' \<noteq> []
        then fold (process_submodule w (dirname (readme_path parser)))
               (re_finditer submodule_pattern (extract_section (content parser') ''Submodules'')
                  [MULTILINE])
               (submodules parser)
        else submodules parser)
   \<and> (\<exists>entity.
         result = [(parser_module_name parser', PDict entity)]
       \<and> map_of entity ''name'' = Some (PStr (parser_module_name parser'))
       \<and> map_of entity ''description'' = Some (PStr [])
       \<and> map_of entity ''inputs'' =
           Some (PDict (dict_merge (required_inputs parser') (optional_inputs parser')))
       \<and> map_of entity ''outputs'' = Some (PDict (outputs parser'))
       \<and> map_of entity ''module_requirements'' =
           (if parse_requirements_section (extract_section (content parser') ''Requirements'') \<noteq> []
            then Some (PDict (parse_requirements_section
                                (extract_section (content parser') ''Requirements'')))
            else None)
       \<and> map_of entity ''submodules'' =
           (if submodules parser' \<noteq> [] then Some (PDict (submodules parser')) else None))"
proof -
  define p where "p = parse_sections w parser"
  define sec where "sec = extract_section (content p) ''Submodules''"
  define mr where "mr = parse_requirements_section (extract_section (content p) ''Requirements'')"
  define p' where "p' = (if sec \<noteq> [] then process_submodules w p sec else p)"
  define e1 where "e1 = [(''name'', PStr (parser_module_name p')), (''description'', PStr []),
                (''inputs'', PDict (dict_merge (required_inputs p') (optional_inputs p'))),
                (''outputs'', PDict (outputs p'))]"
  define e2 where "e2 = (if mr \<noteq> [] then AList.update ''module_requirements'' (PDict mr) e1 else e1)"
  define e3 where "e3 = (if submodules p' \<noteq> [] then AList.update ''submodules'' (PDict (submodules p')) e2 else e2)"
  have "parse w parser = (p', [(parser_module_name p', PDict e3)])"
    unfolding parse_eq Let_def p_def sec_def mr_def p'_def e1_def e2_def e3_def ..
  with assms have pr: "parser' = p'" "result = [(parser_module_name p', PDict e3)]" by auto
  have c: "content p' = content p" "readme_path p' = readme_path parser"
    "parser_module_name p' = parser_module_name parser"
    "required_inputs p' = required_inputs p" "optional_inputs p' = optional_inputs p"
    "outputs p' = outputs p"
    by (simp_all add: p'_def p_def)
  have s: "submodules p' =
       (if sec \<noteq> []
        then fold (process_submodule w (dirname (readme_path parser)))
               (re_finditer submodule_pattern sec [MULTILINE]) (submodules parser)
        else submodules parser)"
    by (simp add: p'_def p_def)
  have m: "map_of e3 ''name'' = Some (PStr (parser_module_name p'))"
    "map_of e3 ''description'' = Some (PStr [])"
    "map_of e3 ''inputs'' = Some (PDict (dict_merge (required_inputs p') (optional_inputs p')))"
    "map_of e3 ''outputs'' = Some (PDict (outputs p'))"
    "map_of e3 ''module_requirements'' = (if mr \<noteq> [] then Some (PDict mr) else None)"
    "map_of e3 ''submodules'' = (if submodules p' \<noteq> [] then Some (PDict (submodules p')) else None)"
    by (simp_all add: e3_def e2_def e1_def update_conv')
  have cp: "content p = content (if content parser = [] then read_file w parser else parser)"
    by (simp add: p_def)
  show ?thesis
    unfolding pr
    apply (intro conjI exI[of _ e3])
    using c s m cp
    by (simp_all add: p_def sec_def mr_def split del: if_split cong: if_cong)
qed

section \<open>Merging required and optional inputs\<close>

lemma map_of_dict_merge:
  "map_of (dict_merge a b) k =
     (case map_of (rev b) k of Some v \<Rightarrow> Some v | None \<Rightarrow> map_of a k)"
  unfolding dict_merge_def
proof (induction b arbitrary: a)
  case Nil then show ?case by simp
next
  case (Cons x b)
  obtain k' v' where x: "x = (k', v')" by (cases x)
  show ?case
    by (auto simp: x Cons.IH update_conv' map_add_def split: option.splits)
qed

lemma map_of_rev_distinct:
  assumes "distinct (map fst b)"
  shows "map_of (rev b) k = map_of b k"
proof (cases "map_of b k")
  case None
  then have "k \<notin> fst ` set (rev b)" by (simp add: map_of_eq_None_iff)
  then have "map_of (rev b) k = None" by (metis map_of_eq_None_iff)
  then show ?thesis using None by simp
next
  case (Some v)
  then have "(k, v) \<in> set (rev b)" by (simp add: map_of_SomeD)
  moreover have "distinct (map fst (rev b))" using assms by (simp add: rev_map[symmetric])
  ultimately show ?thesis using Some by simp
qed

lemma distinct_fold_inputs_entry:
  "distinct (map fst result) \<Longrightarrow> distinct (map fst (fold (inputs_entry b) frags result))"
proof (induction frags arbitrary: result)
  case Nil then show ?case by simp
next
  case (Cons x frags)
  have "distinct (map fst (inputs_entry b x result))"
    using Cons.prems
    by (auto simp: inputs_entry_def Let_def distinct_update split: option.splits pyval.splits)
  then show ?case using Cons.IH by simp
qed

lemma distinct_parse_inputs_section:
  "distinct (map fst (parse_inputs_section s b))"
  by (simp add: parse_inputs_section_def Let_def distinct_fold_inputs_entry)

lemma required_fold_inputs_entry:
  assumes "\<And>k v. map_of result k = Some v \<Longrightarrow>
              \<exists>e. v = PDict e \<and> map_of e ''required'' = Some (PBool b) \<and> map_of e ''name'' = Some (PStr k)"
    and "map_of (fold (inputs_entry b) frags result) k = Some v"
  shows "\<exists>e. v = PDict e \<and> map_of e ''required'' = Some (PBool b) \<and> map_of e ''name'' = Some (PStr k)"
  using assms
proof (induction frags arbitrary: result)
  case Nil then show ?case by simp
next
  case (Cons x frags)
  have step: "\<exists>e. v' = PDict e \<and> map_of e ''required'' = Some (PBool b) \<and> map_of e ''name'' = Some (PStr k')"
    if "map_of (inputs_entry b x result) k' = Some v'" for k' v'
    using that Cons.prems(1)
    by (auto simp: inputs_entry_def Let_def update_conv' split: option.splits pyval.splits if_splits)
  from Cons.IH[of "inputs_entry b x result"] step Cons.prems(2) show ?case by simp
qed

lemma required_parse_inputs_section:
  "map_of (parse_inputs_section s b) k = Some v \<Longrightarrow>
   \<exists>e. v = PDict e \<and> map_of e ''required'' = Some (PBool b) \<and> map_of e ''name'' = Some (PStr k)"
  unfolding parse_inputs_section_def Let_def
  by (rule required_fold_inputs_entry[where result="[]"]) simp_all

text \<open>
  Claim C3.  In the result of \<open>parse\<close>, the value of "inputs" is the merge of the
  mapping parsed from the Required Inputs section with the one parsed from the Optional
  Inputs section: a name of the optional mapping has the optional entry, whose "required"
  is false, also when the required mapping has the name too; any other name has the
  entry of the required mapping, whose "required" is true; each entry is stored under
  its own name.
\<close>

theorem parse_inputs_merged:
  assumes "parse w parser = (parser', result)"
  shows "\<exists>entity all_inputs.
           result = [(parser_module_name parser', PDict entity)]
         \<and> map_of entity ''inputs'' = Some (PDict all_inputs)
         \<and> required_inputs parser' =
             parse_inputs_section (extract_section (content parser') ''Required Inputs'') True
         \<and> optional_inputs parser' =
             parse_inputs_section (extract_section (content parser') ''Optional Inputs'') False
         \<and> (\<forall>k. map_of all_inputs k =
                  (case map_of (optional_inputs parser') k of
                     Some v \<Rightarrow> Some v
                   | None \<Rightarrow> map_of (required_inputs parser') k))
         \<and> (\<forall>k v. map_of (optional_inputs parser') k = Some v \<longrightarrow>
                (\<exists>e. v = PDict e \<and> map_of e ''required'' = Some (PBool False)
                     \<and> map_of e ''name'' = Some (PStr k)))
         \<and> (\<forall>k v. map_of (required_inputs parser') k = Some v \<longrightarrow>
                (\<exists>e. v = PDict e \<and> map_of e ''required'' = Some (PBool True)
                     \<and> map_of e ''name'' = Some (PStr k)))"
proof -
  from parse_unfold[OF assms] obtain entity where
    r: "result = [(parser_module_name parser', PDict entity)]"
    and i: "map_of entity ''inputs'' =
              Some (PDict (dict_merge (required_inputs parser') (optional_inputs parser')))"
    and req: "required_inputs parser' =
             parse_inputs_section (extract_section (content parser') ''Required Inputs'') True"
    and opt: "optional_inputs parser' =
             parse_inputs_section (extract_section (content parser') ''Optional Inputs'') False"
    by blast
  have d: "distinct (map fst (optional_inputs parser'))"
    unfolding opt by (rule distinct_parse_inputs_section)
  have m: "map_of (dict_merge (required_inputs parser') (optional_inputs parser')) k =
             (case map_of (optional_inputs parser') k of
                Some v \<Rightarrow> Some v
              | None \<Rightarrow> map_of (required_inputs parser') k)" for k
    by (simp add: map_of_dict_merge map_of_rev_distinct[OF d])
  have o: "\<exists>e. v = PDict e \<and> map_of e ''required'' = Some (PBool False)
                     \<and> map_of e ''name'' = Some (PStr k)"
    if "map_of (optional_inputs parser') k = Some v" for k v
    using that unfolding opt by (rule required_parse_inputs_section)
  have q: "\<exists>e. v = PDict e \<and> map_of e ''required'' = Some (PBool True)
                     \<and> map_of e ''name'' = Some (PStr k)"
    if "map_of (required_inputs parser') k = Some v" for k v
    using that unfolding req by (rule required_parse_inputs_section)
  show ?thesis
    apply (rule exI[of _ entity])
    apply (rule exI[of _ "dict_merge (required_inputs parser') (optional_inputs parser')"])
    using r i req opt m o q by blast
qed

lemma ex_collision_parse:
  "snd (parse ex_offline ex_collision_parser) =
     [(''x'', PDict [(''name'', PStr ''x''), (''description'', PStr []),
        (''inputs'', PDict [(''a'', PDict [(''name'', PStr ''a''), (''description'', PStr ''two''),
                                          (''type'', PStr []), (''required'', PBool False)])]),
        (''outputs'', PDict [])])]"
  by code_simp

theorem parse_inputs_merged_witness:
  "snd (parse ex_offline ex_collision_parser) =
     [(''x'', PDict [(''name'', PStr ''x''), (''description'', PStr []),
        (''inputs'', PDict [(''a'', PDict [(''name'', PStr ''a''), (''description'', PStr ''two''),
                                          (''type'', PStr []), (''required'', PBool False)])]),
        (''outputs'', PDict [])])]
   \<and> (\<exists>entity all_inputs.
         snd (parse ex_offline ex_collision_parser) = [(''x'', PDict entity)]
       \<and> map_of entity ''inputs'' = Some (PDict all_inputs)
       \<and> map_of all_inputs ''a'' =
           map_of (parse_inputs_section
                     (extract_section (content ex_collision_parser) ''Optional Inputs'') False) ''a'')"
proof -
  obtain p r where pr: "parse ex_offline ex_collision_parser = (p, r)"
    by (cases "parse ex_offline ex_collision_parser")
  have nm: "parser_module_name p = ''x''" and c: "content p = content ex_collision_parser"
    using parse_unfold[OF pr] by (simp_all add: ex_collision_parser_def ReadmeParser_def basename_def replace_def)
  have od: "map_of (parse_inputs_section
                     (extract_section (content ex_collision_parser) ''Optional Inputs'') False) ''a''
            \<noteq> None"
    by code_simp
  from parse_inputs_merged[OF pr] obtain entity all_inputs where
    "r = [(parser_module_name p, PDict entity)]"
    "map_of entity ''inputs'' = Some (PDict all_inputs)"
    "optional_inputs p =
             parse_inputs_section (extract_section (content p) ''Optional Inputs'') False"
    "\<forall>k. map_of all_inputs k =
                  (case map_of (optional_inputs p) k of
                     Some v \<Rightarrow> Some v
                   | None \<Rightarrow> map_of (required_inputs p) k)"
    by blast
  then have "snd (parse ex_offline ex_collision_parser) = [(''x'', PDict entity)]
       \<and> map_of entity ''inputs'' = Some (PDict all_inputs)
       \<and> map_of all_inputs ''a'' =
           map_of (parse_inputs_section
                     (extract_section (content ex_collision_parser) ''Optional Inputs'') False) ''a''"
    using od by (auto simp: pr nm c split: option.splits)
  with ex_collision_parse show ?thesis by blast
qed

section \<open>Requirements\<close>

lemma update_not_Nil: "AList.update k v al \<noteq> []"
  by (cases al) auto

lemma requirement_line_terraform_version:
  "terraform_version (requirement_line line st) =
     (case requirement_of_line line of
        Some (n, v) \<Rightarrow> if n = ''terraform'' then Some v else terraform_version st
      | None \<Rightarrow> terraform_version st)"
  by (simp add: requirement_line_def Let_def split: option.splits prod.splits)

lemma requirement_line_providers:
  "providers (requirement_line line st) =
     (case requirement_of_line line of
        Some (n, v) \<Rightarrow>
          if n = ''terraform'' then providers st
          else AList.update n
                 (PDict [(''source'', PStr (if n = ''modtm'' then ''azure/modtm'' else ''hashicorp/'' @ n)),
                         (''version'', PStr v)]) (providers st)
      | None \<Rightarrow> providers st)"
  by (simp add: requirement_line_def Let_def split: option.splits prod.splits)

lemma fold_requirement_line_terraform_version:
  "terraform_version (fold requirement_line lines st) =
     (case map_of (rev (List.map_filter requirement_of_line lines)) ''terraform'' of
        Some v \<Rightarrow> Some v
      | None \<Rightarrow> terraform_version st)"
proof (induction lines arbitrary: st)
  case Nil then show ?case by (simp add: List.map_filter_simps)
next
  case (Cons line lines)
  show ?case
    by (auto simp: Cons.IH requirement_line_terraform_version List.map_filter_simps
                   map_add_def split: option.splits)
qed

lemma fold_requirement_line_providers:
  "map_of (providers (fold requirement_line lines st)) n =
     (case (if n = ''terraform'' then None
            else map_of (rev (List.map_filter requirement_of_line lines)) n) of
        Some v \<Rightarrow>
          Some (PDict [(''source'', PStr (if n = ''modtm'' then ''azure/modtm'' else ''hashicorp/'' @ n)),
                       (''version'', PStr v)])
      | None \<Rightarrow> map_of (providers st) n)"
proof (induction lines arbitrary: st)
  case Nil then show ?case by (simp add: List.map_filter_simps)
next
  case (Cons line lines)
  show ?case
    by (auto simp: Cons.IH requirement_line_providers List.map_filter_simps update_conv'
                   map_add_def split: option.splits)
qed

lemma fold_requirement_line_providers_Nil:
  "providers (fold requirement_line lines st) \<noteq> [] \<longleftrightarrow>
     providers st \<noteq> [] \<or>
     (\<exists>n v. (n, v) \<in> set (List.map_filter requirement_of_line lines) \<and> n \<noteq> ''terraform'')"
proof (induction lines arbitrary: st)
  case Nil then show ?case by (simp add: List.map_filter_simps)
next
  case (Cons line lines)
  show ?case
    by (auto simp: Cons.IH requirement_line_providers List.map_filter_simps update_not_Nil
             split: option.splits)
qed


lemma parse_requirements_section_unfold:
  assumes "section \<noteq> []"
  shows "parse_requirements_section section =
     (let st = fold requirement_line (split section [newline])
                 \<lparr>terraform_version = None, providers = []\<rparr>
      in if truthy (terraform_version st) \<or> providers st \<noteq> [] then
           [(''terraform'',
             PDict ((case terraform_version st of
                       Some v \<Rightarrow> if v \<noteq> [] then [(''required_version'', PStr v)] else []
                     | None \<Rightarrow> []) @
                    (if providers st \<noteq> [] then [(''required_providers'', PDict (providers st))]
                     else [])))]
         else [])"
  using assms
  by (auto simp: parse_requirements_section_def Let_def truthy_def split: option.splits)

text \<open>
  Claim C4, as amended.  Let the captured requirements be the (name, version) pairs of
  the lines of the section that hold the requirement anchor and end in a parenthesised
  version, the version stripped of surrounding space.  The result is not empty exactly
  when a requirement with a name other than "terraform" was captured or the last
  captured "terraform" requirement has a non-empty version; then it is the single key
  "terraform" with a non-empty object, whose "required_version" is that version and
  whose "required_providers" maps each other captured name to the source
  "hashicorp/name" ("azure/modtm" for the name "modtm") and the version of the last
  captured line of that name.  The result is never an empty object under "terraform",
  and \<open>parse\<close> puts the key "module_requirements" in its result exactly when the
  result of the section is not empty.
\<close>

theorem parse_requirements_section_captured:
  assumes "captured = (if section = [] then []
                       else List.map_filter requirement_of_line (split section [newline]))"
  shows "(parse_requirements_section section \<noteq> [] \<longleftrightarrow>
            (\<exists>n v. (n, v) \<in> set captured \<and> n \<noteq> ''terraform'') \<or>
            (\<exists>v. map_of (rev captured) ''terraform'' = Some v \<and> v \<noteq> []))
       \<and> (parse_requirements_section section = [] \<or>
            (\<exists>block. parse_requirements_section section = [(''terraform'', PDict block)]
               \<and> block \<noteq> []
               \<and> map_of block ''required_version'' =
                   (case map_of (rev captured) ''terraform'' of
                      Some v \<Rightarrow> if v \<noteq> [] then Some (PStr v) else None
                    | None \<Rightarrow> None)
               \<and> (if \<exists>n v. (n, v) \<in> set captured \<and> n \<noteq> ''terraform''
                   then \<exists>provs. map_of block ''required_providers'' = Some (PDict provs)
                          \<and> (\<forall>n. map_of provs n =
                                 (case (if n = ''terraform'' then None
                                        else map_of (rev captured) n) of
                                    Some v \<Rightarrow>
                                      Some (PDict [(''source'',
                                                    PStr (if n = ''modtm'' then ''azure/modtm''
                                                          else ''hashicorp/'' @ n)),
                                                   (''version'', PStr v)])
                                  | None \<Rightarrow> None))
                   else map_of block ''required_providers'' = None)))
       \<and> (\<forall>w parser parser' result. parse w parser = (parser', result) \<longrightarrow>
            (\<exists>entity. result = [(parser_module_name parser', PDict entity)]
               \<and> map_of entity ''module_requirements'' =
                   (if parse_requirements_section
                         (extract_section (content parser') ''Requirements'') \<noteq> []
                    then Some (PDict (parse_requirements_section
                                        (extract_section (content parser') ''Requirements'')))
                    else None)))"
proof -
  have 3: "\<forall>w parser parser' result. parse w parser = (parser', result) \<longrightarrow>
            (\<exists>entity. result = [(parser_module_name parser', PDict entity)]
               \<and> map_of entity ''module_requirements'' =
                   (if parse_requirements_section
                         (extract_section (content parser') ''Requirements'') \<noteq> []
                    then Some (PDict (parse_requirements_section
                                        (extract_section (content parser') ''Requirements'')))
                    else None))"
    using parse_unfold by blast
  show ?thesis
  proof (cases "section = []")
    case True
    then have "captured = []" using assms by simp
    moreover have "parse_requirements_section section = []"
      using True by (simp add: parse_requirements_section_def)
    ultimately show ?thesis using 3 by simp
  next
    case False
    define st where "st = fold requirement_line (split section [newline])
                            \<lparr>terraform_version = None, providers = []\<rparr>"
    have cap: "captured = List.map_filter requirement_of_line (split section [newline])"
      using False assms by simp
    have tv: "terraform_version st = map_of (rev captured) ''terraform''"
      unfolding st_def cap
      by (simp add: fold_requirement_line_terraform_version split: option.splits)
    have pn: "providers st \<noteq> [] \<longleftrightarrow> (\<exists>n v. (n, v) \<in> set captured \<and> n \<noteq> ''terraform'')"
      unfolding st_def cap by (simp add: fold_requirement_line_providers_Nil)
    have pl: "map_of (providers st) n =
                (case (if n = ''terraform'' then None else map_of (rev captured) n) of
                   Some v \<Rightarrow>
                     Some (PDict [(''source'', PStr (if n = ''modtm'' then ''azure/modtm''
                                                     else ''hashicorp/'' @ n)),
                                  (''version'', PStr v)])
                 | None \<Rightarrow> None)" for n
      unfolding st_def cap
      by (simp add: fold_requirement_line_providers split: option.splits)
    have u: "parse_requirements_section section =
      (if truthy (terraform_version st) \<or> providers st \<noteq> [] then
           [(''terraform'',
             PDict ((case terraform_version st of
                       Some v \<Rightarrow> if v \<noteq> [] then [(''required_version'', PStr v)] else []
                     | None \<Rightarrow> []) @
                    (if providers st \<noteq> [] then [(''required_providers'', PDict (providers st))]
                     else [])))]
         else [])"
      unfolding parse_requirements_section_unfold[OF False] st_def Let_def ..
    have 1: "parse_requirements_section section \<noteq> [] \<longleftrightarrow>
            (\<exists>n v. (n, v) \<in> set captured \<and> n \<noteq> ''terraform'') \<or>
            (\<exists>v. map_of (rev captured) ''terraform'' = Some v \<and> v \<noteq> [])"
      unfolding u using pn tv by (auto simp: truthy_def split: option.splits)
    have 2: "parse_requirements_section section = [] \<or>
            (\<exists>block. parse_requirements_section section = [(''terraform'', PDict block)]
               \<and> block \<noteq> []
               \<and> map_of block ''required_version'' =
                   (case map_of (rev captured) ''terraform'' of
                      Some v \<Rightarrow> if v \<noteq> [] then Some (PStr v) else None
                    | None \<Rightarrow> None)
               \<and> (if \<exists>n v. (n, v) \<in> set captured \<and> n \<noteq> ''terraform''
                   then \<exists>provs. map_of block ''required_providers'' = Some (PDict provs)
                          \<and> (\<forall>n. map_of provs n =
                                 (case (if n = ''terraform'' then None
                                        else map_of (rev captured) n) of
                                    Some v \<Rightarrow>
                                      Some (PDict [(''source'',
                                                    PStr (if n = ''modtm'' then ''azure/modtm''
                                                          else ''hashicorp/'' @ n)),
                                                   (''version'', PStr v)])
                                  | None \<Rightarrow> None))
                   else map_of block ''required_providers'' = None))"
    proof (cases "truthy (terraform_version st) \<or> providers st \<noteq> []")
      case False
      then show ?thesis unfolding u by simp
    next
      case True
      define block where "block = (case terraform_version st of
                       Some v \<Rightarrow> if v \<noteq> [] then [(''required_version'', PStr v)] else []
                     | None \<Rightarrow> []) @
                    (if providers st \<noteq> [] then [(''required_providers'', PDict (providers st))]
                     else [])"
      have b0: "parse_requirements_section section = [(''terraform'', PDict block)]"
        unfolding u block_def using True by simp
      have b1: "block \<noteq> []"
        using True by (auto simp: block_def truthy_def split: option.splits)
      have b2: "map_of block ''required_version'' =
                   (case map_of (rev captured) ''terraform'' of
                      Some v \<Rightarrow> if v \<noteq> [] then Some (PStr v) else None
                    | None \<Rightarrow> None)"
        unfolding block_def tv by (auto split: option.splits)
      have b3: "map_of block ''required_providers'' =
                  (if providers st \<noteq> [] then Some (PDict (providers st)) else None)"
        unfolding block_def by (auto split: option.splits)
      have b4: "if \<exists>n v. (n, v) \<in> set captured \<and> n \<noteq> ''terraform''
                   then \<exists>provs. map_of block ''required_providers'' = Some (PDict provs)
                          \<and> (\<forall>n. map_of provs n =
                                 (case (if n = ''terraform'' then None
                                        else map_of (rev captured) n) of
                                    Some v \<Rightarrow>
                                      Some (PDict [(''source'',
                                                    PStr (if n = ''modtm'' then ''azure/modtm''
                                                          else ''hashicorp/'' @ n)),
                                                   (''version'', PStr v)])
                                  | None \<Rightarrow> None))
                   else map_of block ''required_providers'' = None"
      proof (cases "\<exists>n v. (n, v) \<in> set captured \<and> n \<noteq> ''terraform''")
        case True
        then have "providers st \<noteq> []" using pn by blast
        then have "map_of block ''required_providers'' = Some (PDict (providers st))"
          using b3 by simp
        with pl True show ?thesis by (simp only: if_True) blast
      next
        case False
        then have "providers st = []" using pn by blast
        with b3 False show ?thesis by simp
      qed
      from b0 b1 b2 b4 show ?thesis by blast
    qed
    from 1 2 3 show ?thesis by blast
  qed
qed

lemma ex_requirements_captured:
  "List.map_filter requirement_of_line (split ex_requirements [newline]) =
     [(''terraform'', ''>= 1.9, < 2.0''), (''modtm'', ''~> 0.3''), (''azurerm'', ''~> 4.0'')]"
  by code_simp

theorem parse_requirements_section_captured_witness:
  "List.map_filter requirement_of_line (split ex_requirements [newline]) =
     [(''terraform'', ''>= 1.9, < 2.0''), (''modtm'', ''~> 0.3''), (''azurerm'', ''~> 4.0'')]
   \<and> parse_requirements_section ex_requirements \<noteq> []"
proof -
  have ne: "ex_requirements \<noteq> []" by (simp add: ex_requirements_def)
  have "parse_requirements_section ex_requirements \<noteq> [] \<longleftrightarrow>
          (\<exists>n v. (n, v) \<in> set [(''terraform'', ''>= 1.9, < 2.0''), (''modtm'', ''~> 0.3''),
                                 (''azurerm'', ''~> 4.0'')] \<and> n \<noteq> ''terraform'') \<or>
          (\<exists>v. map_of (rev [(''terraform'', ''>= 1.9, < 2.0''), (''modtm'', ''~> 0.3''),
                              (''azurerm'', ''~> 4.0'')]) ''terraform'' = Some v \<and> v \<noteq> [])"
    using parse_requirements_section_captured
            [of "[(''terraform'', ''>= 1.9, < 2.0''), (''modtm'', ''~> 0.3''), (''azurerm'', ''~> 4.0'')]"
                ex_requirements]
          ne ex_requirements_captured
    by (simp only: if_False)
  then have "parse_requirements_section ex_requirements \<noteq> []" by auto
  with ex_requirements_captured show ?thesis by blast
qed

text \<open>
  The claim as stated fails on a section whose terraform line has a version of one space:
  the line is captured, and the result is empty.
\<close>

theorem parse_requirements_section_counterexample:
  "\<not> (parse_requirements_section ex_blank_version \<noteq> [] \<longleftrightarrow>
        List.map_filter requirement_of_line (split ex_blank_version [newline]) \<noteq> [])"
proof -
  have 1: "List.map_filter requirement_of_line (split ex_blank_version [newline]) =
             [(''terraform'', [])]"
    by code_simp
  have 2: "parse_requirements_section ex_blank_version = []"
    by code_simp
  from 1 2 show ?thesis by simp
qed

section \<open>Descriptions\<close>

lemma set_update_subset: "set (AList.update k v al) \<subseteq> insert (k, v) (set al)"
  by (induction al) auto

lemma described_update:
  "described d \<Longrightarrow> map_of e ''description'' = Some (PStr []) \<Longrightarrow>
   described (AList.update k (PDict e) d)"
  using set_update_subset[of k "PDict e" d]
  by (fastforce simp: described_def list_all_iff)

lemma described_Nil [simp]: "described []"
  by (simp add: described_def)

lemma described_process_submodule:
  "described d \<Longrightarrow> described (process_submodule w base_dir m d)"
  by (auto simp: process_submodule_def Let_def described_update split: option.splits)

lemma described_fold_process_submodule:
  "described d \<Longrightarrow> described (fold (process_submodule w base_dir) ms d)"
  by (induction ms arbitrary: d) (simp_all add: described_process_submodule)

lemma described_process_info:
  assumes "info_description info = []" "described d" "process_info info (f, w, d) = (f', w', d')"
  shows "described d'"
  using assms
  by (auto simp: process_info_def Let_def described_update split: prod.splits option.splits)

lemma described_fold_process_info:
  assumes "\<forall>info\<in>set infos. info_description info = []" "described d"
    "fold process_info infos (f, w, d) = (f', w', d')"
  shows "described d'"
  using assms
proof (induction infos arbitrary: f w d)
  case Nil then show ?case by simp
next
  case (Cons i infos)
  obtain f1 w1 d1 where s: "process_info i (f, w, d) = (f1, w1, d1)"
    by (cases "process_info i (f, w, d)")
  have "described d1" using described_process_info[OF _ Cons.prems(2) s] Cons.prems(1) by simp
  then show ?case using Cons.IH[of d1 f1 w1] Cons.prems s by simp
qed

lemma discover_submodules_description:
  "\<forall>info\<in>set (discover_submodules s). info_description info = []"
  by (simp add: discover_submodules_def submodule_info_of_def Let_def)

lemma described_collect_submodules:
  "described (snd (collect_submodules w rf parser))"
proof (cases rf)
  case None then show ?thesis by (simp add: collect_submodules_def)
next
  case (Some f)
  show ?thesis
  proof (cases "truthy (github_repo f) \<and> extract_section (content parser) ''Modules'' \<noteq> []")
    case False
    then show ?thesis using Some by (auto simp: collect_submodules_def Let_def)
  next
    case True
    obtain f' w' d' where r: "fold process_info
        (discover_submodules (extract_section (content parser) ''Modules'')) (f, w, []) = (f', w', d')"
      by (cases "fold process_info
        (discover_submodules (extract_section (content parser) ''Modules'')) (f, w, [])")
    have "described d'"
      by (rule described_fold_process_info[OF discover_submodules_description _ r]) simp
    then show ?thesis using Some True r by (simp add: collect_submodules_def Let_def)
  qed
qed

lemma described_parse:
  assumes "parse w parser = (parser', result)" "described (submodules parser)"
  shows "described (submodules parser')"
  using parse_unfold[OF assms(1)] assms(2)
  by (auto simp: described_fold_process_submodule)


lemma parse_and_save_eq:
  "parse_and_save w rf path =
     (let p0 = read_file w (ReadmeParser path);
          st = collect_submodules w rf p0;
          p1 = (if snd st \<noteq> [] then set_submodules p0 (snd st) else p0)
      in (fst st, Completed (snd (parse (fst st) (fst (parse (fst st) p1))))))"
  unfolding parse_and_save_def to_json_def Let_def
  by (simp split del: if_split cong: if_cong)

lemma submodules_ReadmeParser [simp]: "submodules (ReadmeParser path) = []"
  by (simp add: ReadmeParser_def)

lemma described_parse_and_save:
  assumes "parse_and_save w rf path = (w', out)"
  shows "\<exists>module entity.
           out = Completed [(module, PDict entity)]
         \<and> map_of entity ''description'' = Some (PStr [])
         \<and> (map_of entity ''submodules'' = None \<or>
            (\<exists>subs. map_of entity ''submodules'' = Some (PDict subs) \<and> described subs))"
proof -
  define w1 where "w1 = fst (collect_submodules w rf (read_file w (ReadmeParser path)))"
  define sd where "sd = snd (collect_submodules w rf (read_file w (ReadmeParser path)))"
  define parser1 where "parser1 = (if sd \<noteq> [] then set_submodules (read_file w (ReadmeParser path)) sd
                        else read_file w (ReadmeParser path))"
  define parser2 where "parser2 = fst (parse w1 parser1)"
  define parser3 where "parser3 = fst (parse w1 parser2)"
  define data where "data = snd (parse w1 parser2)"
  have r: "parse_and_save w rf path = (w1, Completed data)"
    unfolding parse_and_save_eq Let_def w1_def sd_def parser1_def parser2_def data_def ..
  have p1: "parser1 = (if sd \<noteq> [] then set_submodules (read_file w (ReadmeParser path)) sd
                        else read_file w (ReadmeParser path))"
    by (fact parser1_def)
  have p2: "parse w1 parser1 = (parser2, snd (parse w1 parser1))"
    by (simp add: parser2_def)
  have p3: "parse w1 parser2 = (parser3, data)"
    by (simp add: parser3_def data_def)
  have "described sd" unfolding sd_def by (rule described_collect_submodules)
  then have "described (submodules parser1)"
    by (simp add: p1 set_submodules_def)
  then have "described (submodules parser2)" by (rule described_parse[OF p2])
  then have d3: "described (submodules parser3)" by (rule described_parse[OF p3])
  from parse_unfold[OF p3] obtain entity where
    e: "data = [(parser_module_name parser3, PDict entity)]"
    "map_of entity ''description'' = Some (PStr [])"
    "map_of entity ''submodules'' =
       (if submodules parser3 \<noteq> [] then Some (PDict (submodules parser3)) else None)"
    by blast
  have "map_of entity ''submodules'' = None \<or>
            (\<exists>subs. map_of entity ''submodules'' = Some (PDict subs) \<and> described subs)"
    using e(3) d3 by auto
  with e r assms show ?thesis by auto
qed

text \<open>
  Claim C9.  Whenever \<open>main\<close> produces data, in registry mode or on a local file, the
  data is one module object whose "description" is the empty string, and every object
  of its "submodules" mapping, when it has one, has the empty string as "description"
  as well.
\<close>

theorem main_descriptions_empty:
  assumes "main w argv = (w', Completed data)"
  shows "\<exists>module entity.
           data = [(module, PDict entity)]
         \<and> map_of entity ''description'' = Some (PStr [])
         \<and> (map_of entity ''submodules'' = None \<or>
            (\<exists>subs. map_of entity ''submodules'' = Some (PDict subs)
               \<and> (\<forall>(k, v)\<in>set subs.
                     \<exists>e. v = PDict e \<and> map_of e ''description'' = Some (PStr []))))"
proof -
  have "\<exists>w0 rf path. parse_and_save w0 rf path = (w', Completed data)"
  proof (cases argv)
    case Nil
    then have "main w argv =
        (if path_exists w (path_join (path_join (script_dir w) ''working'') ''README.md'')
         then parse_and_save w None (path_join (path_join (script_dir w) ''working'') ''README.md'')
         else if path_exists w (path_join (script_dir w) ''README.md'')
         then parse_and_save w None (path_join (script_dir w) ''README.md'')
         else (w, Aborted))"
      by (simp add: main_def Let_def)
    with assms show ?thesis by (metis outcome.distinct(1) prod.inject)
  next
    case (Cons prog as)
    show ?thesis
    proof (cases as)
      case Nil
      then have "main w argv =
        (if path_exists w (path_join (path_join (script_dir w) ''working'') ''README.md'')
         then parse_and_save w None (path_join (path_join (script_dir w) ''working'') ''README.md'')
         else if path_exists w (path_join (script_dir w) ''README.md'')
         then parse_and_save w None (path_join (script_dir w) ''README.md'')
         else (w, Aborted))"
        using Cons by (simp add: main_def Let_def)
      with assms show ?thesis by (metis outcome.distinct(1) prod.inject)
    next
      case (Cons m args)
      show ?thesis
      proof (cases "TerraformRegistryFetcher m")
        case (Inl e)
        then show ?thesis using assms \<open>argv = prog # as\<close> Cons by (simp add: main_def)
      next
        case (Inr f0)
        obtain f1 w1 r where fs: "fetch_and_save_readme f0 w = (f1, w1, r)"
          by (cases "fetch_and_save_readme f0 w")
        show ?thesis
        proof (cases r)
          case None
          then show ?thesis using assms \<open>argv = prog # as\<close> Cons Inr fs by (simp add: main_def)
        next
          case (Some path)
          then have "parse_and_save w1 (Some f1) (path_join (script_dir w1) path) = (w', Completed data)"
            using assms \<open>argv = prog # as\<close> Cons Inr fs by (simp add: main_def)
          then show ?thesis by blast
        qed
      qed
    qed
  qed
  then obtain w0 rf path where "parse_and_save w0 rf path = (w', Completed data)" by blast
  from described_parse_and_save[OF this] obtain module entity where
    e: "data = [(module, PDict entity)]" "map_of entity ''description'' = Some (PStr [])"
    "map_of entity ''submodules'' = None \<or>
            (\<exists>subs. map_of entity ''submodules'' = Some (PDict subs) \<and> described subs)"
    by auto
  have d: "\<forall>(k, v)\<in>set subs. \<exists>e. v = PDict e \<and> map_of e ''description'' = Some (PStr [])"
    if "described subs" for subs
    using that by (auto simp: described_def list_all_iff split: pyval.splits)
  have s: "map_of entity ''submodules'' = None \<or>
            (\<exists>subs. map_of entity ''submodules'' = Some (PDict subs)
               \<and> (\<forall>(k, v)\<in>set subs.
                     \<exists>e. v = PDict e \<and> map_of e ''description'' = Some (PStr [])))"
  proof (rule disjE[OF e(3)])
    assume "map_of entity ''submodules'' = None"
    then show ?thesis by (rule disjI1)
  next
    assume "\<exists>subs. map_of entity ''submodules'' = Some (PDict subs) \<and> described subs"
    then obtain subs where "map_of entity ''submodules'' = Some (PDict subs)" "described subs"
      by (elim exE conjE)
    with d[of subs] show ?thesis by (intro disjI2 exI[of _ subs] conjI)
  qed
  show ?thesis
    by (rule exI[of _ module], rule exI[of _ entity]) (intro conjI e(1) e(2) s)
qed

theorem main_descriptions_empty_witness:
  "\<exists>w' data. main ex_local [''avm_module_parameter_parser.py''] = (w', Completed data)
      \<and> (\<exists>module entity. data = [(module, PDict entity)]
            \<and> map_of entity ''description'' = Some (PStr []))"
proof -
  have e: "path_exists ex_local (path_join (path_join (script_dir ex_local) ''working'') ''README.md'')"
    by (simp add: ex_local_def ex_offline_def path_exists_def read_text_def file_path_def
          path_join_def endswith_def)
  obtain w' out where r: "parse_and_save ex_local None
           (path_join (path_join (script_dir ex_local) ''working'') ''README.md'') = (w', out)"
    by (cases "parse_and_save ex_local None
           (path_join (path_join (script_dir ex_local) ''working'') ''README.md'')")
  then obtain data where d: "out = Completed data"
    by (auto simp: parse_and_save_eq Let_def)
  have m: "main ex_local [''avm_module_parameter_parser.py''] = (w', Completed data)"
    using e r d by (simp add: main_def Let_def)
  from main_descriptions_empty[OF m] have
    "\<exists>module entity. data = [(module, PDict entity)]
            \<and> map_of entity ''description'' = Some (PStr [])"
    by blast
  with m show ?thesis by blast
qed

section \<open>Failures of the registry stages\<close>

lemma fetch_module_source_world:
  "fetch_module_source f w = (w', r) \<Longrightarrow> w' = w\<lparr>requested := requested w'\<rparr>"
  by (auto simp: fetch_module_source_def Let_def split: api_reply.splits if_splits)

lemma fetch_paths_world:
  "fetch_paths f w paths = (f', w', r) \<Longrightarrow>
   w' = w\<lparr>requested := requested w'\<rparr> \<and> f' = f\<lparr>repo_branch := repo_branch f'\<rparr>"
proof (induction paths arbitrary: f w)
  case Nil then show ?case by simp
next
  case (Cons path paths)
  let ?w = "w\<lparr>requested := requested w @ [github_raw_base_url @ ''/'' @ path]\<rparr>"
  show ?case
  proof (cases "\<exists>body. http w (github_raw_base_url @ ''/'' @ path) = Reply 200 body")
    case True
    then show ?thesis using Cons.prems by (auto simp: Let_def)
  next
    case False
    then have "fetch_paths f w (path # paths) = fetch_paths f ?w paths"
      by (auto simp: Let_def split: http_reply.splits)
    with Cons.prems have "fetch_paths f ?w paths = (f', w', r)" by simp
    from Cons.IH[OF this] show ?thesis
      by (metis (no_types, lifting) world.surjective world.update_convs(7) world.select_convs)
  qed
qed


lemma fetch_readme_content_world:
  "fetch_readme_content f w repo path = (f', w', r) \<Longrightarrow>
   w' = w\<lparr>requested := requested w'\<rparr> \<and> f' = f\<lparr>repo_branch := repo_branch f'\<rparr>"
  unfolding fetch_readme_content_def Let_def by (rule fetch_paths_world)

lemma help_is_no_module:
  assumes "TerraformRegistryFetcher m = Inr f"
  shows "m \<notin> set [''-h'', ''--help'', ''help'']"
proof
  assume "m \<in> set [''-h'', ''--help'', ''help'']"
  then consider "m = ''-h''" | "m = ''--help''" | "m = ''help''" by auto
  then have "TerraformRegistryFetcher m = Inl ValueError"
    by cases (simp_all add: TerraformRegistryFetcher_def split_def)
  with assms show False by simp
qed

text \<open>
  Claim C6, as amended.  In registry mode, when the source lookup gives no source, or the
  source is not a GitHub URL, or the README is found on neither branch, \<open>main\<close> gives up:
  no data is produced and no file is written.  The process ends with exit status 0.
\<close>

theorem registry_failure_aborts:
  assumes "TerraformRegistryFetcher m = Inr f0"
    and "fetch_module_source f0 w = (w1, source)"
    and "source = None \<or>
         (\<exists>src. source = Some src \<and>
            (snd (extract_github_repo f0 src) = None \<or>
             (\<exists>f1 repo. extract_github_repo f0 src = (f1, Some repo) \<and>
                snd (snd (fetch_readme_content f1 w1 repo [])) = None)))"
  shows "\<exists>w'. run_parser True w (prog # m # args) = (w', Some Aborted, 0) \<and> files w' = files w"
proof -
  have f1: "files w1 = files w"
    using fetch_module_source_world[OF assms(2)]
    by (metis world.select_convs(3) world.surjective world.update_convs(7))
  have "\<exists>f' w'. fetch_and_save_readme f0 w = (f', w', None) \<and> files w' = files w"
  proof (cases source)
    case None
    then show ?thesis using assms(2) f1 by (simp add: fetch_and_save_readme_def)
  next
    case (Some src)
    obtain f1 orepo where e: "extract_github_repo f0 src = (f1, orepo)"
      by (cases "extract_github_repo f0 src")
    show ?thesis
    proof (cases orepo)
      case None
      then show ?thesis using assms(2) Some e f1 by (simp add: fetch_and_save_readme_def)
    next
      case (Some repo)
      show ?thesis
      proof (cases "repo = []")
        case True
        then show ?thesis using assms(2) \<open>source = Some src\<close> Some e f1
          by (simp add: fetch_and_save_readme_def)
      next
        case False
        obtain f2 w2 r where c: "fetch_readme_content f1 w1 repo [] = (f2, w2, r)"
          by (cases "fetch_readme_content f1 w1 repo []")
        from assms(3) \<open>source = Some src\<close> e Some c have "r = None" by auto
        have "files w2 = files w1"
          using fetch_readme_content_world[OF c]
          by (metis world.select_convs(3) world.surjective world.update_convs(7))
        then show ?thesis using assms(2) \<open>source = Some src\<close> Some e f1 c \<open>r = None\<close> False
          by (simp add: fetch_and_save_readme_def)
      qed
    qed
  qed
  then obtain f' w' where a: "fetch_and_save_readme f0 w = (f', w', None)" "files w' = files w"
    by blast
  have "main w (prog # m # args) = (w', Aborted)"
    using assms(1) a(1) by (simp add: main_def)
  moreover have "m \<notin> set [''-h'', ''--help'', ''help'']"
    by (rule help_is_no_module[OF assms(1)])
  ultimately have "run_parser True w (prog # m # args) = (w', Some Aborted, 0)"
    by (simp add: run_parser_def)
  with a(2) show ?thesis by blast
qed

lemma ex_offline_fetcher:
  "TerraformRegistryFetcher ''o/r/p'' =
     Inr \<lparr>registry_module_name = ''o/r/p'', namespace = ''o'', name = ''r'', provider = ''p'',
          github_repo = None, source_url = None, repo_branch = None\<rparr>"
  by (simp add: TerraformRegistryFetcher_def split_def)

theorem registry_failure_aborts_witness:
  "\<exists>w'. run_parser True ex_offline [''avm_module_parameter_parser.py'', ''o/r/p'']
           = (w', Some Aborted, 0) \<and> files w' = files ex_offline"
proof -
  let ?f = "\<lparr>registry_module_name = ''o/r/p'', namespace = ''o'', name = ''r'', provider = ''p'',
          github_repo = None, source_url = None, repo_branch = None\<rparr>"
  obtain w1 source where s: "fetch_module_source ?f ex_offline = (w1, source)"
    by (cases "fetch_module_source ?f ex_offline")
  then have "source = None"
    by (auto simp: fetch_module_source_def Let_def ex_offline_def)
  then have "source = None \<or>
         (\<exists>src. source = Some src \<and>
            (snd (extract_github_repo ?f src) = None \<or>
             (\<exists>f1 repo. extract_github_repo ?f src = (f1, Some repo) \<and>
                snd (snd (fetch_readme_content f1 w1 repo [])) = None)))"
    by (rule disjI1)
  from registry_failure_aborts[OF ex_offline_fetcher s this] show ?thesis .
qed

text \<open>
  The claim as stated fails when the registry cannot be reached: the run gives up, and the
  exit status is 0.
\<close>

theorem registry_failure_status_counterexample:
  "\<not> (snd (snd (run_parser True ex_offline [''avm_module_parameter_parser.py'', ''o/r/p''])) \<noteq> 0)
   \<and> fst (snd (run_parser True ex_offline [''avm_module_parameter_parser.py'', ''o/r/p'']))
       = Some Aborted"
proof -
  have "snd (main ex_offline [''avm_module_parameter_parser.py'', ''o/r/p'']) = Aborted"
    by (simp add: main_def ex_offline_fetcher fetch_and_save_readme_def fetch_module_source_def
          Let_def ex_offline_def)
  then show ?thesis
    by (simp add: run_parser_def split_beta)
qed

section \<open>Branches\<close>

lemma fetch_readme_content_paths:
  "fetch_readme_content f w repo path =
     fetch_paths f w [repo @ ''/main/'' @ readme_of path, repo @ ''/master/'' @ readme_of path]"
  by (simp add: fetch_readme_content_def readme_of_def Let_def)

lemma fetch_paths_branch:
  "fetch_paths f w paths = (f', w', r) \<Longrightarrow>
   fetch_paths (f\<lparr>repo_branch := b\<rparr>) w paths =
     (f'\<lparr>repo_branch := (case r of None \<Rightarrow> b | Some x \<Rightarrow> repo_branch f')\<rparr>, w', r)"
proof (induction paths arbitrary: w)
  case Nil then show ?case by auto
next
  case (Cons path paths)
  show ?case
  proof (cases "page w (github_raw_base_url @ ''/'' @ path)")
    case (Some body)
    then show ?thesis using Cons.prems
      by (auto simp: page_def Let_def split: http_reply.splits if_splits)
  next
    case None
    let ?w = "w\<lparr>requested := requested w @ [github_raw_base_url @ ''/'' @ path]\<rparr>"
    from None have e: "fetch_paths g w (path # paths) = fetch_paths g ?w paths" for g
      by (auto simp: page_def Let_def split: http_reply.splits if_splits)
    from Cons.prems have "fetch_paths f ?w paths = (f', w', r)" by (simp only: e)
    from Cons.IH[OF this] show ?thesis by (simp only: e)
  qed
qed

lemma fetch_paths_two:
  "fetch_paths f w [p1, p2] = (f', w', r) \<Longrightarrow>
     requested w' = requested w @
        (if page w (github_raw_base_url @ ''/'' @ p1) \<noteq> None
         then [github_raw_base_url @ ''/'' @ p1]
         else [github_raw_base_url @ ''/'' @ p1, github_raw_base_url @ ''/'' @ p2])
   \<and> map_option fst r =
        (case page w (github_raw_base_url @ ''/'' @ p1) of
           Some body \<Rightarrow> Some body
         | None \<Rightarrow> page w (github_raw_base_url @ ''/'' @ p2))
   \<and> repo_branch f' = (case r of Some (body, branch) \<Rightarrow> Some branch | None \<Rightarrow> repo_branch f)"
  by (auto simp: page_def Let_def split: http_reply.splits if_splits)


lemma main_registry:
  assumes "TerraformRegistryFetcher m = Inr f0"
    and "fetch_and_save_readme f0 w = (f1, w1, Some path)"
  shows "main w (prog # m # args) =
           parse_and_save w1 (Some f1) (path_join (script_dir w1) path)"
  using assms by (simp add: main_def)

lemma fst_parse_and_save:
  "fst (parse_and_save w rf path) = fst (collect_submodules w rf (read_file w (ReadmeParser path)))"
  by (simp add: parse_and_save_eq Let_def)

lemma fetch_paths_fetcher:
  assumes "fetch_paths f w paths = (f', w', r)"
  shows "name f' = name f" "github_repo f' = github_repo f"
proof -
  from fetch_paths_world[OF assms] obtain x where "f' = f\<lparr>repo_branch := x\<rparr>" by blast
  then show "name f' = name f" "github_repo f' = github_repo f" by simp_all
qed

lemma fetch_paths_world_fields:
  assumes "fetch_paths f w paths = (f', w', r)"
  shows "files w' = files w" "http w' = http w" "can_write w' = can_write w"
    "cwd w' = cwd w" "script_dir w' = script_dir w" "registry w' = registry w"
proof -
  from fetch_paths_world[OF assms] obtain x where "w' = w\<lparr>requested := x\<rparr>" by blast
  then show "files w' = files w" "http w' = http w" "can_write w' = can_write w"
    "cwd w' = cwd w" "script_dir w' = script_dir w" "registry w' = registry w"
    by simp_all
qed

lemma fetch_submodule_readme_eq:
  assumes "github_repo f = Some repo" "repo \<noteq> []"
  shows "fetch_submodule_readme f w p n =
           save_submodule n (fetch_readme_content f w repo (submodule_path_of p))"
  using assms
  by (simp add: fetch_submodule_readme_def save_submodule_def submodule_path_of_def Let_def
           split: prod.splits option.splits)

lemma fetch_submodule_readme_branch:
  "snd (fetch_submodule_readme (f\<lparr>repo_branch := b\<rparr>) w p n) = snd (fetch_submodule_readme f w p n)"
proof (cases "github_repo f")
  case None
  then show ?thesis by (simp add: fetch_submodule_readme_def)
next
  case (Some repo)
  show ?thesis
  proof (cases "repo = []")
    case True
    then show ?thesis using Some by (simp add: fetch_submodule_readme_def)
  next
    case False
    obtain f1 w1 r1 where c: "fetch_readme_content f w repo (submodule_path_of p) = (f1, w1, r1)"
      by (cases "fetch_readme_content f w repo (submodule_path_of p)")
    have cb: "fetch_readme_content (f\<lparr>repo_branch := b\<rparr>) w repo (submodule_path_of p) =
                (f1\<lparr>repo_branch := (case r1 of None \<Rightarrow> b | Some x \<Rightarrow> repo_branch f1)\<rparr>, w1, r1)"
      using c unfolding fetch_readme_content_paths by (rule fetch_paths_branch)
    have g: "github_repo (f\<lparr>repo_branch := b\<rparr>) = Some repo" using Some by simp
    show ?thesis
      unfolding fetch_submodule_readme_eq[OF Some False] fetch_submodule_readme_eq[OF g False] c cb
      by (simp add: save_submodule_def split: option.splits prod.splits)
  qed
qed

text \<open>
  Claim C5, as amended.  Every README fetch requests the URL of the branch "main" first
  and the URL of the branch "master" only when "main" does not answer 200, and its text is
  that of the first of the two that answers 200.  No fetch reads the branch stored in the
  fetcher: with any other stored branch the fetch makes the same requests and returns the
  same result, and so does every submodule fetch.
\<close>

theorem fetch_ignores_stored_branch:
  assumes "fetch_readme_content f w repo path = (f', w', r)"
  shows "fetch_readme_content (f\<lparr>repo_branch := b\<rparr>) w repo path =
           (f'\<lparr>repo_branch := (case r of None \<Rightarrow> b | Some x \<Rightarrow> repo_branch f')\<rparr>, w', r)
       \<and> requested w' = requested w @
            (if page w (raw_url repo ''main'' path) \<noteq> None
             then [raw_url repo ''main'' path]
             else [raw_url repo ''main'' path, raw_url repo ''master'' path])
       \<and> map_option fst r =
            (case page w (raw_url repo ''main'' path) of
               Some body \<Rightarrow> Some body
             | None \<Rightarrow> page w (raw_url repo ''master'' path))
       \<and> (\<forall>p n. snd (fetch_submodule_readme (f\<lparr>repo_branch := b\<rparr>) w p n) =
                  snd (fetch_submodule_readme f w p n))"
proof -
  have 1: "fetch_readme_content (f\<lparr>repo_branch := b\<rparr>) w repo path =
           (f'\<lparr>repo_branch := (case r of None \<Rightarrow> b | Some x \<Rightarrow> repo_branch f')\<rparr>, w', r)"
    using assms unfolding fetch_readme_content_paths by (rule fetch_paths_branch)
  have u: "github_raw_base_url @ ''/'' @ repo @ ''/main/'' @ readme_of path = raw_url repo ''main'' path"
    "github_raw_base_url @ ''/'' @ repo @ ''/master/'' @ readme_of path = raw_url repo ''master'' path"
    by (simp_all add: raw_url_def)
  from fetch_paths_two[OF assms[unfolded fetch_readme_content_paths]]
  have 2: "requested w' = requested w @
            (if page w (raw_url repo ''main'' path) \<noteq> None
             then [raw_url repo ''main'' path]
             else [raw_url repo ''main'' path, raw_url repo ''master'' path])"
    and 3: "map_option fst r =
            (case page w (raw_url repo ''main'' path) of
               Some body \<Rightarrow> Some body
             | None \<Rightarrow> page w (raw_url repo ''master'' path))"
    unfolding u by blast+
  have 5: "\<forall>p n. snd (fetch_submodule_readme (f\<lparr>repo_branch := b\<rparr>) w p n) =
                  snd (fetch_submodule_readme f w p n)"
    by (simp add: fetch_submodule_readme_branch)
  show ?thesis by (intro conjI 1 2 3 5)
qed

theorem fetch_ignores_stored_branch_witness:
  "page ex_master_only (raw_url ''o/r'' ''main'' []) = None
   \<and> requested (fst (snd (fetch_readme_content ex_fetcher ex_master_only ''o/r'' []))) =
       [raw_url ''o/r'' ''main'' [], raw_url ''o/r'' ''master'' []]"
proof -
  have p: "page ex_master_only (raw_url ''o/r'' ''main'' []) = None"
    by (simp add: page_def ex_master_only_def ex_world_def raw_url_def readme_of_def
          github_raw_base_url_def)
  obtain f' w' r where c: "fetch_readme_content ex_fetcher ex_master_only ''o/r'' [] = (f', w', r)"
    by (cases "fetch_readme_content ex_fetcher ex_master_only ''o/r'' []")
  from fetch_ignores_stored_branch[OF c] have
    "requested w' = requested ex_master_only @
            (if page ex_master_only (raw_url ''o/r'' ''main'' []) \<noteq> None
             then [raw_url ''o/r'' ''main'' []]
             else [raw_url ''o/r'' ''main'' [], raw_url ''o/r'' ''master'' []])"
    by blast
  then have "requested w' = [raw_url ''o/r'' ''main'' [], raw_url ''o/r'' ''master'' []]"
    using p by (simp add: ex_master_only_def ex_world_def)
  with p c show ?thesis by simp
qed

text \<open>
  The claim as stated fails in the run on the repository whose README is on "master"
  only: the branch stored after the first fetch is "master", and the fetch of the
  submodule \<open>a\<close> requests the URL on "main" and saves the text found there.
\<close>

theorem sticky_branch_counterexample:
  "repo_branch (fst (fetch_and_save_readme ex_fetcher ex_master_only)) = Some ''master''
   \<and> requested (fst (main ex_master_only [''avm_module_parameter_parser.py'', ''o/r/p''])) =
       [''https://registry.terraform.io/v1/modules/o/r/p'',
        ''https://raw.githubusercontent.com/o/r/main/README.md'',
        ''https://raw.githubusercontent.com/o/r/master/README.md'',
        ''https://raw.githubusercontent.com/o/r/main/a/README.md'']
   \<and> map_of (files (fst (main ex_master_only [''avm_module_parameter_parser.py'', ''o/r/p''])))
         ''/app/working/r_a_README.md'' = Some ''on main''"
proof -
  define f1 where "f1 = fst (fetch_and_save_readme ex_fetcher ex_master_only)"
  define w1 where "w1 = fst (snd (fetch_and_save_readme ex_fetcher ex_master_only))"
  have t: "TerraformRegistryFetcher ''o/r/p'' = Inr ex_fetcher"
    by (simp add: TerraformRegistryFetcher_def split_def ex_fetcher_def)
  have s: "snd (snd (fetch_and_save_readme ex_fetcher ex_master_only)) = Some ''working/r_README.md''"
    by code_simp
  have fs: "fetch_and_save_readme ex_fetcher ex_master_only = (f1, w1, Some ''working/r_README.md'')"
    unfolding f1_def w1_def s[symmetric] by simp
  have m: "fst (main ex_master_only [''avm_module_parameter_parser.py'', ''o/r/p'']) =
           fst (collect_submodules w1 (Some f1)
                  (read_file w1 (ReadmeParser (path_join (script_dir w1) ''working/r_README.md''))))"
    unfolding main_registry[OF t fs] fst_parse_and_save ..
  have 1: "repo_branch (fst (fetch_and_save_readme ex_fetcher ex_master_only)) = Some ''master''"
    by code_simp
  have 2: "requested (fst (collect_submodules w1 (Some f1)
                  (read_file w1 (ReadmeParser (path_join (script_dir w1) ''working/r_README.md''))))) =
       [''https://registry.terraform.io/v1/modules/o/r/p'',
        ''https://raw.githubusercontent.com/o/r/main/README.md'',
        ''https://raw.githubusercontent.com/o/r/master/README.md'',
        ''https://raw.githubusercontent.com/o/r/main/a/README.md'']"
    unfolding f1_def w1_def by code_simp
  have 3: "map_of (files (fst (collect_submodules w1 (Some f1)
                  (read_file w1 (ReadmeParser (path_join (script_dir w1) ''working/r_README.md''))))))
         ''/app/working/r_a_README.md'' = Some ''on main''"
    unfolding f1_def w1_def by code_simp
  show ?thesis unfolding m by (intro conjI 1 2 3)
qed

section \<open>Submodules whose README cannot be fetched\<close>

lemma map_fst_update:
  "map fst (AList.update k v al) = (if k \<in> set (map fst al) then map fst al else map fst al @ [k])"
  by (induction al) auto

lemma write_text_fields:
  assumes "write_text w p t = Some w'"
  shows "http w' = http w" "can_write w' = can_write w" "cwd w' = cwd w"
    "script_dir w' = script_dir w" "registry w' = registry w" "requested w' = requested w"
  using assms by (auto simp: write_text_def split: if_splits)

lemma fetch_submodule_readme_fields:
  assumes "fetch_submodule_readme f w p n = (f', w', r)"
  shows "github_repo f' = github_repo f \<and> name f' = name f \<and> http w' = http w
       \<and> can_write w' = can_write w \<and> cwd w' = cwd w \<and> script_dir w' = script_dir w"
proof (cases "github_repo f")
  case None
  then show ?thesis using assms by (simp add: fetch_submodule_readme_def)
next
  case (Some repo)
  show ?thesis
  proof (cases "repo = []")
    case True
    then show ?thesis using assms Some by (simp add: fetch_submodule_readme_def)
  next
    case False
    obtain f1 w1 r1 where c: "fetch_readme_content f w repo (submodule_path_of p) = (f1, w1, r1)"
      by (cases "fetch_readme_content f w repo (submodule_path_of p)")
    note cp = c[unfolded fetch_readme_content_paths]
    note ff = fetch_paths_fetcher[OF cp] and wf = fetch_paths_world_fields[OF cp]
    from assms have s: "save_submodule n (f1, w1, r1) = (f', w', r)"
      unfolding fetch_submodule_readme_eq[OF Some False] c .
    show ?thesis
    proof (cases r1)
      case None
      then show ?thesis using s ff wf by (simp add: save_submodule_def)
    next
      case (Some cb)
      obtain ct br where cb: "cb = (ct, br)" by (cases cb)
      show ?thesis
      proof (cases "write_text w1 (''working/'' @ replace (name f1) ''-'' ''_'' @ ''_'' @
                               replace (replace n ''-'' ''_'') ''/'' ''_'' @ ''_README.md'') ct")
        case None
        then show ?thesis using s ff wf Some cb by (simp add: save_submodule_def)
      next
        case (Some w2)
        note w2 = write_text_fields[OF Some]
        from s \<open>r1 = Some cb\<close> cb Some have "f' = f1" "w' = w2"
          by (simp_all add: save_submodule_def)
        then show ?thesis using ff wf w2 by simp
      qed
    qed
  qed
qed

lemma submodule_fetch_ok_iff:
  assumes "github_repo f = Some repo" "repo \<noteq> []"
  shows "submodule_fetch_ok f w info \<longleftrightarrow>
     (\<exists>body. (case page w (raw_url repo ''main'' (submodule_path_of (info_path info))) of
                Some b \<Rightarrow> Some b
              | None \<Rightarrow> page w (raw_url repo ''master'' (submodule_path_of (info_path info))))
             = Some body) \<and>
     can_write w (file_path w (''working/'' @ replace (name f) ''-'' ''_'' @ ''_'' @
                     replace (replace (info_name info) ''-'' ''_'') ''/'' ''_'' @ ''_README.md''))"
proof -
  obtain f1 w1 r1 where c: "fetch_readme_content f w repo (submodule_path_of (info_path info)) = (f1, w1, r1)"
    by (cases "fetch_readme_content f w repo (submodule_path_of (info_path info))")
  note cp = c[unfolded fetch_readme_content_paths]
  note ff = fetch_paths_fetcher[OF cp] and wf = fetch_paths_world_fields[OF cp]
  have u: "github_raw_base_url @ ''/'' @ repo @ ''/main/'' @ readme_of p = raw_url repo ''main'' p"
    "github_raw_base_url @ ''/'' @ repo @ ''/master/'' @ readme_of p = raw_url repo ''master'' p" for p
    by (simp_all add: raw_url_def)
  from fetch_paths_two[OF cp] have r1: "map_option fst r1 =
     (case page w (raw_url repo ''main'' (submodule_path_of (info_path info))) of
                Some b \<Rightarrow> Some b
              | None \<Rightarrow> page w (raw_url repo ''master'' (submodule_path_of (info_path info))))"
    unfolding u by blast
  have fp: "file_path w1 x = file_path w x" for x
    by (simp add: file_path_def wf)
  show ?thesis
    unfolding submodule_fetch_ok_def fetch_submodule_readme_eq[OF assms] c r1[symmetric]
    by (cases r1) (auto simp: save_submodule_def write_text_def ff wf fp split: option.splits if_splits)
qed

lemma submodule_fetch_ok_cong:
  assumes "github_repo f' = github_repo f" "name f' = name f" "http w' = http w"
    "can_write w' = can_write w" "cwd w' = cwd w"
  shows "submodule_fetch_ok f' w' info = submodule_fetch_ok f w info"
proof (cases "github_repo f")
  case None
  then show ?thesis using assms(1)
    by (simp add: submodule_fetch_ok_def fetch_submodule_readme_def)
next
  case (Some repo)
  show ?thesis
  proof (cases "repo = []")
    case True
    then show ?thesis using assms(1) Some
      by (simp add: submodule_fetch_ok_def fetch_submodule_readme_def)
  next
    case False
    have g: "github_repo f' = Some repo" using assms(1) Some by simp
    have p: "page w' = page w" by (rule ext) (simp add: page_def assms)
    have fp: "file_path w' = file_path w" by (rule ext) (simp add: file_path_def assms)
    show ?thesis
      unfolding submodule_fetch_ok_iff[OF Some False] submodule_fetch_ok_iff[OF g False]
        p fp assms(2) assms(4) ..
  qed
qed

lemma process_info_keys:
  assumes "process_info i (f, w, d) = (f', w', d')"
  shows "map fst d' = add_name f w i (map fst d)"
    and "github_repo f' = github_repo f \<and> name f' = name f \<and> http w' = http w
       \<and> can_write w' = can_write w \<and> cwd w' = cwd w \<and> script_dir w' = script_dir w"
proof -
  obtain f1 w1 r where c: "fetch_submodule_readme f w (info_path i) (info_name i) = (f1, w1, r)"
    by (cases "fetch_submodule_readme f w (info_path i) (info_name i)")
  have ok: "submodule_fetch_ok f w i \<longleftrightarrow> r \<noteq> None"
    by (simp add: submodule_fetch_ok_def c)
  from assms c have fw: "f' = f1" "w' = w1"
    by (auto simp: process_info_def Let_def split: option.splits)
  show "github_repo f' = github_repo f \<and> name f' = name f \<and> http w' = http w
       \<and> can_write w' = can_write w \<and> cwd w' = cwd w \<and> script_dir w' = script_dir w"
    unfolding fw by (rule fetch_submodule_readme_fields[OF c])
  show "map fst d' = add_name f w i (map fst d)"
  proof (cases r)
    case None
    then show ?thesis using assms c ok by (simp add: process_info_def add_name_def)
  next
    case (Some p)
    then show ?thesis using assms c ok
      by (force simp: process_info_def add_name_def Let_def map_fst_update)
  qed
qed

lemma add_name_cong:
  assumes "github_repo f' = github_repo f \<and> name f' = name f \<and> http w' = http w
       \<and> can_write w' = can_write w \<and> cwd w' = cwd w \<and> script_dir w' = script_dir w"
  shows "add_name f' w' = add_name f w"
proof (intro ext)
  fix i ks
  have "submodule_fetch_ok f' w' i = submodule_fetch_ok f w i"
    using assms by (intro submodule_fetch_ok_cong) simp_all
  then show "add_name f' w' i ks = add_name f w i ks" by (simp add: add_name_def)
qed

lemma fold_process_info_keys:
  assumes "fold process_info infos (f, w, d) = (f', w', d')"
  shows "map fst d' = fold (add_name f w) infos (map fst d)"
  using assms
proof (induction infos arbitrary: f w d)
  case Nil then show ?case by simp
next
  case (Cons i infos)
  obtain f1 w1 d1 where s: "process_info i (f, w, d) = (f1, w1, d1)"
    by (cases "process_info i (f, w, d)")
  from Cons.prems s have "fold process_info infos (f1, w1, d1) = (f', w', d')" by simp
  from Cons.IH[OF this] have "map fst d' = fold (add_name f1 w1) infos (map fst d1)" .
  also have "add_name f1 w1 = add_name f w"
    by (rule add_name_cong) (rule process_info_keys(2)[OF s])
  also have "map fst d1 = add_name f w i (map fst d)" by (rule process_info_keys(1)[OF s])
  finally show ?case by simp
qed

lemma fold_add_name_distinct:
  "distinct (ks @ map info_name infos) \<Longrightarrow>
   fold (add_name f w) infos ks = ks @ map info_name (filter (submodule_fetch_ok f w) infos)"
proof (induction infos arbitrary: ks)
  case Nil then show ?case by simp
next
  case (Cons i infos)
  show ?case
  proof (cases "submodule_fetch_ok f w i")
    case True
    have "distinct ((ks @ [info_name i]) @ map info_name infos)" using Cons.prems by simp
    from Cons.IH[OF this] True Cons.prems show ?thesis by (simp add: add_name_def)
  next
    case False
    have "distinct (ks @ map info_name infos)" using Cons.prems by simp
    from Cons.IH[OF this] False show ?thesis by (simp add: add_name_def)
  qed
qed

lemma extract_with_repo:
  "extract_with ps f src = (f', Some repo) \<Longrightarrow> github_repo f' = Some repo \<and> name f' = name f"
  by (induction ps) (auto simp: Let_def split: option.splits)

lemma fetch_and_save_readme_repo:
  assumes "fetch_and_save_readme f0 w = (f1, w1, Some path)"
  shows "\<exists>repo. github_repo f1 = Some repo \<and> repo \<noteq> []"
proof -
  obtain w0 source where s: "fetch_module_source f0 w = (w0, source)"
    by (cases "fetch_module_source f0 w")
  with assms obtain src where src: "source = Some src"
    by (cases source) (auto simp: fetch_and_save_readme_def)
  obtain fa orepo where e: "extract_github_repo f0 src = (fa, orepo)"
    by (cases "extract_github_repo f0 src")
  with assms s src obtain repo where repo: "orepo = Some repo"
    by (cases orepo) (auto simp: fetch_and_save_readme_def)
  have ne: "repo \<noteq> []"
    using assms s src e repo by (auto simp: fetch_and_save_readme_def)
  obtain fb wb r where c: "fetch_readme_content fa w0 repo [] = (fb, wb, r)"
    by (cases "fetch_readme_content fa w0 repo []")
  have "github_repo fa = Some repo"
    using e repo extract_with_repo[of github_patterns f0 src fa repo]
    by (simp add: extract_github_repo_def)
  moreover have "github_repo fb = github_repo fa"
    using fetch_paths_fetcher(2)[OF c[unfolded fetch_readme_content_paths]] .
  moreover have "f1 = fb"
    using assms s src e repo ne c
    by (auto simp: fetch_and_save_readme_def Let_def split: option.splits prod.splits)
  ultimately show ?thesis using ne by simp
qed

lemma extract_section_Nil: "extract_section [] section_name = []"
  by (simp add: extract_section_def re_search_def section_pattern_def cat_def)

lemma discover_submodules_Nil: "discover_submodules [] = []"
  by (simp add: discover_submodules_def re_finditer_def module_pattern_def cat_def)

lemma parse_keeps_submodules:
  assumes "parse w parser = (parser', result)" "content parser \<noteq> []"
    "extract_section (content parser) ''Submodules'' = []"
  shows "content parser' = content parser" "submodules parser' = submodules parser"
proof -
  from parse_unfold[OF assms(1)] assms(2) show c: "content parser' = content parser" by simp
  from parse_unfold[OF assms(1)] have
    "submodules parser' =
       (if extract_section (content parser') ''Submodules'' \<noteq> []
        then fold (process_submodule w (dirname (readme_path parser)))
               (re_finditer submodule_pattern (extract_section (content parser') ''Submodules'')
                  [MULTILINE])
               (submodules parser)
        else submodules parser)"
    by blast
  then show "submodules parser' = submodules parser" using assms(3) c by simp
qed

lemma submodules_count_result:
  assumes "parse w parser = (parser', result)"
  shows "submodules_count result = length (submodules parser')"
proof -
  from parse_unfold[OF assms] obtain entity where
    "result = [(parser_module_name parser', PDict entity)]"
    "map_of entity ''submodules'' =
       (if submodules parser' \<noteq> [] then Some (PDict (submodules parser')) else None)"
    by blast
  then show ?thesis by (simp add: submodules_count_def)
qed

lemma main_registry_count:
  assumes "TerraformRegistryFetcher m = Inr f0"
    and "fetch_and_save_readme f0 w = (f1, w1, Some path)"
    and "readme = content (read_file w1 (ReadmeParser (path_join (script_dir w1) path)))"
    and "infos = discover_submodules (extract_section readme ''Modules'')"
    and "infos \<noteq> []"
    and "extract_section readme ''Submodules'' = []"
  shows "\<exists>w' data. main w (prog # m # args) = (w', Completed data)
           \<and> submodules_count data = length (fold (add_name f1 w1) infos [])"
proof -
  define p0 where "p0 = read_file w1 (ReadmeParser (path_join (script_dir w1) path))"
  have readme: "readme = content p0" by (simp add: assms(3) p0_def)
  have sec: "extract_section (content p0) ''Modules'' \<noteq> []"
    using assms(4,5) discover_submodules_Nil unfolding readme by auto
  then have ne: "content p0 \<noteq> []" using extract_section_Nil by auto
  from fetch_and_save_readme_repo[OF assms(2)] have tr: "truthy (github_repo f1)"
    by (auto simp: truthy_def)
  obtain f3 w3 d where fo: "fold process_info infos (f1, w1, []) = (f3, w3, d)"
    by (cases "fold process_info infos (f1, w1, [])")
  have cs: "collect_submodules w1 (Some f1) p0 = (w3, d)"
    using tr sec fo by (simp add: collect_submodules_def Let_def assms(4) readme)
  have keys: "map fst d = fold (add_name f1 w1) infos []"
    using fold_process_info_keys[OF fo] by simp
  define p1 where "p1 = (if d \<noteq> [] then set_submodules p0 d else p0)"
  have p1: "content p1 = content p0" "submodules p1 = d"
    by (simp_all add: p1_def set_submodules_def p0_def)
  obtain p2 r2 where q2: "parse w3 p1 = (p2, r2)" by (cases "parse w3 p1")
  obtain p3 r3 where q3: "parse w3 p2 = (p3, r3)" by (cases "parse w3 p2")
  have s: "extract_section (content p0) ''Submodules'' = []" using assms(6) readme by simp
  have k2: "content p2 = content p0" "submodules p2 = d"
    using parse_keeps_submodules[OF q2] ne s p1 by simp_all
  have k3: "submodules p3 = d"
    using parse_keeps_submodules[OF q3] ne s k2 by simp
  have "parse_and_save w1 (Some f1) (path_join (script_dir w1) path) = (w3, Completed r3)"
    unfolding parse_and_save_eq Let_def p0_def[symmetric] cs fst_conv snd_conv p1_def[symmetric]
      q2 q3 ..
  then have "main w (prog # m # args) = (w3, Completed r3)"
    using main_registry[OF assms(1,2)] by simp
  moreover have "submodules_count r3 = length (fold (add_name f1 w1) infos [])"
    unfolding submodules_count_result[OF q3] k3 keys[symmetric] by simp
  ultimately show ?thesis by blast
qed

text \<open>
  Claim C7, as amended.  In a registry-mode run whose top-level README is fetched and
  saved, let N submodules be found in the Modules section of the README read back, with
  pairwise different names, and let the README have no Submodules section.  If the fetch
  of the README fails for exactly one of the N submodules, the run completes: \<open>main\<close>
  produces its data, the exit status is 0, and the submodules mapping of the data has
  exactly N - 1 entries.
\<close>

theorem one_submodule_fetch_failure:
  assumes "TerraformRegistryFetcher m = Inr f0"
    and "fetch_and_save_readme f0 w = (f1, w1, Some path)"
    and "readme = content (read_file w1 (ReadmeParser (path_join (script_dir w1) path)))"
    and "infos = discover_submodules (extract_section readme ''Modules'')"
    and "distinct (map info_name infos)"
    and "extract_section readme ''Submodules'' = []"
    and "length (filter (\<lambda>info. \<not> submodule_fetch_ok f1 w1 info) infos) = 1"
  shows "\<exists>w' data. main w (prog # m # args) = (w', Completed data)
           \<and> submodules_count data = length infos - 1
           \<and> run_parser True w (prog # m # args) = (w', Some (Completed data), 0)"
proof -
  have ne: "infos \<noteq> []" using assms(7) by auto
  from main_registry_count[OF assms(1-4) ne assms(6)] obtain w' data where
    m: "main w (prog # m # args) = (w', Completed data)"
    and c: "submodules_count data = length (fold (add_name f1 w1) infos [])"
    by blast
  have "fold (add_name f1 w1) infos [] = map info_name (filter (submodule_fetch_ok f1 w1) infos)"
    using fold_add_name_distinct[of "[]" infos f1 w1] assms(5) by simp
  then have "submodules_count data = length (filter (submodule_fetch_ok f1 w1) infos)"
    using c by simp
  moreover have "length (filter (submodule_fetch_ok f1 w1) infos) +
                 length (filter (\<lambda>info. \<not> submodule_fetch_ok f1 w1 info) infos) = length infos"
    by (rule sum_length_filter_compl)
  ultimately have n: "submodules_count data = length infos - 1" using assms(7) by simp
  have "m \<notin> set [''-h'', ''--help'', ''help'']" by (rule help_is_no_module[OF assms(1)])
  then have "run_parser True w (prog # m # args) = (w', Some (Completed data), 0)"
    using m by (simp add: run_parser_def)
  with m n show ?thesis by blast
qed

lemma ex_fetcher_init: "TerraformRegistryFetcher ''o/r/p'' = Inr ex_fetcher"
  by (simp add: TerraformRegistryFetcher_def split_def ex_fetcher_def)

theorem one_submodule_fetch_failure_witness:
  "\<exists>w' data. main ex_two_submodules [''avm_module_parameter_parser.py'', ''o/r/p'']
                = (w', Completed data)
     \<and> submodules_count data = 1"
proof -
  define f1 where "f1 = fst (fetch_and_save_readme ex_fetcher ex_two_submodules)"
  define w1 where "w1 = fst (snd (fetch_and_save_readme ex_fetcher ex_two_submodules))"
  define readme where
    "readme = content (read_file w1 (ReadmeParser (path_join (script_dir w1) ''working/r_README.md'')))"
  define infos where
    "infos = [\<lparr>info_id = ''a'', info_name = ''a'', info_path = ''a'', info_description = []\<rparr>,
              \<lparr>info_id = ''b'', info_name = ''b'', info_path = ''b'', info_description = []\<rparr>]"
  have s: "snd (snd (fetch_and_save_readme ex_fetcher ex_two_submodules)) = Some ''working/r_README.md''"
    by code_simp
  have fs: "fetch_and_save_readme ex_fetcher ex_two_submodules = (f1, w1, Some ''working/r_README.md'')"
    unfolding f1_def w1_def s[symmetric] by simp
  have i: "infos = discover_submodules (extract_section readme ''Modules'')"
    unfolding infos_def readme_def w1_def by code_simp
  have d: "distinct (map info_name infos)" by (simp add: infos_def)
  have n: "extract_section readme ''Submodules'' = []"
    unfolding readme_def w1_def by code_simp
  have o: "length (filter (\<lambda>info. \<not> submodule_fetch_ok f1 w1 info) infos) = 1"
    unfolding infos_def f1_def w1_def by code_simp
  from one_submodule_fetch_failure[OF ex_fetcher_init fs readme_def i d n o,
         of "''avm_module_parameter_parser.py''" "[]"]
  obtain w' data where
    "main ex_two_submodules [''avm_module_parameter_parser.py'', ''o/r/p''] = (w', Completed data)"
    "submodules_count data = length infos - 1"
    by blast
  then have "main ex_two_submodules [''avm_module_parameter_parser.py'', ''o/r/p'']
               = (w', Completed data) \<and> submodules_count data = 1"
    by (simp add: infos_def)
  then show ?thesis by blast
qed

text \<open>
  The claim as stated fails when two of the submodules found have the same name: of the
  three submodules found, the fetch fails for exactly one, and the submodules mapping has
  one entry, not two.
\<close>

theorem duplicate_names_counterexample:
  "discover_submodules (extract_section (ex_modules_readme [''a'', ''a'', ''b'']) ''Modules'') =
     [\<lparr>info_id = ''a'', info_name = ''a'', info_path = ''a'', info_description = []\<rparr>,
      \<lparr>info_id = ''a'', info_name = ''a'', info_path = ''a'', info_description = []\<rparr>,
      \<lparr>info_id = ''b'', info_name = ''b'', info_path = ''b'', info_description = []\<rparr>]
   \<and> map (submodule_fetch_ok (fst (fetch_and_save_readme ex_fetcher ex_duplicate))
                               (fst (snd (fetch_and_save_readme ex_fetcher ex_duplicate))))
       [\<lparr>info_id = ''a'', info_name = ''a'', info_path = ''a'', info_description = []\<rparr>,
        \<lparr>info_id = ''a'', info_name = ''a'', info_path = ''a'', info_description = []\<rparr>,
        \<lparr>info_id = ''b'', info_name = ''b'', info_path = ''b'', info_description = []\<rparr>]
       = [True, True, False]
   \<and> (\<exists>w' data. main ex_duplicate [''avm_module_parameter_parser.py'', ''o/r/p'']
                    = (w', Completed data)
         \<and> submodules_count data = 1)"
proof -
  define f1 where "f1 = fst (fetch_and_save_readme ex_fetcher ex_duplicate)"
  define w1 where "w1 = fst (snd (fetch_and_save_readme ex_fetcher ex_duplicate))"
  define readme where
    "readme = content (read_file w1 (ReadmeParser (path_join (script_dir w1) ''working/r_README.md'')))"
  define infos where
    "infos = [\<lparr>info_id = ''a'', info_name = ''a'', info_path = ''a'', info_description = []\<rparr>,
              \<lparr>info_id = ''a'', info_name = ''a'', info_path = ''a'', info_description = []\<rparr>,
              \<lparr>info_id = ''b'', info_name = ''b'', info_path = ''b'', info_description = []\<rparr>]"
  have s: "snd (snd (fetch_and_save_readme ex_fetcher ex_duplicate)) = Some ''working/r_README.md''"
    by code_simp
  have fs: "fetch_and_save_readme ex_fetcher ex_duplicate = (f1, w1, Some ''working/r_README.md'')"
    unfolding f1_def w1_def s[symmetric] by simp
  have r: "readme = ex_modules_readme [''a'', ''a'', ''b'']"
    unfolding readme_def w1_def by code_simp
  have 1: "discover_submodules (extract_section (ex_modules_readme [''a'', ''a'', ''b'']) ''Modules'') = infos"
    unfolding infos_def by code_simp
  have i: "infos = discover_submodules (extract_section readme ''Modules'')"
    unfolding r 1 ..
  have n: "extract_section readme ''Submodules'' = []"
    unfolding r by code_simp
  have 2: "map (submodule_fetch_ok f1 w1) infos = [True, True, False]"
    unfolding infos_def f1_def w1_def by code_simp
  have k: "length (fold (add_name f1 w1) infos []) = 1"
    unfolding infos_def f1_def w1_def by code_simp
  have ne: "infos \<noteq> []" by (simp add: infos_def)
  from main_registry_count[OF ex_fetcher_init fs readme_def i ne n] k
  have 3: "\<exists>w' data. main ex_duplicate [''avm_module_parameter_parser.py'', ''o/r/p'']
                    = (w', Completed data) \<and> submodules_count data = 1"
    by simp
  show ?thesis
    using 1 2 3 unfolding infos_def f1_def w1_def by (intro conjI)
qed

lemma main_registry_data:
  assumes "TerraformRegistryFetcher m = Inr f0"
    and "fetch_and_save_readme f0 w = (f1, w1, Some path)"
    and "p0 = read_file w1 (ReadmeParser (path_join (script_dir w1) path))"
    and "content p0 \<noteq> []"
    and "collect_submodules w1 (Some f1) p0 = (w3, d)"
    and "add = (\<lambda>subs. if extract_section (content p0) ''Submodules'' \<noteq> []
                        then fold (process_submodule w3 (dirname (readme_path p0)))
                               (re_finditer submodule_pattern
                                  (extract_section (content p0) ''Submodules'') [MULTILINE]) subs
                        else subs)"
  shows "\<exists>data. main w (prog # m # args) = (w3, Completed data)
           \<and> submodules_count data = length (add (add d))"
proof -
  define p1 where "p1 = (if d \<noteq> [] then set_submodules p0 d else p0)"
  have p1: "content p1 = content p0" "submodules p1 = d" "readme_path p1 = readme_path p0"
    by (simp_all add: p1_def set_submodules_def assms(3))
  obtain p2 r2 where q2: "parse w3 p1 = (p2, r2)" by (cases "parse w3 p1")
  obtain p3 r3 where q3: "parse w3 p2 = (p3, r3)" by (cases "parse w3 p2")
  have k2: "content p2 = content p0" "readme_path p2 = readme_path p0" "submodules p2 = add d"
    using parse_unfold[OF q2] assms(4) p1 by (simp_all add: assms(6))
  have k3: "submodules p3 = add (add d)"
    using parse_unfold[OF q3] assms(4) k2 by (simp add: assms(6))
  have "parse_and_save w1 (Some f1) (path_join (script_dir w1) path) = (w3, Completed r3)"
    unfolding parse_and_save_eq Let_def assms(3)[symmetric] assms(5) fst_conv snd_conv
      p1_def[symmetric] q2 q3 ..
  then have "main w (prog # m # args) = (w3, Completed r3)"
    using main_registry[OF assms(1,2)] by simp
  moreover have "submodules_count r3 = length (add (add d))"
    unfolding submodules_count_result[OF q3] k3 ..
  ultimately show ?thesis by blast
qed

text \<open>
  The entries of a Submodules section count as well: with the two submodules \<open>a\<close> and
  \<open>b\<close> found in the Modules section and the fetch failing for \<open>b\<close> only, the submodule
  \<open>x\<close> of the Submodules section, whose README lies in the working folder, is a second
  entry of the mapping.
\<close>

theorem submodules_section_counterexample:
  "discover_submodules
     (extract_section (ex_modules_readme [''a'', ''b''] @ ''## Submodules'' @ [newline] @ ''- x'')
        ''Modules'') =
     [\<lparr>info_id = ''a'', info_name = ''a'', info_path = ''a'', info_description = []\<rparr>,
      \<lparr>info_id = ''b'', info_name = ''b'', info_path = ''b'', info_description = []\<rparr>]
   \<and> map (submodule_fetch_ok (fst (fetch_and_save_readme ex_fetcher ex_local_submodule))
                               (fst (snd (fetch_and_save_readme ex_fetcher ex_local_submodule))))
       [\<lparr>info_id = ''a'', info_name = ''a'', info_path = ''a'', info_description = []\<rparr>,
        \<lparr>info_id = ''b'', info_name = ''b'', info_path = ''b'', info_description = []\<rparr>]
       = [True, False]
   \<and> (\<exists>w' data. main ex_local_submodule [''avm_module_parameter_parser.py'', ''o/r/p'']
                    = (w', Completed data)
         \<and> submodules_count data = 2)"
proof -
  define f1 where "f1 = fst (fetch_and_save_readme ex_fetcher ex_local_submodule)"
  define w1 where "w1 = fst (snd (fetch_and_save_readme ex_fetcher ex_local_submodule))"
  define p0 where "p0 = read_file w1 (ReadmeParser (path_join (script_dir w1) ''working/r_README.md''))"
  define w3 where "w3 = fst (collect_submodules w1 (Some f1) p0)"
  define d where "d = snd (collect_submodules w1 (Some f1) p0)"
  define add where "add = (\<lambda>subs. if extract_section (content p0) ''Submodules'' \<noteq> []
                        then fold (process_submodule w3 (dirname (readme_path p0)))
                               (re_finditer submodule_pattern
                                  (extract_section (content p0) ''Submodules'') [MULTILINE]) subs
                        else subs)"
  have s: "snd (snd (fetch_and_save_readme ex_fetcher ex_local_submodule)) = Some ''working/r_README.md''"
    by code_simp
  have fs: "fetch_and_save_readme ex_fetcher ex_local_submodule = (f1, w1, Some ''working/r_README.md'')"
    unfolding f1_def w1_def s[symmetric] by simp
  have c: "content p0 \<noteq> []"
    unfolding p0_def w1_def by code_simp
  have cs: "collect_submodules w1 (Some f1) p0 = (w3, d)"
    by (simp add: w3_def d_def)
  have 1: "discover_submodules
     (extract_section (ex_modules_readme [''a'', ''b''] @ ''## Submodules'' @ [newline] @ ''- x'')
        ''Modules'') =
     [\<lparr>info_id = ''a'', info_name = ''a'', info_path = ''a'', info_description = []\<rparr>,
      \<lparr>info_id = ''b'', info_name = ''b'', info_path = ''b'', info_description = []\<rparr>]"
    by code_simp
  have 2: "map (submodule_fetch_ok f1 w1)
       [\<lparr>info_id = ''a'', info_name = ''a'', info_path = ''a'', info_description = []\<rparr>,
        \<lparr>info_id = ''b'', info_name = ''b'', info_path = ''b'', info_description = []\<rparr>]
       = [True, False]"
    unfolding f1_def w1_def by code_simp
  have k: "length (add (add d)) = 2"
    unfolding add_def d_def w3_def p0_def f1_def w1_def by code_simp
  from main_registry_data[OF ex_fetcher_init fs p0_def c cs add_def,
         of "''avm_module_parameter_parser.py''" "[]"] k
  have 3: "\<exists>w' data. main ex_local_submodule [''avm_module_parameter_parser.py'', ''o/r/p'']
                    = (w', Completed data) \<and> submodules_count data = 2"
    by auto
  show ?thesis
    using 1 2 3 unfolding f1_def w1_def by (intro conjI)
qed

end
